(* ===== verification/Prelude.thy ===== *)
theory Prelude
  imports Main "HOL-Library.Word" "HOL-Library.Finite_Map"
begin

text \<open>
  What every component of the model shares: the machine integers of the crate, Rust
  strings as lists of Unicode scalar values, the result type with its early return, and
  the generic lemmas and collections the component proofs use.
\<close>

section \<open>Machine integers\<close>

type_synonym u8 = "8 word"
type_synonym u16 = "16 word"
type_synonym u32 = "32 word"
type_synonym u64 = "64 word"

text \<open>An \<open>i64\<close> is the same 64 bits, read with \<open>sint\<close>.\<close>

type_synonym i64 = "64 word"

text \<open>\<open>saturating_add\<close>, \<open>saturating_sub\<close> and \<open>saturating_mul\<close> of the standard library.\<close>

definition sat_add :: "'a::len word \<Rightarrow> 'a word \<Rightarrow> 'a word" where
  "sat_add a b = (if unat a + unat b < 2 ^ LENGTH('a) then a + b else - 1)"

definition sat_sub :: "'a::len word \<Rightarrow> 'a word \<Rightarrow> 'a word" where
  "sat_sub a b = (if b \<le> a then a - b else 0)"

definition sat_mul :: "'a::len word \<Rightarrow> 'a word \<Rightarrow> 'a word" where
  "sat_mul a b = (if unat a * unat b < 2 ^ LENGTH('a) then a * b else - 1)"

lemma unat_sat_add: "unat (sat_add a b) = min (unat a + unat b) (2 ^ LENGTH('a) - 1)"
  for a b :: "'a::len word"
proof (cases "unat a + unat b < 2 ^ LENGTH('a)")
  case True
  then show ?thesis by (simp add: sat_add_def unat_word_ariths)
next
  case False
  then show ?thesis by (simp add: sat_add_def unsigned_minus_1_eq_mask mask_eq_exp_minus_1)
qed

lemma unat_sat_sub: "unat (sat_sub a b) = unat a - unat b"
  for a b :: "'a::len word"
  by (auto simp: sat_sub_def word_le_nat_alt unat_sub)

lemma unat_sat_mul: "unat (sat_mul a b) = min (unat a * unat b) (2 ^ LENGTH('a) - 1)"
  for a b :: "'a::len word"
proof (cases "unat a * unat b < 2 ^ LENGTH('a)")
  case True
  then show ?thesis by (simp add: sat_mul_def unat_word_ariths)
next
  case False
  then show ?thesis by (simp add: sat_mul_def unsigned_minus_1_eq_mask mask_eq_exp_minus_1)
qed

section \<open>Strings\<close>

text \<open>
  A Rust \<open>char\<close> is a Unicode scalar value and a \<open>String\<close> a sequence of them (stored as
  UTF-8). The model keeps the scalar values; \<open>utf8_size\<close> gives the bytes they take.
\<close>

type_synonym rchar = nat
type_synonym rstring = "rchar list"

definition lit :: "string \<Rightarrow> rstring" where
  "lit s = map of_char s"

lemma lit_Nil [simp]: "lit [] = []"
  by (simp add: lit_def)

lemma lit_append: "lit (s @ t) = lit s @ lit t"
  by (simp add: lit_def)

lemma length_lit [simp]: "length (lit s) = length s"
  by (simp add: lit_def)

lemma lit_inject [simp]: "lit s = lit t \<longleftrightarrow> s = t"
proof
  assume "lit s = lit t"
  then have "map (char_of :: nat \<Rightarrow> char) (lit s) = map char_of (lit t)" by simp
  then show "s = t" by (simp add: lit_def comp_def)
qed simp

lemma lit_eq_Nil_iff [simp]: "lit s = [] \<longleftrightarrow> s = []"
  by (simp add: lit_def)

text \<open>A Unicode scalar value: below \<open>0x110000\<close> and not a surrogate.\<close>

definition scalar_value :: "rchar \<Rightarrow> bool" where
  "scalar_value c \<longleftrightarrow> c < 0x110000 \<and> \<not> (0xD800 \<le> c \<and> c \<le> 0xDFFF)"

text \<open>\<open>char::is_whitespace\<close>: Unicode's White\_Space property.\<close>

definition is_whitespace :: "rchar \<Rightarrow> bool" where
  "is_whitespace c \<longleftrightarrow>
     9 \<le> c \<and> c \<le> 13 \<or> c = 32 \<or> c = 0x85 \<or> c = 0xA0 \<or> c = 0x1680 \<or> 0x2000 \<le> c \<and> c \<le> 0x200A \<or>
     c = 0x2028 \<or> c = 0x2029 \<or> c = 0x202F \<or> c = 0x205F \<or> c = 0x3000"

text \<open>\<open>char::len_utf8\<close> and the length in bytes of a string (\<open>str::len\<close>).\<close>

definition len_utf8 :: "rchar \<Rightarrow> nat" where
  "len_utf8 c = (if c < 0x80 then 1 else if c < 0x800 then 2 else if c < 0x10000 then 3 else 4)"

definition utf8_size :: "rstring \<Rightarrow> nat" where
  "utf8_size s = sum_list (map len_utf8 s)"

lemma len_utf8_bounds: "1 \<le> len_utf8 c" "len_utf8 c \<le> 4"
  by (auto simp: len_utf8_def)

lemma utf8_size_Nil [simp]: "utf8_size [] = 0"
  by (simp add: utf8_size_def)

lemma utf8_size_Cons [simp]: "utf8_size (c # s) = len_utf8 c + utf8_size s"
  by (simp add: utf8_size_def)

lemma utf8_size_append [simp]: "utf8_size (s @ t) = utf8_size s + utf8_size t"
  by (induction s) auto

text \<open>Is \<open>p\<close> a prefix of \<open>s\<close> (\<open>str::starts_with\<close> with a string pattern)?\<close>

fun starts_with :: "rstring \<Rightarrow> rstring \<Rightarrow> bool" where
  "starts_with s [] = True"
| "starts_with [] (p # ps) = False"
| "starts_with (c # s) (p # ps) = (c = p \<and> starts_with s ps)"

lemma starts_with_iff: "starts_with s p \<longleftrightarrow> (\<exists>r. s = p @ r)"
  by (induction s p rule: starts_with.induct) auto

text \<open>\<open>str::contains\<close> with a string pattern.\<close>

fun str_contains :: "rstring \<Rightarrow> rstring \<Rightarrow> bool" where
  "str_contains [] pat = (pat = [])"
| "str_contains (c # cs) pat = (starts_with (c # cs) pat \<or> str_contains cs pat)"

section \<open>Formatting of integers\<close>

text \<open>The digits of a number in a base, most significant first (\<open>{}\<close> and \<open>{:x}\<close>).\<close>

definition digit_char :: "nat \<Rightarrow> rchar" where
  "digit_char d = (if d < 10 then 48 + d else 87 + d)"

fun format_base :: "nat \<Rightarrow> nat \<Rightarrow> rstring" where
  "format_base b n =
     (if b < 2 \<or> n < b then [digit_char n] else format_base b (n div b) @ [digit_char (n mod b)])"

declare format_base.simps [simp del]

definition format_dec :: "nat \<Rightarrow> rstring" where
  "format_dec n = format_base 10 n"

definition format_hex :: "nat \<Rightarrow> rstring" where
  "format_hex n = format_base 16 n"

text \<open>\<open>{:0w}\<close>: padded on the left with zeros to at least \<open>w\<close> characters.\<close>

definition pad_zero :: "nat \<Rightarrow> rstring \<Rightarrow> rstring" where
  "pad_zero w s = replicate (w - length s) 48 @ s"

text \<open>Reading digits back, the left inverse of \<open>format_base\<close>.\<close>

definition digit_value :: "rchar \<Rightarrow> nat" where
  "digit_value c = (if c < 58 then c - 48 else c - 87)"

definition parse_base :: "nat \<Rightarrow> rstring \<Rightarrow> nat" where
  "parse_base b s = foldl (\<lambda>n c. n * b + digit_value c) 0 s"

lemma parse_base_snoc: "parse_base b (s @ [c]) = parse_base b s * b + digit_value c"
  by (simp add: parse_base_def)

lemma digit_value_char: "d < 16 \<Longrightarrow> digit_value (digit_char d) = d"
  by (auto simp: digit_value_def digit_char_def)

lemma parse_format_base: "2 \<le> b \<Longrightarrow> b \<le> 16 \<Longrightarrow> parse_base b (format_base b n) = n"
proof (induction b n rule: format_base.induct)
  case (1 b n)
  show ?case
  proof (cases "b < 2 \<or> n < b")
    case True
    with "1.prems" show ?thesis
      by (subst format_base.simps) (simp add: parse_base_def digit_value_char)
  next
    case False
    with "1.prems" have "n mod b < 16" by (auto intro: less_le_trans [of _ b])
    with False "1.IH" "1.prems" show ?thesis
      by (subst format_base.simps) (simp add: parse_base_snoc digit_value_char)
  qed
qed

lemma parse_format_dec [simp]: "parse_base 10 (format_dec n) = n"
  by (simp add: format_dec_def parse_format_base)

lemma parse_format_hex [simp]: "parse_base 16 (format_hex n) = n"
  by (simp add: format_hex_def parse_format_base)

lemma format_base_nonempty [simp]: "format_base b n \<noteq> []"
  by (subst format_base.simps) simp

lemma format_base_digits:
  "2 \<le> b \<Longrightarrow> c \<in> set (format_base b n) \<Longrightarrow> \<exists>d < b. c = digit_char d"
proof (induction b n rule: format_base.induct)
  case (1 b n)
  show ?case
  proof (cases "n < b")
    case True
    with "1.prems" show ?thesis by (subst (asm) format_base.simps) auto
  next
    case False
    with "1.prems" consider "c \<in> set (format_base b (n div b))" | "c = digit_char (n mod b)"
      by (subst (asm) format_base.simps) auto
    then show ?thesis
    proof cases
      case 1
      with "1.IH" "1.prems" False show ?thesis by auto
    next
      case 2
      with "1.prems" show ?thesis by (auto intro!: exI [of _ "n mod b"])
    qed
  qed
qed

lemma format_dec_digits: "c \<in> set (format_dec n) \<Longrightarrow> 48 \<le> c \<and> c \<le> 57"
  by (auto simp: format_dec_def digit_char_def dest!: format_base_digits [rotated])

section \<open>Results and early returns\<close>

text \<open>
  A function of the crate that reads or writes process-global state is a \<open>proc\<close>: from the
  state before to its \<open>Result\<close> (\<open>Inl\<close> the error) and the state after. \<open>and_then\<close> is the
  \<open>?\<close> operator: an error returns at once, with the state as it is then.
\<close>

type_synonym ('s, 'e, 'a) proc = "'s \<Rightarrow> ('e + 'a) \<times> 's"

definition ret :: "'a \<Rightarrow> ('s, 'e, 'a) proc" where
  "ret x s = (Inr x, s)"

definition fail :: "'e \<Rightarrow> ('s, 'e, 'a) proc" where
  "fail e s = (Inl e, s)"

definition and_then :: "('s, 'e, 'a) proc \<Rightarrow> ('a \<Rightarrow> ('s, 'e, 'b) proc) \<Rightarrow> ('s, 'e, 'b) proc" where
  "and_then m f s = (case m s of (Inl e, s') \<Rightarrow> (Inl e, s') | (Inr x, s') \<Rightarrow> f x s')"

text \<open>A pure \<open>Result\<close> inside a proc, a read and an update of the state.\<close>

definition lift_res :: "'e + 'a \<Rightarrow> ('s, 'e, 'a) proc" where
  "lift_res r s = (r, s)"

definition gets :: "('s \<Rightarrow> 'a) \<Rightarrow> ('s, 'e, 'a) proc" where
  "gets f s = (Inr (f s), s)"

definition modify :: "('s \<Rightarrow> 's) \<Rightarrow> ('s, 'e, unit) proc" where
  "modify f s = (Inr (), f s)"

text \<open>\<open>Result::map_err\<close>, on a value and on a proc.\<close>

definition map_err :: "('e \<Rightarrow> 'f) \<Rightarrow> 'e + 'a \<Rightarrow> 'f + 'a" where
  "map_err g r = (case r of Inl e \<Rightarrow> Inl (g e) | Inr x \<Rightarrow> Inr x)"

definition map_err_proc :: "('e \<Rightarrow> 'f) \<Rightarrow> ('s, 'e, 'a) proc \<Rightarrow> ('s, 'f, 'a) proc" where
  "map_err_proc g m s = (case m s of (r, s') \<Rightarrow> (map_err g r, s'))"

text \<open>\<open>Option::ok_or\<close>, \<open>Result::ok\<close> and the \<open>?\<close> operator on plain results.\<close>

definition ok_or :: "'e \<Rightarrow> 'a option \<Rightarrow> 'e + 'a" where
  "ok_or e x = (case x of None \<Rightarrow> Inl e | Some y \<Rightarrow> Inr y)"

definition res_then :: "'e + 'a \<Rightarrow> ('a \<Rightarrow> 'e + 'b) \<Rightarrow> 'e + 'b" where
  "res_then r f = (case r of Inl e \<Rightarrow> Inl e | Inr x \<Rightarrow> f x)"

definition is_ok :: "'e + 'a \<Rightarrow> bool" where
  "is_ok r = (case r of Inl _ \<Rightarrow> False | Inr _ \<Rightarrow> True)"

named_theorems proc_simps \<open>how a proc evaluates\<close>
named_theorems state_defs \<open>the operations on the process-global state\<close>

lemma proc_basic_simps [proc_simps]:
  "ret x s = (Inr x, s)"
  "fail e s = (Inl e, s)"
  "lift_res r s = (r, s)"
  "gets f s = (Inr (f s), s)"
  "modify g s = (Inr (), g s)"
  "and_then m h s = (case m s of (Inl e, s') \<Rightarrow> (Inl e, s') | (Inr x, s') \<Rightarrow> h x s')"
  "map_err_proc j m s = (case m s of (r, s') \<Rightarrow> (map_err j r, s'))"
  by (simp_all add: ret_def fail_def lift_res_def gets_def modify_def and_then_def
      map_err_proc_def)

lemma map_err_simps [simp]:
  "map_err g (Inl e) = Inl (g e)"
  "map_err g (Inr x) = Inr x"
  by (simp_all add: map_err_def)

lemma ok_or_simps [simp]:
  "ok_or e None = Inl e"
  "ok_or e (Some x) = Inr x"
  by (simp_all add: ok_or_def)

lemma res_then_simps [simp]:
  "res_then (Inl e) f = Inl e"
  "res_then (Inr x) f = f x"
  by (simp_all add: res_then_def)

lemma is_ok_simps [simp]:
  "is_ok (Inl e) = False"
  "is_ok (Inr x) = True"
  by (simp_all add: is_ok_def)

lemma and_then_ret [simp]: "and_then (ret x) f = f x"
  by (simp add: and_then_def ret_def fun_eq_iff)

lemma and_then_fail [simp]: "and_then (fail e) f = fail e"
  by (simp add: and_then_def fail_def fun_eq_iff)

lemma and_then_assoc: "and_then (and_then m f) g = and_then m (\<lambda>x. and_then (f x) g)"
  by (auto simp: and_then_def fun_eq_iff split: prod.splits sum.splits)

lemma and_then_OkE:
  assumes "and_then m f s = (Inr y, t)"
  obtains x s' where "m s = (Inr x, s')" "f x s' = (Inr y, t)"
  using assms by (auto simp: and_then_def split: prod.splits sum.splits)

lemma and_then_ErrE:
  assumes "and_then m f s = (Inl e, t)"
  obtains (here) "m s = (Inl e, t)"
    | (later) x s' where "m s = (Inr x, s')" "f x s' = (Inl e, t)"
  using assms by (auto simp: and_then_def split: prod.splits sum.splits)

lemma map_err_eq_InrE: "map_err g r = Inr x \<Longrightarrow> r = Inr x"
  by (cases r) auto

lemma ok_or_eq_Inr [simp]: "ok_or e x = Inr y \<longleftrightarrow> x = Some y"
  by (cases x) auto

lemma map_err_proc_Ok: "map_err_proc g m s = (Inr x, t) \<longleftrightarrow> m s = (Inr x, t)"
  by (auto simp: map_err_proc_def map_err_def split: prod.splits sum.splits)

text \<open>
  A proc keeps a property of the state when every run of it does, whatever it returns;
  the property goes through sequencing. This is how an invariant is carried along a
  whole function.
\<close>

definition keeps :: "('s \<Rightarrow> bool) \<Rightarrow> ('s, 'e, 'a) proc \<Rightarrow> bool" where
  "keeps P m \<longleftrightarrow> (\<forall>s. P s \<longrightarrow> P (snd (m s)))"

lemma keepsI: "(\<And>s r t. P s \<Longrightarrow> m s = (r, t) \<Longrightarrow> P t) \<Longrightarrow> keeps P m"
  unfolding keeps_def by (metis prod.collapse)

lemma keepsD: "keeps P m \<Longrightarrow> P s \<Longrightarrow> m s = (r, t) \<Longrightarrow> P t"
  by (auto simp: keeps_def dest: spec [of _ s])

named_theorems keeps_intros \<open>sequencing rules for \<open>keeps\<close>\<close>

lemma keeps_ret [keeps_intros]: "keeps P (ret x)"
  by (simp add: keeps_def ret_def)

lemma keeps_fail [keeps_intros]: "keeps P (fail e)"
  by (simp add: keeps_def fail_def)

lemma keeps_lift_res [keeps_intros]: "keeps P (lift_res r)"
  by (simp add: keeps_def lift_res_def)

lemma keeps_gets [keeps_intros]: "keeps P (gets f)"
  by (simp add: keeps_def gets_def)

lemma keeps_and_then [keeps_intros]:
  assumes "keeps P m" and "\<And>x. keeps P (f x)"
  shows "keeps P (and_then m f)"
proof (rule keepsI)
  fix s r t
  assume P: "P s" and run: "and_then m f s = (r, t)"
  show "P t"
  proof (cases r)
    case (Inl e)
    with run have "and_then m f s = (Inl e, t)" by simp
    then show ?thesis
      by (rule and_then_ErrE) (use assms P in \<open>blast dest: keepsD\<close>)+
  next
    case (Inr y)
    with run have "and_then m f s = (Inr y, t)" by simp
    then show ?thesis
      by (rule and_then_OkE) (use assms P in \<open>blast dest: keepsD\<close>)
  qed
qed

lemma keeps_if [keeps_intros]:
  "(b \<Longrightarrow> keeps P m) \<Longrightarrow> (\<not> b \<Longrightarrow> keeps P n) \<Longrightarrow> keeps P (if b then m else n)"
  by simp

lemma keeps_case_option [keeps_intros]:
  "(x = None \<Longrightarrow> keeps P m) \<Longrightarrow> (\<And>y. x = Some y \<Longrightarrow> keeps P (n y)) \<Longrightarrow>
    keeps P (case x of None \<Rightarrow> m | Some y \<Rightarrow> n y)"
  by (cases x) auto

lemma keeps_map_err_proc [keeps_intros]: "keeps P m \<Longrightarrow> keeps P (map_err_proc g m)"
  by (auto simp: keeps_def map_err_proc_def split: prod.splits)

section \<open>Finite maps\<close>

lemma fmdrop_eq_fmempty_iff: "fmdrop k m = fmempty \<longleftrightarrow> fset (fmdom m) \<subseteq> {k}"
proof -
  have "fmdrop k m = fmempty \<longleftrightarrow> (\<forall>x. fmlookup (fmdrop k m) x = None)"
    by (metis fmap_ext fmempty_lookup)
  also have "\<dots> \<longleftrightarrow> (\<forall>x. x \<noteq> k \<longrightarrow> fmlookup m x = None)"
    by auto
  also have "\<dots> \<longleftrightarrow> fset (fmdom m) \<subseteq> {k}"
    by (auto simp: fmlookup_dom_iff)
  finally show ?thesis .
qed

lemma fmlookup_Some_nonempty: "fmlookup m k = Some v \<Longrightarrow> m \<noteq> fmempty"
  by auto

lemma fmdrop_empty_lookup: "fmdrop k m = fmempty \<Longrightarrow> x \<noteq> k \<Longrightarrow> fmlookup m x = None"
  by (metis fmdrop_lookup fmempty_lookup fmlookup_drop)

lemma fmdrop_absent: "fmlookup m k = None \<Longrightarrow> fmdrop k m = m"
  by (auto intro: fmap_ext)

section \<open>Runs of a step relation\<close>

text \<open>
  \<open>steps R n s t\<close>: \<open>n\<close> steps of \<open>R\<close> lead from \<open>s\<close> to \<open>t\<close>. The counters of the program wrap
  at \<open>2 ^ 64\<close>, so what holds because a counter value is fresh holds for runs shorter than
  that: an invariant may mention the number of steps made.
\<close>

inductive steps :: "('s \<Rightarrow> 's \<Rightarrow> bool) \<Rightarrow> nat \<Rightarrow> 's \<Rightarrow> 's \<Rightarrow> bool" for R where
  steps_0: "steps R 0 s s"
| steps_Suc: "steps R n s t \<Longrightarrow> R t u \<Longrightarrow> steps R (Suc n) s u"

inductive_cases steps_0E: "steps R 0 s t"
inductive_cases steps_SucE: "steps R (Suc n) s t"

lemma steps_1: "R s t \<Longrightarrow> steps R 1 s t"
  using steps_Suc [OF steps_0] by fastforce

lemma steps_trans: "steps R m t u \<Longrightarrow> steps R n s t \<Longrightarrow> steps R (n + m) s u"
  by (induction rule: steps.induct) (auto intro: steps_Suc steps.intros)

locale bounded_invariant =
  fixes R :: "'s \<Rightarrow> 's \<Rightarrow> bool" and I :: "nat \<Rightarrow> 's \<Rightarrow> bool" and cap :: nat
  assumes preserved: "Suc n < cap \<Longrightarrow> I n s \<Longrightarrow> R s t \<Longrightarrow> I (Suc n) t"
begin

lemma along_run: "steps R n s t \<Longrightarrow> I m s \<Longrightarrow> m + n < cap \<Longrightarrow> I (m + n) t"
proof (induction rule: steps.induct)
  case (steps_0 s)
  then show ?case by simp
next
  case (steps_Suc n s t u)
  then have "I (m + n) t" by simp
  with steps_Suc show ?case using preserved [of "m + n" t u] by simp
qed

lemma from_start: "steps R n s t \<Longrightarrow> I 0 s \<Longrightarrow> n < cap \<Longrightarrow> I n t"
  using along_run [of n s t 0] by simp

end

end
