(* ===== verification/Wallet_Error.thy ===== *)
theory Wallet_Error
  imports Prelude
begin

text \<open>
  The crate's error type (\<open>src/api/error.rs\<close>) and what Dart sees of an error: the
  \<open>Display\<close> text of the \<open>anyhow::Error\<close> it was converted to. Errors of the libraries
  the crate calls are values of \<open>wallet_db_error\<close> and \<open>signing_error\<close>: the variant the
  crate matches on, with the library's own text.
\<close>

section \<open>The error enum and its messages\<close>

datatype wallet_error =
    NotInitialized
  | NoAccounts
  | InvalidNetwork rstring
  | InvalidAddress rstring
  | InvalidSeedWords rstring
  | InvalidPassphrase
  | Wallet rstring
  | Signing rstring
  | Network_Error rstring
  | Database rstring
  | Aborted
  | Scan rstring
  | Internal rstring
  | Locked
  | SameName
  | ForegroundScanActive

text \<open>\<open>Display\<close>, from the \<open>#[error(...)]\<close> attributes.\<close>

fun display :: "wallet_error \<Rightarrow> rstring" where
  "display NotInitialized = lit ''Database is not initialized''"
| "display NoAccounts = lit ''No accounts found for this wallet''"
| "display (InvalidNetwork v) = lit ''Invalid network option: '' @ v"
| "display (InvalidAddress d) = lit ''Invalid Recipient Address: '' @ d"
| "display (InvalidSeedWords d) = lit ''Invalid Seed Words: '' @ d"
| "display InvalidPassphrase = lit ''Invalid Passphrase''"
| "display (Wallet d) = lit ''Wallet Error: '' @ d"
| "display (Signing d) = lit ''Signing Error: '' @ d"
| "display (Network_Error d) = lit ''Network Error: '' @ d"
| "display (Database d) = lit ''Database Error: '' @ d"
| "display Aborted = lit ''Aborted by User''"
| "display (Scan d) = lit ''Sink error: '' @ d"
| "display (Internal d) = d"
| "display Locked = lit ''Wallet is locked''"
| "display SameName = lit ''The new wallet name is the same as the current one''"
| "display ForegroundScanActive = lit ''A foreground scan of this wallet is already running''"

text \<open>The convenience constructors.\<close>

definition invalid_address :: "rstring \<Rightarrow> wallet_error" where
  "invalid_address details = InvalidAddress details"

definition invalid_seed_words :: "rstring \<Rightarrow> wallet_error" where
  "invalid_seed_words details = InvalidSeedWords details"

definition wallet :: "rstring \<Rightarrow> wallet_error" where
  "wallet details = Wallet details"

definition signing :: "rstring \<Rightarrow> wallet_error" where
  "signing details = Signing details"

definition network :: "rstring \<Rightarrow> wallet_error" where
  "network details = Network_Error details"

definition database :: "rstring \<Rightarrow> wallet_error" where
  "database details = Database details"

definition internal :: "rstring \<Rightarrow> wallet_error" where
  "internal details = Internal details"

definition scan_error :: "rstring \<Rightarrow> wallet_error" where
  "scan_error details = Scan details"

lemmas error_constructors [simp] =
  invalid_address_def invalid_seed_words_def wallet_def signing_def network_def
  database_def internal_def scan_error_def

section \<open>The boundary error\<close>

text \<open>
  An \<open>anyhow::Error\<close>: a \<open>WalletError\<close> converted by \<open>?\<close> or \<open>into\<close>, a library's error
  (\<open>Upstream\<close>, with its text), an \<open>anyhow!\<close> message, or an error with a \<open>context\<close> put in
  front. Its \<open>Display\<close> is that of the outermost layer.
\<close>

datatype api_error =
    Wallet_Err wallet_error
  | Upstream rstring
  | Anyhow rstring
  | Context rstring api_error

fun to_string :: "api_error \<Rightarrow> rstring" where
  "to_string (Wallet_Err e) = display e"
| "to_string (Upstream m) = m"
| "to_string (Anyhow m) = m"
| "to_string (Context c e) = c"

text \<open>A fallible function of the api layer, over the process-global state.\<close>

type_synonym ('s, 'a) api = "('s, api_error, 'a) proc"

definition err :: "wallet_error \<Rightarrow> ('s, 'a) api" where
  "err e = fail (Wallet_Err e)"

lemma err_eval [proc_simps]: "err e s = (Inl (Wallet_Err e), s)"
  by (simp add: err_def proc_simps)

lemma and_then_err [simp]: "and_then (err e) f = err e"
  by (simp add: err_def)

lemma keeps_err [keeps_intros]: "keeps P (err e)"
  by (simp add: err_def keeps_intros)

section \<open>Library errors the crate matches on\<close>

text \<open>
  minotari's \<open>WalletDbError\<close>: the variants the crate tells apart, every other one as
  \<open>DbOther\<close>; \<open>db_text\<close> is its own \<open>to_string\<close>.
\<close>

datatype db_error_kind =
    DbInvalidPassphrase
  | DbDecryptionFailed
  | DbInvalidInput
  | DbNotUnlocked
  | DbOther

record wallet_db_error =
  db_kind :: db_error_kind
  db_text :: rstring

end
