(* ===== verification/Globals.thy ===== *)
theory Globals
  imports Wallet_Error
begin

text \<open>
  The process-global state of the bridge (every \<open>static\<close> of \<open>src/api/db.rs\<close> and
  \<open>src/api/scanner.rs\<close>), the interface of the minotari library it sits on, and what an
  \<open>.await\<close> is. The operations on the state are in \<open>Scan_State\<close> and \<open>Db\<close>.
\<close>

section \<open>What minotari provides\<close>

text \<open>
  minotari is not part of this repository: its functions are the fields of this record,
  an argument of every definition that calls one. \<open>'w\<close> is everything minotari keeps (the
  database files and the in-memory key sessions), \<open>'p\<close> a connection pool, \<open>'c\<close> a pooled
  connection, \<open>'a\<close> an account row.
\<close>

record ('w, 'p, 'c, 'a) minotari =
  init_db :: "rstring \<Rightarrow> 'w \<Rightarrow> (rstring + 'p) \<times> 'w"
  pool_get :: "'p \<Rightarrow> 'w \<Rightarrow> rstring + 'c"
  session_is_unlocked :: "'c \<Rightarrow> rstring \<Rightarrow> 'w \<Rightarrow> wallet_db_error + bool"
  session_unlock :: "'c \<Rightarrow> rstring \<Rightarrow> rstring \<Rightarrow> 'w \<Rightarrow> (wallet_db_error + unit) \<times> 'w"
  session_lock :: "rstring \<Rightarrow> 'w \<Rightarrow> 'w"
  get_account_by_name :: "'c \<Rightarrow> rstring \<Rightarrow> 'w \<Rightarrow> wallet_db_error + 'a option"
  verify_passphrase :: "'a \<Rightarrow> rstring \<Rightarrow> wallet_db_error + unit"
  find_expired_pending_transactions :: "'c \<Rightarrow> 'w \<Rightarrow> rstring + rstring list"
  expire_and_unlock_pending_transaction :: "'c \<Rightarrow> rstring \<Rightarrow> 'w \<Rightarrow> (rstring + bool) \<times> 'w"
  wal_checkpoint_truncate :: "'c \<Rightarrow> 'w \<Rightarrow> (rstring + i64) \<times> 'w"

section \<open>The database state\<close>

record 'p Database =
  db_pool :: 'p
  db_file :: rstring

record Session =
  sess_count :: u32
  sess_generation :: u64

record 'p DbState =
  db_path :: "rstring option"
  db_open :: "'p Database option"
  db_sessions :: "(rstring, Session) fmap"
  next_generation :: u64

section \<open>The scan state\<close>

text \<open>
  One scan run creates one cancellation token, one superseded flag and one stopped
  token, which the wallet's slot and the run share. Each is a cell that can only be set;
  a cell is named by the run that created it.
\<close>

datatype cell = Token nat | Superseded_Flag nat | Stopped_Token nat

datatype ScanPriority = Foreground | Background

record ScanHandle =
  handle_wallet :: rstring
  handle_id :: u64

record ScanController =
  ctl_id :: u64
  ctl_priority :: ScanPriority
  ctl_token :: cell
  ctl_superseded :: cell
  ctl_stopped :: cell

record ScanState =
  issued :: "u64 set"
  stopped_before_start :: "u64 set"
  starting :: "(u64, rstring) fmap"
  running :: "(rstring, ScanController) fmap"

section \<open>All of it\<close>

text \<open>
  \<open>db_poisoned\<close>, \<open>scan_poisoned\<close> and \<open>maint_poisoned\<close> say that a thread panicked while
  holding the lock, after which \<open>write\<close>, \<open>read\<close> and \<open>lock\<close> return errors. \<open>cells\<close> are the
  cells set so far, \<open>maint_held\<close> the wallets whose maintenance lock is held and \<open>next_run\<close>
  the name of the next scan run's cells.
\<close>

record ('w, 'p) bridge =
  DB_STATE :: "'p DbState"
  db_poisoned :: bool
  SCAN_STATE :: ScanState
  scan_poisoned :: bool
  SCAN_ID :: u64
  MAINT_HELD :: "rstring set"
  maint_poisoned :: bool
  cells :: "cell set"
  next_run :: nat
  world :: 'w

type_synonym ('w, 'p, 'r) bridge_api = "(('w, 'p) bridge, 'r) api"

definition init_DbState :: "'p DbState" where
  "init_DbState =
     \<lparr>db_path = None, db_open = None, db_sessions = fmempty, next_generation = 0\<rparr>"

definition init_ScanState :: ScanState where
  "init_ScanState =
     \<lparr>issued = {}, stopped_before_start = {}, starting = fmempty, running = fmempty\<rparr>"

definition init_bridge :: "'w \<Rightarrow> ('w, 'p) bridge" where
  "init_bridge w =
     \<lparr>DB_STATE = init_DbState, db_poisoned = False, SCAN_STATE = init_ScanState,
      scan_poisoned = False, SCAN_ID = 0, MAINT_HELD = {}, maint_poisoned = False,
      cells = {}, next_run = 0, world = w\<rparr>"

text \<open>Setting a cell: \<open>CancellationToken::cancel\<close> and \<open>AtomicBool::store(true)\<close>.\<close>

definition set_cell :: "cell \<Rightarrow> ('w, 'p) bridge \<Rightarrow> ('w, 'p) bridge" where
  "set_cell c s = s\<lparr>cells := insert c (cells s)\<rparr>"

definition is_set :: "cell \<Rightarrow> ('w, 'p) bridge \<Rightarrow> bool" where
  "is_set c s \<longleftrightarrow> c \<in> cells s"

text \<open>Running a minotari call that changes what minotari keeps.\<close>

definition on_world :: "('w \<Rightarrow> 'r \<times> 'w) \<Rightarrow> ('w, 'p) bridge \<Rightarrow> 'r \<times> ('w, 'p) bridge" where
  "on_world f s = (case f (world s) of (r, w) \<Rightarrow> (r, s\<lparr>world := w\<rparr>))"

section \<open>Awaits\<close>

text \<open>
  While a function awaits (or blocks on a lock), other tasks run and change the state. A
  sequential definition takes what they do as its environment: for each await point,
  \<open>env_run\<close> leads from the state at the await to the state in which it returns, and
  \<open>join_error\<close> says whether awaiting a spawned task fails (its \<open>JoinError\<close>'s text), in which
  case the model's task did nothing. Nothing is assumed of an environment unless a lemma
  says so.
\<close>

datatype await_point =
    Await_Cell cell
  | Await_Maintenance rstring
  | Await_Gate rstring
  | Await_Blocking
  | Await_Scanner
  | Await_Node

record ('w, 'p) environment =
  env_run :: "await_point \<Rightarrow> ('w, 'p) bridge \<Rightarrow> ('w, 'p) bridge"
  join_error :: "('w, 'p) bridge \<Rightarrow> rstring option"

definition await :: "('w, 'p) environment \<Rightarrow> await_point \<Rightarrow> ('w, 'p, unit) bridge_api" where
  "await env p = modify (env_run env p)"

text \<open>An environment in which nothing else runs and no task is lost.\<close>

definition alone :: "('w, 'p) environment" where
  "alone = \<lparr>env_run = (\<lambda>_ s. s), join_error = (\<lambda>_. None)\<rparr>"

text \<open>An environment whose tasks keep a property of the state.\<close>

definition env_keeps :: "(('w, 'p) bridge \<Rightarrow> bool) \<Rightarrow> ('w, 'p) environment \<Rightarrow> bool" where
  "env_keeps P env \<longleftrightarrow> (\<forall>p s. P s \<longrightarrow> P (env_run env p s))"

lemma await_eval [proc_simps]: "await env p s = (Inr (), env_run env p s)"
  by (simp add: await_def proc_simps)

lemma keeps_await [keeps_intros]: "env_keeps P env \<Longrightarrow> keeps P (await env p)"
  by (simp add: keeps_def env_keeps_def proc_simps)

lemma alone_simps [simp]: "env_run alone p s = s" "join_error alone s = None"
  by (simp_all add: alone_def)

lemma env_keeps_alone [simp]: "env_keeps P alone"
  by (simp add: env_keeps_def)

lemma cells_set_cell [simp]: "cells (set_cell c s) = insert c (cells s)"
  by (simp add: set_cell_def)

lemma set_cell_frame [simp]:
  "DB_STATE (set_cell c s) = DB_STATE s"
  "SCAN_STATE (set_cell c s) = SCAN_STATE s"
  "world (set_cell c s) = world s"
  "db_poisoned (set_cell c s) = db_poisoned s"
  "scan_poisoned (set_cell c s) = scan_poisoned s"
  "SCAN_ID (set_cell c s) = SCAN_ID s"
  "MAINT_HELD (set_cell c s) = MAINT_HELD s"
  "maint_poisoned (set_cell c s) = maint_poisoned s"
  "next_run (set_cell c s) = next_run s"
  by (simp_all add: set_cell_def)

lemma on_world_frame:
  assumes "on_world f s = (r, t)"
  shows "t = s\<lparr>world := snd (f (world s))\<rparr>" "r = fst (f (world s))"
  using assms by (auto simp: on_world_def split: prod.splits)

end
