(* ===== verification/Scan_State.thy ===== *)
theory Scan_State
  imports Globals
begin

text \<open>
  The scan slots and handles of \<open>src/api/scanner.rs\<close>: every operation on \<open>SCAN_STATE\<close> and
  \<open>MAINTENANCE\<close>, each as the code runs it under one guard. What a scan does between these
  operations is in \<open>Scanner\<close>; how many scans interleave is in \<open>Scan_Interleaving\<close>.
\<close>

section \<open>Guards\<close>

text \<open>\<open>write_state\<close>: an error when the lock is poisoned.\<close>

definition write_scan_state :: "('w, 'p, unit) bridge_api" where
  "write_scan_state s =
     (if scan_poisoned s then err (internal (lit ''Failed to acquire lock'')) s else ret () s)"

definition upd_scan :: "(ScanState \<Rightarrow> ScanState) \<Rightarrow> ('w, 'p) bridge \<Rightarrow> ('w, 'p) bridge" where
  "upd_scan f s = s\<lparr>SCAN_STATE := f (SCAN_STATE s)\<rparr>"

text \<open>
  \<open>maintenance_lock\<close> finds the wallet's lock, \<open>begin_maintenance\<close> waits for it and holds it;
  dropping the guard releases it.
\<close>

definition maintenance_lock :: "rstring \<Rightarrow> ('w, 'p, rstring) bridge_api" where
  "maintenance_lock wallet_name s =
     (if maint_poisoned s then err (internal (lit ''Failed to lock MAINTENANCE'')) s
      else ret wallet_name s)"

definition begin_maintenance ::
  "('w, 'p) environment \<Rightarrow> rstring \<Rightarrow> ('w, 'p, rstring) bridge_api" where
  "begin_maintenance env wallet_name =
     and_then (maintenance_lock wallet_name) (\<lambda>lock.
     and_then (await env (Await_Maintenance lock)) (\<lambda>_.
     and_then (modify (\<lambda>s. s\<lparr>MAINT_HELD := insert lock (MAINT_HELD s)\<rparr>)) (\<lambda>_.
     ret lock)))"

definition end_maintenance :: "rstring \<Rightarrow> ('w, 'p) bridge \<Rightarrow> ('w, 'p) bridge" where
  "end_maintenance lock s = s\<lparr>MAINT_HELD := MAINT_HELD s - {lock}\<rparr>"

text \<open>
  A maintenance guard is released when it goes out of scope, on every path out of the
  function; \<open>with_maintenance\<close> is that scope.
\<close>

definition with_maintenance ::
  "('w, 'p) environment \<Rightarrow> rstring \<Rightarrow> ('w, 'p, 'r) bridge_api \<Rightarrow> ('w, 'p, 'r) bridge_api" where
  "with_maintenance env wallet_name body =
     and_then (begin_maintenance env wallet_name) (\<lambda>lock s.
       case body s of (r, s') \<Rightarrow> (r, end_maintenance lock s'))"

section \<open>Handles\<close>

definition create_scan_handle :: "rstring \<Rightarrow> ('w, 'p, ScanHandle) bridge_api" where
  "create_scan_handle wallet_name =
     and_then (gets SCAN_ID) (\<lambda>id.
     and_then (modify (\<lambda>s. s\<lparr>SCAN_ID := id + 1\<rparr>)) (\<lambda>_.
     and_then write_scan_state (\<lambda>_.
     and_then (modify (upd_scan (\<lambda>st. st\<lparr>issued := insert id (issued st)\<rparr>))) (\<lambda>_.
     ret \<lparr>handle_wallet = wallet_name, handle_id = id\<rparr>))))"

text \<open>
  \<open>stop_scan\<close> up to its await: the stopped token to wait for, if the handle's scan is in
  its wallet's slot.
\<close>

definition stop_scan_begin :: "ScanHandle \<Rightarrow> ('w, 'p, cell option) bridge_api" where
  "stop_scan_begin handle =
     and_then write_scan_state (\<lambda>_ s.
       let st = SCAN_STATE s in
       if handle_id handle \<in> issued st then
         ret None (upd_scan (\<lambda>st. st\<lparr>issued := issued st - {handle_id handle},
           stopped_before_start := insert (handle_id handle) (stopped_before_start st)\<rparr>) s)
       else if fmlookup (starting st) (handle_id handle) \<noteq> None then
         ret None (upd_scan (\<lambda>st. st\<lparr>starting := fmdrop (handle_id handle) (starting st)\<rparr>) s)
       else (case fmlookup (running st) (handle_wallet handle) of
           Some controller \<Rightarrow>
             if ctl_id controller = handle_id handle
             then ret (Some (ctl_stopped controller)) (set_cell (ctl_token controller) s)
             else ret None s
         | None \<Rightarrow> ret None s))"

definition stop_scan :: "('w, 'p) environment \<Rightarrow> ScanHandle \<Rightarrow> ('w, 'p, unit) bridge_api" where
  "stop_scan env handle =
     and_then (stop_scan_begin handle) (\<lambda>stopped.
       case stopped of None \<Rightarrow> ret () | Some c \<Rightarrow> await env (Await_Cell c))"

section \<open>Stopping a wallet's scans\<close>

definition cancel_wallet_scans :: "rstring \<Rightarrow> ('w, 'p, cell option) bridge_api" where
  "cancel_wallet_scans wallet_name =
     and_then write_scan_state (\<lambda>_ s.
       let s = upd_scan (\<lambda>st. st\<lparr>starting :=
                 fmfilter (\<lambda>id. fmlookup (starting st) id \<noteq> Some wallet_name) (starting st)\<rparr>) s
       in (case fmlookup (running (SCAN_STATE s)) wallet_name of
           None \<Rightarrow> ret None s
         | Some controller \<Rightarrow>
             ret (Some (ctl_stopped controller)) (set_cell (ctl_token controller) s)))"

definition stop_wallet_scans ::
  "('w, 'p) environment \<Rightarrow> rstring \<Rightarrow> ('w, 'p, unit) bridge_api" where
  "stop_wallet_scans env wallet_name =
     and_then (cancel_wallet_scans wallet_name) (\<lambda>stopped.
       case stopped of None \<Rightarrow> ret () | Some c \<Rightarrow> await env (Await_Cell c))"

section \<open>The slot of a wallet\<close>

text \<open>The first section of \<open>claim_and_scan\<close>: \<open>True\<close> when the handle was stopped before.\<close>

definition claim_handle :: "ScanHandle \<Rightarrow> ('w, 'p, bool) bridge_api" where
  "claim_handle handle =
     and_then write_scan_state (\<lambda>_ s.
       let st = SCAN_STATE s in
       if handle_id handle \<in> stopped_before_start st then
         ret True (upd_scan (\<lambda>st. st\<lparr>stopped_before_start :=
           stopped_before_start st - {handle_id handle}\<rparr>) s)
       else if handle_id handle \<notin> issued st then
         err (wallet (lit ''This scan handle was already used'')) s
       else
         ret False (upd_scan (\<lambda>st. st\<lparr>issued := issued st - {handle_id handle},
           starting := fmupd (handle_id handle) (handle_wallet handle) (starting st)\<rparr>) s))"

text \<open>Whether a scan in the slot refuses a new one by the priority rules.\<close>

definition slot_refuses :: "ScanController \<Rightarrow> ScanController \<Rightarrow> ('w, 'p) bridge \<Rightarrow> bool" where
  "slot_refuses current controller s \<longleftrightarrow>
     ctl_priority current = Foreground \<and> ctl_priority controller = Background \<and>
     \<not> is_set (ctl_token current) s \<and> \<not> is_set (ctl_stopped current) s"

definition take_slot :: "rstring \<Rightarrow> ScanController \<Rightarrow> ('w, 'p, ScanController option) bridge_api" where
  "take_slot wallet_name controller s =
     (let current = fmlookup (running (SCAN_STATE s)) wallet_name;
          s' = upd_scan (\<lambda>st. st\<lparr>running := fmupd wallet_name controller (running st)\<rparr>) s
      in case current of
          None \<Rightarrow> ret None s'
        | Some previous \<Rightarrow>
            if slot_refuses previous controller s then err ForegroundScanActive s
            else ret (Some previous)
              (set_cell (ctl_token previous)
                (if is_set (ctl_token previous) s' then s'
                 else set_cell (ctl_superseded previous) s')))"

text \<open>
  The section of \<open>scan\<close> that moves a starting scan into its slot: \<open>None\<close> when a stop
  removed it from \<open>starting\<close> meanwhile, else the scan it replaced, if any.
\<close>

definition enter_slot ::
  "u64 \<Rightarrow> rstring \<Rightarrow> ScanController \<Rightarrow> ('w, 'p, ScanController option option) bridge_api" where
  "enter_slot sid wallet_name controller =
     and_then write_scan_state (\<lambda>_ s.
       if fmlookup (starting (SCAN_STATE s)) sid = None then ret None s
       else and_then (take_slot wallet_name controller) (\<lambda>previous. ret (Some previous))
              (upd_scan (\<lambda>st. st\<lparr>starting := fmdrop sid (starting st)\<rparr>) s))"

definition clear_scan_if_current :: "rstring \<Rightarrow> u64 \<Rightarrow> ('w, 'p) bridge \<Rightarrow> ('w, 'p) bridge" where
  "clear_scan_if_current wallet_name sid s =
     (if scan_poisoned s then s
      else (case fmlookup (running (SCAN_STATE s)) wallet_name of
          Some c \<Rightarrow>
            if ctl_id c = sid
            then upd_scan (\<lambda>st. st\<lparr>running := fmdrop wallet_name (running st)\<rparr>) s else s
        | None \<Rightarrow> s))"

text \<open>The last section of \<open>claim_and_scan\<close>: the scan is not starting any more.\<close>

definition leave_starting :: "u64 \<Rightarrow> ('w, 'p) bridge \<Rightarrow> ('w, 'p) bridge" where
  "leave_starting sid s =
     (if scan_poisoned s then s
      else upd_scan (\<lambda>st. st\<lparr>starting := fmdrop sid (starting st)\<rparr>) s)"

section \<open>How the operations evaluate\<close>

lemma write_scan_state_eval [proc_simps]:
  "write_scan_state s =
     (if scan_poisoned s then (Inl (Wallet_Err (Internal (lit ''Failed to acquire lock''))), s)
      else (Inr (), s))"
  by (simp add: write_scan_state_def proc_simps)

lemma upd_scan_frame [simp]:
  "SCAN_STATE (upd_scan f s) = f (SCAN_STATE s)"
  "DB_STATE (upd_scan f s) = DB_STATE s"
  "db_poisoned (upd_scan f s) = db_poisoned s"
  "scan_poisoned (upd_scan f s) = scan_poisoned s"
  "SCAN_ID (upd_scan f s) = SCAN_ID s"
  "MAINT_HELD (upd_scan f s) = MAINT_HELD s"
  "maint_poisoned (upd_scan f s) = maint_poisoned s"
  "cells (upd_scan f s) = cells s"
  "next_run (upd_scan f s) = next_run s"
  "world (upd_scan f s) = world s"
  by (simp_all add: upd_scan_def)

lemmas scan_sections =
  create_scan_handle_def stop_scan_begin_def cancel_wallet_scans_def claim_handle_def
  take_slot_def enter_slot_def clear_scan_if_current_def leave_starting_def

lemmas scan_splits = option.splits prod.splits sum.splits if_splits

section \<open>The priority rules of a slot\<close>

lemma take_slot_refused:
  assumes "fmlookup (running (SCAN_STATE s)) w = Some current" "slot_refuses current c s"
  shows "take_slot w c s = (Inl (Wallet_Err ForegroundScanActive), s)"
  using assms by (simp add: take_slot_def proc_simps)

lemma take_slot_OkE:
  assumes "take_slot w c s = (Inr prev, t)"
  obtains (free) "prev = None" "fmlookup (running (SCAN_STATE s)) w = None" "cells t = cells s"
      "SCAN_STATE t = (SCAN_STATE s)\<lparr>running := fmupd w c (running (SCAN_STATE s))\<rparr>"
    | (replaced) old where "prev = Some old" "fmlookup (running (SCAN_STATE s)) w = Some old"
      "\<not> slot_refuses old c s"
      "cells t = insert (ctl_token old)
         (if ctl_token old \<in> cells s then cells s else insert (ctl_superseded old) (cells s))"
      "SCAN_STATE t = (SCAN_STATE s)\<lparr>running := fmupd w c (running (SCAN_STATE s))\<rparr>"
proof (cases "fmlookup (running (SCAN_STATE s)) w")
  case None
  with assms show ?thesis by (auto intro: free simp: take_slot_def proc_simps)
next
  case (Some old)
  with assms have "\<not> slot_refuses old c s" "prev = Some old"
    by (auto simp: take_slot_def proc_simps Let_def split: if_splits)
  with Some assms show ?thesis
    by (intro replaced [of old]) (auto simp: take_slot_def proc_simps Let_def is_set_def)
qed

lemma take_slot_frame:
  assumes "take_slot w c s = (r, t)"
  shows "world t = world s" "DB_STATE t = DB_STATE s" "MAINT_HELD t = MAINT_HELD s"
    "SCAN_ID t = SCAN_ID s" "scan_poisoned t = scan_poisoned s" "db_poisoned t = db_poisoned s"
    "maint_poisoned t = maint_poisoned s"
  using assms by (auto simp: take_slot_def proc_simps Let_def split: scan_splits)

text \<open>
  Only the database is told from the scan state here: no operation of this theory touches
  what \<open>Db\<close> keeps.
\<close>

lemma scan_sections_frame:
  "create_scan_handle w s = (rh, t) \<Longrightarrow> world t = world s \<and> DB_STATE t = DB_STATE s"
  "stop_scan_begin h s = (rc, t) \<Longrightarrow> world t = world s \<and> DB_STATE t = DB_STATE s"
  "cancel_wallet_scans w s = (rc, t) \<Longrightarrow> world t = world s \<and> DB_STATE t = DB_STATE s"
  "claim_handle h s = (rb, t) \<Longrightarrow> world t = world s \<and> DB_STATE t = DB_STATE s"
  by (auto simp: scan_sections proc_simps Let_def split: scan_splits)

lemma cancel_wallet_scans_eval:
  assumes "\<not> scan_poisoned s"
  shows "\<exists>t. cancel_wallet_scans w s =
      (Inr (map_option ctl_stopped (fmlookup (running (SCAN_STATE s)) w)), t) \<and>
    cells t = cells s \<union> ctl_token ` {c. fmlookup (running (SCAN_STATE s)) w = Some c} \<and>
    running (SCAN_STATE t) = running (SCAN_STATE s) \<and>
    (\<forall>i. fmlookup (starting (SCAN_STATE t)) i =
       (if fmlookup (starting (SCAN_STATE s)) i = Some w then None
        else fmlookup (starting (SCAN_STATE s)) i)) \<and>
    issued (SCAN_STATE t) = issued (SCAN_STATE s) \<and>
    stopped_before_start (SCAN_STATE t) = stopped_before_start (SCAN_STATE s) \<and>
    world t = world s \<and> DB_STATE t = DB_STATE s \<and> scan_poisoned t = scan_poisoned s \<and>
    db_poisoned t = db_poisoned s \<and> MAINT_HELD t = MAINT_HELD s \<and> SCAN_ID t = SCAN_ID s \<and>
    maint_poisoned t = maint_poisoned s"
  using assms
  by (cases "fmlookup (running (SCAN_STATE s)) w")
     (auto simp: cancel_wallet_scans_def proc_simps Let_def)

section \<open>The life of a handle\<close>

text \<open>
  Every section run on the scan state, by any caller in any order; \<open>poison\<close> is a thread
  that panics while it holds the guard.
\<close>

inductive scan_section :: "('w, 'p) bridge \<Rightarrow> ('w, 'p) bridge \<Rightarrow> bool" where
  sec_create: "create_scan_handle w s = (rh, t) \<Longrightarrow> scan_section s t"
| sec_stop: "stop_scan_begin h s = (rc, t) \<Longrightarrow> scan_section s t"
| sec_cancel: "cancel_wallet_scans w s = (rc, t) \<Longrightarrow> scan_section s t"
| sec_claim: "claim_handle h s = (rb, t) \<Longrightarrow> scan_section s t"
| sec_enter: "enter_slot i w c s = (ro, t) \<Longrightarrow> scan_section s t"
| sec_clear: "scan_section s (clear_scan_if_current w i s)"
| sec_leave: "scan_section s (leave_starting i s)"
| sec_poison: "scan_section s (s\<lparr>scan_poisoned := True\<rparr>)"

text \<open>
  Handle ids are below \<open>SCAN_ID\<close>, a handle is not both issued and stopped, and \<open>n\<close> sections
  issue at most \<open>n\<close> ids.
\<close>

definition handles_ok :: "nat \<Rightarrow> ('w, 'p) bridge \<Rightarrow> bool" where
  "handles_ok n s \<longleftrightarrow>
     unat (SCAN_ID s) \<le> n \<and>
     (\<forall>i \<in> issued (SCAN_STATE s). unat i < unat (SCAN_ID s)) \<and>
     (\<forall>i \<in> stopped_before_start (SCAN_STATE s). unat i < unat (SCAN_ID s)) \<and>
     issued (SCAN_STATE s) \<inter> stopped_before_start (SCAN_STATE s) = {}"

text \<open>An id that no later claim can use.\<close>

definition spent :: "u64 \<Rightarrow> nat \<Rightarrow> ('w, 'p) bridge \<Rightarrow> bool" where
  "spent i n s \<longleftrightarrow>
     unat (SCAN_ID s) \<le> n \<and> unat i < unat (SCAN_ID s) \<and>
     i \<notin> issued (SCAN_STATE s) \<and> i \<notin> stopped_before_start (SCAN_STATE s)"

lemma handles_ok_init: "handles_ok 0 (init_bridge w)"
  by (simp add: handles_ok_def init_bridge_def init_ScanState_def)

text \<open>What a section can do to the ids of handles that have not run.\<close>

datatype id_change = Same_Ids | New_Id u64 | Stop_Id u64 | Take_Id u64

definition ids_changed :: "id_change \<Rightarrow> ('w, 'p) bridge \<Rightarrow> ('w, 'p) bridge \<Rightarrow> bool" where
  "ids_changed d s t \<longleftrightarrow>
    (case d of
      Same_Ids \<Rightarrow> SCAN_ID t \<in> {SCAN_ID s, SCAN_ID s + 1} \<and>
        issued (SCAN_STATE t) = issued (SCAN_STATE s) \<and>
        stopped_before_start (SCAN_STATE t) = stopped_before_start (SCAN_STATE s)
    | New_Id i \<Rightarrow> i = SCAN_ID s \<and> SCAN_ID t = SCAN_ID s + 1 \<and>
        issued (SCAN_STATE t) = insert i (issued (SCAN_STATE s)) \<and>
        stopped_before_start (SCAN_STATE t) = stopped_before_start (SCAN_STATE s)
    | Stop_Id i \<Rightarrow> i \<in> issued (SCAN_STATE s) \<and> SCAN_ID t = SCAN_ID s \<and>
        issued (SCAN_STATE t) = issued (SCAN_STATE s) - {i} \<and>
        stopped_before_start (SCAN_STATE t) = insert i (stopped_before_start (SCAN_STATE s))
    | Take_Id i \<Rightarrow> SCAN_ID t = SCAN_ID s \<and>
        issued (SCAN_STATE t) = issued (SCAN_STATE s) - {i} \<and>
        stopped_before_start (SCAN_STATE t) = stopped_before_start (SCAN_STATE s) - {i})"

lemma create_ids: "create_scan_handle w s = (rh, t) \<Longrightarrow>
    ids_changed (if scan_poisoned s then Same_Ids else New_Id (SCAN_ID s)) s t"
  by (auto simp: create_scan_handle_def proc_simps ids_changed_def split: if_splits)

lemma stop_ids: "stop_scan_begin h s = (rc, t) \<Longrightarrow>
    ids_changed (if \<not> scan_poisoned s \<and> handle_id h \<in> issued (SCAN_STATE s)
      then Stop_Id (handle_id h) else Same_Ids) s t"
  by (auto simp: stop_scan_begin_def proc_simps Let_def ids_changed_def split: scan_splits)

lemma claim_ids:
  assumes "claim_handle h s = (rb, t)" "handles_ok n s"
  shows "ids_changed (case rb of Inl _ \<Rightarrow> Same_Ids | Inr _ \<Rightarrow> Take_Id (handle_id h)) s t"
  using assms
  by (auto simp: claim_handle_def proc_simps Let_def ids_changed_def handles_ok_def
      split: if_splits)

lemma quiet_ids:
  "cancel_wallet_scans w s = (rc, t) \<Longrightarrow> ids_changed Same_Ids s t"
  "enter_slot i w c s = (ro, t) \<Longrightarrow> ids_changed Same_Ids s t"
  "ids_changed Same_Ids s (clear_scan_if_current w i s)"
  "ids_changed Same_Ids s (leave_starting i s)"
  "ids_changed Same_Ids s (s\<lparr>scan_poisoned := True\<rparr>)"
  by (auto simp: scan_sections proc_simps Let_def ids_changed_def split: scan_splits)

lemma section_ids:
  assumes "scan_section s t" "handles_ok n s"
  shows "\<exists>d. ids_changed d s t"
  using assms
  by cases (blast dest: create_ids stop_ids claim_ids quiet_ids(1,2) intro: quiet_ids(3-5))+

lemma next_id_fresh: "unat (x::u64) \<le> n \<Longrightarrow> Suc n < 2 ^ 64 \<Longrightarrow> unat (x + 1) = Suc (unat x)"
  by (simp add: unat_word_ariths)

lemma handles_ok_step:
  assumes "ids_changed d s t" "handles_ok n s" "Suc n < 2 ^ 64"
  shows "handles_ok (Suc n) t"
proof (cases d)
  case Same_Ids
  have "unat (SCAN_ID s) \<le> unat (SCAN_ID t)" "unat (SCAN_ID t) \<le> Suc n"
    using Same_Ids assms next_id_fresh [of "SCAN_ID s" n]
    by (auto simp: ids_changed_def handles_ok_def)
  with Same_Ids assms show ?thesis by (auto simp: ids_changed_def handles_ok_def)
next
  case (New_Id i)
  with assms next_id_fresh [of "SCAN_ID s" n] show ?thesis
    by (auto simp: ids_changed_def handles_ok_def)
next
  case (Stop_Id i)
  with assms show ?thesis by (auto simp: ids_changed_def handles_ok_def)
next
  case (Take_Id i)
  with assms show ?thesis by (auto simp: ids_changed_def handles_ok_def)
qed

lemma spent_step:
  assumes "ids_changed d s t" "spent i n s" "Suc n < 2 ^ 64"
  shows "spent i (Suc n) t"
  using assms next_id_fresh [of "SCAN_ID s" n]
  by (cases d) (auto simp: ids_changed_def spent_def)

interpretation handle_ids: bounded_invariant scan_section handles_ok "2 ^ 64"
  by unfold_locales (blast dest: section_ids handles_ok_step)

interpretation spent_ids:
  bounded_invariant scan_section "\<lambda>n s. handles_ok n s \<and> spent i n s" "2 ^ 64" for i
  by unfold_locales (blast dest: section_ids handles_ok_step spent_step)

lemma claim_spends:
  assumes "claim_handle h s = (Inr b, t)" "handles_ok n s"
  shows "handles_ok n t \<and> spent (handle_id h) n t"
proof -
  have "\<not> scan_poisoned s" "handle_id h \<in> issued (SCAN_STATE s) \<union> stopped_before_start (SCAN_STATE s)"
    using assms(1) by (auto simp: claim_handle_def proc_simps Let_def split: if_splits)
  moreover have "ids_changed (Take_Id (handle_id h)) s t"
    using claim_ids [OF assms] by simp
  ultimately show ?thesis
    using assms(2) by (auto simp: ids_changed_def handles_ok_def spent_def)
qed

lemma claim_spent:
  assumes "spent (handle_id h) n s" "\<not> scan_poisoned s"
  shows "claim_handle h s = (Inl (Wallet_Err (Wallet (lit ''This scan handle was already used''))), s)"
  using assms by (simp add: claim_handle_def proc_simps spent_def)

text \<open>
  The priority rules of a wallet's slot. A Background scan is refused by a
  Foreground scan that is neither cancelled nor finished, and then nothing changes. In every
  other case the new scan is in the slot, only that wallet's slot changed, the scan it
  replaced is cancelled, and it is marked superseded exactly when it was not being stopped
  already.
\<close>

theorem take_slot_priority:
  "take_slot w c s =
     (case fmlookup (running (SCAN_STATE s)) w of
        Some old \<Rightarrow>
          if ctl_priority old = Foreground \<and> ctl_priority c = Background \<and>
             ctl_token old \<notin> cells s \<and> ctl_stopped old \<notin> cells s
          then (Inl (Wallet_Err ForegroundScanActive), s)
          else (Inr (Some old),
            s\<lparr>SCAN_STATE := (SCAN_STATE s)\<lparr>running := fmupd w c (running (SCAN_STATE s))\<rparr>,
              cells := cells s \<union> {ctl_token old} \<union>
                (if ctl_token old \<in> cells s then {} else {ctl_superseded old})\<rparr>)
      | None \<Rightarrow>
          (Inr None,
            s\<lparr>SCAN_STATE := (SCAN_STATE s)\<lparr>running := fmupd w c (running (SCAN_STATE s))\<rparr>\<rparr>))"
  by (auto simp: take_slot_def proc_simps slot_refuses_def is_set_def upd_scan_def set_cell_def
      Let_def split: option.split)

text \<open>
  C20 (safety): a handle starts one scan only. Once a claim of a handle succeeded (whether it
  starts or turns out stopped), no claim of it succeeds again, whatever handles are created,
  stopped, claimed or cancelled meanwhile by either engine, in runs of fewer than
  \<open>2 ^ 64\<close> sections.
\<close>

theorem handle_single_use:
  assumes "steps scan_section n (init_bridge w) s"
    and "claim_handle h s = (Inr b, t)"
    and "steps scan_section m t u"
    and "n + m < 2 ^ 64" and "\<not> scan_poisoned u"
  shows "claim_handle h u =
    (Inl (Wallet_Err (Wallet (lit ''This scan handle was already used''))), u)"
proof -
  from assms(4) have "n < 2 ^ 64" by linarith
  then have "handles_ok n s"
    by (rule handle_ids.from_start [OF assms(1) handles_ok_init])
  with assms(2) have "handles_ok n t \<and> spent (handle_id h) n t"
    by (rule claim_spends)
  with assms(3,4) have "spent (handle_id h) (n + m) u"
    using spent_ids.along_run [of m t u] by blast
  then show ?thesis using assms(5) by (rule claim_spent)
qed

theorem handle_single_use_witness:
  "claim_handle \<lparr>handle_wallet = lit ''w'', handle_id = 0\<rparr>
     (snd (claim_handle \<lparr>handle_wallet = lit ''w'', handle_id = 0\<rparr>
       (snd (create_scan_handle (lit ''w'') (init_bridge (0::nat) :: (nat, nat) bridge))))) =
   (Inl (Wallet_Err (Wallet (lit ''This scan handle was already used''))),
     snd (claim_handle \<lparr>handle_wallet = lit ''w'', handle_id = 0\<rparr>
       (snd (create_scan_handle (lit ''w'') (init_bridge 0)))))"
  (is "claim_handle ?h (snd (claim_handle ?h (snd (create_scan_handle ?w ?i)))) = _")
proof -
  let ?s = "snd (create_scan_handle ?w ?i)" and ?t = "snd (claim_handle ?h (snd (create_scan_handle ?w ?i)))"
  have "steps scan_section 1 ?i ?s"
    by (rule steps_1) (rule sec_create, rule prod.collapse [symmetric])
  moreover have "claim_handle ?h ?s = (Inr False, ?t)"
    by (simp add: create_scan_handle_def claim_handle_def proc_simps init_bridge_def init_ScanState_def)
  moreover have "\<not> scan_poisoned ?t"
    by (simp add: create_scan_handle_def claim_handle_def proc_simps init_bridge_def init_ScanState_def)
  ultimately show ?thesis
    using handle_single_use [of 1 0 ?s ?h False ?t 0 ?t] by (simp add: steps_0)
qed

end
