(* ===== verification/Db.thy ===== *)
theory Db
  imports Scan_State
begin

text \<open>
  The database and wallet-session state of \<open>src/api/db.rs\<close>: the shared pool, the open
  counts with their generations, unlock and lock, and the accessors every other module goes
  through. Each block the code runs under one guard of \<open>DB_STATE\<close> is a definition of its
  own; the functions are composed of those. \<open>Session_Interleaving\<close> runs the same sections
  from many threads.
\<close>

section \<open>Guards and gates\<close>

definition DIFFERENT_DATABASE :: rstring where
  "DIFFERENT_DATABASE = lit ''Another database is open; lock its wallets first''"

definition write_db_state :: "('w, 'p, unit) bridge_api" where
  "write_db_state s =
     (if db_poisoned s then err (internal (lit ''Failed to lock DB_STATE for writing'')) s
      else ret () s)"

definition read_db_state :: "('w, 'p, 'p DbState) bridge_api" where
  "read_db_state s =
     (if db_poisoned s then err (internal (lit ''Failed to lock DB_STATE for reading'')) s
      else ret (DB_STATE s) s)"

definition upd_db :: "('p DbState \<Rightarrow> 'p DbState) \<Rightarrow> ('w, 'p) bridge \<Rightarrow> ('w, 'p) bridge" where
  "upd_db f s = s\<lparr>DB_STATE := f (DB_STATE s)\<rparr>"

text \<open>\<open>hold\<close> waits for a wallet's unlock gate; a poisoned gate is taken all the same.\<close>

definition hold_gate :: "('w, 'p) environment \<Rightarrow> rstring \<Rightarrow> ('w, 'p, unit) bridge_api" where
  "hold_gate env wallet_name = await env (Await_Gate wallet_name)"

text \<open>\<open>blocking\<close>: run \<open>work\<close> on a blocking thread and wait for it.\<close>

definition blocking ::
  "('w, 'p) environment \<Rightarrow> ('w, 'p, 'r) bridge_api \<Rightarrow> ('w, 'p, 'r) bridge_api" where
  "blocking env work =
     and_then (await env Await_Blocking) (\<lambda>_ s.
       case join_error env s of
         Some e \<Rightarrow> err (internal (lit ''Blocking task failed: '' @ e)) s
       | None \<Rightarrow> work s)"

section \<open>The pool\<close>

definition release_expired_reservations ::
  "('w, 'p, 'c, 'a, 'm) minotari_scheme \<Rightarrow> 'c \<Rightarrow> ('w, 'p) bridge \<Rightarrow> ('w, 'p) bridge" where
  "release_expired_reservations M conn s =
     (case find_expired_pending_transactions M conn (world s) of
        Inl _ \<Rightarrow> s
      | Inr expired \<Rightarrow>
          fold (\<lambda>tx_id s. snd (on_world (expire_and_unlock_pending_transaction M conn tx_id) s))
            expired s)"

definition init_pool ::
  "('w, 'p, 'c, 'a, 'm) minotari_scheme \<Rightarrow> rstring \<Rightarrow> ('w, 'p, 'p) bridge_api" where
  "init_pool M path =
     map_err_proc (\<lambda>e. Context (lit ''Failed to create database pool'') (Upstream e))
       (on_world (init_db M path))"

definition open_pool ::
  "('w, 'p, 'c, 'a, 'm) minotari_scheme \<Rightarrow> rstring \<Rightarrow> ('w, 'p, 'p) bridge_api" where
  "open_pool M path =
     and_then (init_pool M path) (\<lambda>pool s.
       case pool_get M pool (world s) of
         Inr conn \<Rightarrow> ret pool (release_expired_reservations M conn s)
       | Inl _ \<Rightarrow> ret pool s)"

definition close_pool :: "'p DbState \<Rightarrow> 'p DbState" where
  "close_pool d = d\<lparr>db_open := None\<rparr>"

definition get_conn ::
  "('w, 'p, 'c, 'a, 'm) minotari_scheme \<Rightarrow> 'p \<Rightarrow> ('w, 'p, 'c) bridge_api" where
  "get_conn M pool s =
     (map_err (\<lambda>e. Context (lit ''Failed to retrieve connection from pool'') (Upstream e))
        (pool_get M pool (world s)), s)"

text \<open>The open pool, or a temporary one on the recorded path.\<close>

definition get_db_pool ::
  "('w, 'p, 'c, 'a, 'm) minotari_scheme \<Rightarrow> ('w, 'p, 'p) bridge_api" where
  "get_db_pool M =
     and_then read_db_state (\<lambda>state.
       case db_open state of
         Some db \<Rightarrow> ret (db_pool db)
       | None \<Rightarrow>
           and_then (lift_res (ok_or (Wallet_Err NotInitialized) (db_path state))) (\<lambda>path.
             init_pool M path))"

definition get_db_connection ::
  "('w, 'p, 'c, 'a, 'm) minotari_scheme \<Rightarrow> ('w, 'p, 'c) bridge_api" where
  "get_db_connection M = and_then (get_db_pool M) (get_conn M)"

definition get_db_path :: "('w, 'p, rstring) bridge_api" where
  "get_db_path =
     and_then read_db_state (\<lambda>state.
       case db_open state of
         Some db \<Rightarrow> ret (db_file db)
       | None \<Rightarrow> lift_res (ok_or (Wallet_Err NotInitialized) (db_path state)))"

definition set_database_path :: "rstring \<Rightarrow> ('w, 'p, unit) bridge_api" where
  "set_database_path path =
     and_then write_db_state (\<lambda>_ s.
       case db_open (DB_STATE s) of
         Some db \<Rightarrow>
           if db_file db \<noteq> path then err (database DIFFERENT_DATABASE) s
           else ret () (upd_db (\<lambda>d. d\<lparr>db_path := Some path\<rparr>) s)
       | None \<Rightarrow> ret () (upd_db (\<lambda>d. d\<lparr>db_path := Some path\<rparr>) s))"

section \<open>Open counts\<close>

definition acquire_session :: "rstring \<Rightarrow> 'p DbState \<Rightarrow> u64 \<times> 'p DbState" where
  "acquire_session wallet_name d =
     (let nxt = next_generation d;
          session = (case fmlookup (db_sessions d) wallet_name of
                       Some session \<Rightarrow> session
                     | None \<Rightarrow> \<lparr>sess_count = 0, sess_generation = nxt\<rparr>);
          d = (if sess_generation session = nxt then d\<lparr>next_generation := nxt + 1\<rparr> else d);
          session = session\<lparr>sess_count := sat_add (sess_count session) 1\<rparr>
      in (sess_generation session,
          d\<lparr>db_sessions := fmupd wallet_name session (db_sessions d)\<rparr>))"

definition release_one :: "rstring \<Rightarrow> 'p DbState \<Rightarrow> bool \<times> 'p DbState" where
  "release_one wallet_name d =
     (case fmlookup (db_sessions d) wallet_name of
        None \<Rightarrow> (False, d)
      | Some session \<Rightarrow>
          let session = session\<lparr>sess_count := sat_sub (sess_count session) 1\<rparr> in
          if 0 < sess_count session then
            (False, d\<lparr>db_sessions := fmupd wallet_name session (db_sessions d)\<rparr>)
          else
            let d = d\<lparr>db_sessions := fmdrop wallet_name (db_sessions d)\<rparr> in
            (True, if db_sessions d = fmempty then close_pool d else d))"

text \<open>The state step of \<open>lock_wallet_everywhere\<close>: the whole entry goes.\<close>

definition remove_session :: "rstring \<Rightarrow> 'p DbState \<Rightarrow> 'p DbState" where
  "remove_session wallet_name d =
     (if fmlookup (db_sessions d) wallet_name = None then d
      else
        let d = d\<lparr>db_sessions := fmdrop wallet_name (db_sessions d)\<rparr> in
        if db_sessions d = fmempty then close_pool d else d)"

definition session_generation :: "rstring \<Rightarrow> 'p DbState \<Rightarrow> u64 option" where
  "session_generation wallet_name d =
     map_option sess_generation (fmlookup (db_sessions d) wallet_name)"

text \<open>\<open>still_counted\<close> reads the state; \<open>release_session\<close> and the first half of
  \<open>release_failed_unlock\<close> run \<open>release_one\<close> under one write guard.\<close>

definition still_counted :: "rstring \<Rightarrow> u64 \<Rightarrow> ('w, 'p, bool) bridge_api" where
  "still_counted wallet_name generation =
     and_then read_db_state (\<lambda>state.
       ret (session_generation wallet_name state = Some generation))"

definition release_session :: "rstring \<Rightarrow> ('w, 'p, bool) bridge_api" where
  "release_session wallet_name =
     and_then write_db_state (\<lambda>_ s.
       case release_one wallet_name (DB_STATE s) of
         (zero, d) \<Rightarrow> ret zero (s\<lparr>DB_STATE := d\<rparr>))"

definition release_if_generation :: "rstring \<Rightarrow> u64 \<Rightarrow> ('w, 'p, bool) bridge_api" where
  "release_if_generation wallet_name generation =
     and_then write_db_state (\<lambda>_ s.
       if session_generation wallet_name (DB_STATE s) = Some generation then
         (case release_one wallet_name (DB_STATE s) of
            (zero, d) \<Rightarrow> ret zero (s\<lparr>DB_STATE := d\<rparr>))
       else ret False s)"

section \<open>Locking a key session\<close>

text \<open>
  \<open>lock_session_gate_held\<close>: whether a holder is counted (an unreadable state counts as
  none), and if not, the session is locked and the wallet's scans are cancelled.
\<close>

definition holder_counted :: "rstring \<Rightarrow> ('w, 'p) bridge \<Rightarrow> bool" where
  "holder_counted wallet_name s \<longleftrightarrow>
     \<not> db_poisoned s \<and> fmlookup (db_sessions (DB_STATE s)) wallet_name \<noteq> None"

definition lock_and_cancel ::
  "('w, 'p, 'c, 'a, 'm) minotari_scheme \<Rightarrow> rstring \<Rightarrow> ('w, 'p, bool) bridge_api" where
  "lock_and_cancel M wallet_name =
     and_then (modify (\<lambda>s. s\<lparr>world := session_lock M wallet_name (world s)\<rparr>)) (\<lambda>_.
     and_then (cancel_wallet_scans wallet_name) (\<lambda>_.
     ret True))"

definition lock_session_gate_held ::
  "('w, 'p, 'c, 'a, 'm) minotari_scheme \<Rightarrow> rstring \<Rightarrow> ('w, 'p, bool) bridge_api" where
  "lock_session_gate_held M wallet_name s =
     (if holder_counted wallet_name s then ret False s else lock_and_cancel M wallet_name s)"

definition lock_session_unless_held ::
  "('w, 'p) environment \<Rightarrow> ('w, 'p, 'c, 'a, 'm) minotari_scheme \<Rightarrow> rstring \<Rightarrow>
     ('w, 'p, bool) bridge_api" where
  "lock_session_unless_held env M wallet_name =
     and_then (hold_gate env wallet_name) (\<lambda>_. lock_session_gate_held M wallet_name)"

definition lock_session_unless_held_async ::
  "('w, 'p) environment \<Rightarrow> ('w, 'p, 'c, 'a, 'm) minotari_scheme \<Rightarrow> rstring \<Rightarrow>
     ('w, 'p, bool) bridge_api" where
  "lock_session_unless_held_async env M wallet_name =
     blocking env (lock_session_unless_held env M wallet_name)"

definition lock_wallet ::
  "('w, 'p) environment \<Rightarrow> ('w, 'p, 'c, 'a, 'm) minotari_scheme \<Rightarrow> rstring \<Rightarrow>
     ('w, 'p, bool) bridge_api" where
  "lock_wallet env M wallet_name =
     and_then (release_session wallet_name) (\<lambda>zero.
       if \<not> zero then ret False
       else
         and_then (lock_session_unless_held_async env M wallet_name) (\<lambda>locked.
         and_then (if locked then stop_wallet_scans env wallet_name else ret ()) (\<lambda>_.
         ret locked)))"

definition lock_wallet_everywhere ::
  "('w, 'p) environment \<Rightarrow> ('w, 'p, 'c, 'a, 'm) minotari_scheme \<Rightarrow> rstring \<Rightarrow>
     ('w, 'p, unit) bridge_api" where
  "lock_wallet_everywhere env M wallet_name =
     and_then write_db_state (\<lambda>_.
     and_then (modify (upd_db (remove_session wallet_name))) (\<lambda>_.
     and_then (lock_session_unless_held_async env M wallet_name) (\<lambda>_.
     stop_wallet_scans env wallet_name)))"

definition force_lock_wallet ::
  "('w, 'p) environment \<Rightarrow> ('w, 'p, 'c, 'a, 'm) minotari_scheme \<Rightarrow> rstring \<Rightarrow>
     ('w, 'p, unit) bridge_api" where
  "force_lock_wallet env M wallet_name = lock_wallet_everywhere env M wallet_name"

section \<open>Unlocking\<close>

fun map_unlock_error :: "wallet_db_error \<Rightarrow> api_error" where
  "map_unlock_error e =
     (case db_kind e of
        DbInvalidPassphrase \<Rightarrow> Wallet_Err InvalidPassphrase
      | DbDecryptionFailed \<Rightarrow> Wallet_Err InvalidPassphrase
      | DbInvalidInput \<Rightarrow> Wallet_Err NoAccounts
      | DbNotUnlocked \<Rightarrow> Wallet_Err Locked
      | DbOther \<Rightarrow> Wallet_Err (database (db_text e)))"

text \<open>The calls \<open>check_and_unlock\<close> makes, with its error mapping.\<close>

definition check_is_unlocked ::
  "('w, 'p, 'c, 'a, 'm) minotari_scheme \<Rightarrow> 'c \<Rightarrow> rstring \<Rightarrow> ('w, 'p, bool) bridge_api" where
  "check_is_unlocked M conn wallet_name s =
     (map_err map_unlock_error (session_is_unlocked M conn wallet_name (world s)), s)"

definition verify_stored ::
  "('w, 'p, 'c, 'a, 'm) minotari_scheme \<Rightarrow> 'c \<Rightarrow> rstring \<Rightarrow> rstring \<Rightarrow> ('w, 'p, unit) bridge_api" where
  "verify_stored M conn wallet_name passphrase s =
     (res_then (map_err map_unlock_error (get_account_by_name M conn wallet_name (world s))) (\<lambda>row.
      res_then (ok_or (Wallet_Err NoAccounts) row) (\<lambda>account.
      map_err map_unlock_error (verify_passphrase M account passphrase))), s)"

definition unlock_session ::
  "('w, 'p, 'c, 'a, 'm) minotari_scheme \<Rightarrow> 'c \<Rightarrow> rstring \<Rightarrow> rstring \<Rightarrow> ('w, 'p, unit) bridge_api" where
  "unlock_session M conn wallet_name passphrase =
     map_err_proc map_unlock_error (on_world (session_unlock M conn wallet_name passphrase))"

definition check_and_unlock ::
  "('w, 'p, 'c, 'a, 'm) minotari_scheme \<Rightarrow> 'c \<Rightarrow> rstring \<Rightarrow> rstring \<Rightarrow> ('w, 'p, unit) bridge_api" where
  "check_and_unlock M conn wallet_name passphrase =
     and_then (check_is_unlocked M conn wallet_name) (\<lambda>unlocked.
       if unlocked then
         and_then (verify_stored M conn wallet_name passphrase) (\<lambda>_.
         and_then (check_is_unlocked M conn wallet_name) (\<lambda>unlocked.
           if unlocked then ret () else unlock_session M conn wallet_name passphrase))
       else unlock_session M conn wallet_name passphrase)"

text \<open>The first section of \<open>unlock_wallet\<close>: the pool to use, and the count taken.\<close>

definition close_other_pool :: "rstring \<Rightarrow> ('w, 'p, unit) bridge_api" where
  "close_other_pool path s =
     (case db_open (DB_STATE s) of
        Some db \<Rightarrow>
          if db_file db \<noteq> path then
            if db_sessions (DB_STATE s) \<noteq> fmempty then err (database DIFFERENT_DATABASE) s
            else ret () (upd_db close_pool s)
          else ret () s
      | None \<Rightarrow> ret () s)"

definition shared_pool ::
  "('w, 'p, 'c, 'a, 'm) minotari_scheme \<Rightarrow> rstring \<Rightarrow> ('w, 'p, 'p) bridge_api" where
  "shared_pool M path s =
     (case db_open (DB_STATE s) of
        Some db \<Rightarrow> ret (db_pool db) s
      | None \<Rightarrow>
          and_then (open_pool M path) (\<lambda>pool.
          and_then (modify (upd_db (\<lambda>d. d\<lparr>db_open := Some \<lparr>db_pool = pool, db_file = path\<rparr>\<rparr>))) (\<lambda>_.
          ret pool)) s)"

definition unlock_begin ::
  "('w, 'p, 'c, 'a, 'm) minotari_scheme \<Rightarrow> rstring \<Rightarrow> rstring \<Rightarrow> ('w, 'p, 'p \<times> u64) bridge_api" where
  "unlock_begin M path wallet_name =
     and_then write_db_state (\<lambda>_.
     and_then (close_other_pool path) (\<lambda>_.
     and_then (shared_pool M path) (\<lambda>pool.
     and_then (modify (upd_db (\<lambda>d. d\<lparr>db_path := Some path\<rparr>))) (\<lambda>_ s.
       case acquire_session wallet_name (DB_STATE s) of
         (generation, d) \<Rightarrow> ret (pool, generation) (s\<lparr>DB_STATE := d\<rparr>)))))"

text \<open>The section between: the passphrase check, with the wallet's gate held.\<close>

definition unlock_check ::
  "('w, 'p, 'c, 'a, 'm) minotari_scheme \<Rightarrow> 'p \<Rightarrow> rstring \<Rightarrow> rstring \<Rightarrow> ('w, 'p, unit) bridge_api" where
  "unlock_check M pool wallet_name passphrase =
     and_then (get_conn M pool) (\<lambda>conn. check_and_unlock M conn wallet_name passphrase)"

definition release_failed_unlock ::
  "('w, 'p, 'c, 'a, 'm) minotari_scheme \<Rightarrow> rstring \<Rightarrow> u64 \<Rightarrow> ('w, 'p, unit) bridge_api" where
  "release_failed_unlock M wallet_name generation =
     and_then (release_if_generation wallet_name generation) (\<lambda>reached_zero.
     and_then (if reached_zero then lock_session_gate_held M wallet_name else ret False) (\<lambda>_.
     ret ()))"

definition confirm_still_counted ::
  "('w, 'p, 'c, 'a, 'm) minotari_scheme \<Rightarrow> rstring \<Rightarrow> u64 \<Rightarrow> ('w, 'p, unit) bridge_api" where
  "confirm_still_counted M wallet_name generation =
     and_then (still_counted wallet_name generation) (\<lambda>counted.
       if counted then ret ()
       else and_then (lock_session_gate_held M wallet_name) (\<lambda>_. err Locked))"

definition unlock_wallet ::
  "('w, 'p) environment \<Rightarrow> ('w, 'p, 'c, 'a, 'm) minotari_scheme \<Rightarrow>
     rstring \<Rightarrow> rstring \<Rightarrow> rstring \<Rightarrow> ('w, 'p, unit) bridge_api" where
  "unlock_wallet env M path wallet_name passphrase =
     and_then (unlock_begin M path wallet_name) (\<lambda>(pool, generation).
     and_then (hold_gate env wallet_name) (\<lambda>_ s.
       case unlock_check M pool wallet_name passphrase s of
         (Inl e, s') \<Rightarrow> and_then (release_failed_unlock M wallet_name generation) (\<lambda>_. fail e) s'
       | (Inr _, s') \<Rightarrow> confirm_still_counted M wallet_name generation s'))"

section \<open>Using a session\<close>

definition is_unlocked ::
  "('w, 'p, 'c, 'a, 'm) minotari_scheme \<Rightarrow> 'c \<Rightarrow> rstring \<Rightarrow> ('w, 'p, bool) bridge_api" where
  "is_unlocked M conn wallet_name s =
     (map_err (\<lambda>e. Wallet_Err (database (db_text e)))
        (session_is_unlocked M conn wallet_name (world s)), s)"

definition with_session ::
  "('w, 'p, 'c, 'a, 'm) minotari_scheme \<Rightarrow> 'c \<Rightarrow> rstring \<Rightarrow> ('w, 'p, 'r) bridge_api \<Rightarrow>
     ('w, 'p, 'r) bridge_api" where
  "with_session M conn wallet_name read_keys s =
     (case read_keys s of (result, s') \<Rightarrow>
        and_then (is_unlocked M conn wallet_name) (\<lambda>unlocked.
          if \<not> unlocked then err Locked else lift_res result) s')"

definition session_gone ::
  "('w, 'p, 'c, 'a, 'm) minotari_scheme \<Rightarrow> rstring \<Rightarrow> ('w, 'p) bridge \<Rightarrow> bool \<times> ('w, 'p) bridge" where
  "session_gone M wallet_name s =
     (case and_then (get_db_connection M) (\<lambda>conn. is_unlocked M conn wallet_name) s of
        (Inr False, s') \<Rightarrow> (True, s')
      | (_, s') \<Rightarrow> (False, s'))"

definition unlocked_account ::
  "('w, 'p, 'c, 'a, 'm) minotari_scheme \<Rightarrow> 'c \<Rightarrow> rstring \<Rightarrow> ('w, 'p, 'a) bridge_api" where
  "unlocked_account M conn wallet_name =
     and_then (\<lambda>s. (map_err (\<lambda>e. Wallet_Err (database (db_text e)))
                     (get_account_by_name M conn wallet_name (world s)), s)) (\<lambda>row.
     and_then (lift_res (ok_or (Wallet_Err NoAccounts) row)) (\<lambda>account.
     and_then (is_unlocked M conn wallet_name) (\<lambda>unlocked.
       if \<not> unlocked then err Locked else ret account)))"

definition checkpoint_database ::
  "('w, 'p, 'c, 'a, 'm) minotari_scheme \<Rightarrow> ('w, 'p, unit) bridge_api" where
  "checkpoint_database M =
     and_then (get_db_connection M) (\<lambda>conn.
     and_then (map_err_proc (\<lambda>e. Wallet_Err (database e))
                 (on_world (wal_checkpoint_truncate M conn))) (\<lambda>busy.
       if busy \<noteq> 0
       then err (database (lit ''The database is busy; try the checkpoint again''))
       else ret ()))"

section \<open>Evaluation and frames\<close>

lemma db_guard_eval [proc_simps]:
  "write_db_state s =
     (if db_poisoned s
      then (Inl (Wallet_Err (Internal (lit ''Failed to lock DB_STATE for writing''))), s)
      else (Inr (), s))"
  "read_db_state s =
     (if db_poisoned s
      then (Inl (Wallet_Err (Internal (lit ''Failed to lock DB_STATE for reading''))), s)
      else (Inr (DB_STATE s), s))"
  by (simp_all add: write_db_state_def read_db_state_def proc_simps)

lemma upd_db_frame [simp]:
  "DB_STATE (upd_db f s) = f (DB_STATE s)"
  "SCAN_STATE (upd_db f s) = SCAN_STATE s"
  "db_poisoned (upd_db f s) = db_poisoned s"
  "scan_poisoned (upd_db f s) = scan_poisoned s"
  "cells (upd_db f s) = cells s"
  "MAINT_HELD (upd_db f s) = MAINT_HELD s"
  "maint_poisoned (upd_db f s) = maint_poisoned s"
  "world (upd_db f s) = world s"
  by (simp_all add: upd_db_def)

text \<open>
  \<open>same_globals s t\<close>: nothing but what minotari keeps differs. Every procedure that only
  calls minotari leaves the process-global state alone.
\<close>

definition same_globals :: "('w, 'p) bridge \<Rightarrow> ('w, 'p) bridge \<Rightarrow> bool" where
  "same_globals s t \<longleftrightarrow> t = s\<lparr>world := world t\<rparr>"

definition world_only :: "(('w, 'p) bridge, 'e, 'r) proc \<Rightarrow> bool" where
  "world_only m \<longleftrightarrow> (\<forall>s. same_globals s (snd (m s)))"

lemma same_globals_refl [simp]: "same_globals s s"
  by (simp add: same_globals_def)

lemma same_globals_trans: "same_globals s t \<Longrightarrow> same_globals t u \<Longrightarrow> same_globals s u"
  unfolding same_globals_def by (metis bridge.surjective bridge.update_convs(10))

lemma same_globalsD:
  assumes "same_globals s t"
  shows "DB_STATE t = DB_STATE s" "SCAN_STATE t = SCAN_STATE s" "cells t = cells s"
    "db_poisoned t = db_poisoned s" "scan_poisoned t = scan_poisoned s"
    "MAINT_HELD t = MAINT_HELD s" "SCAN_ID t = SCAN_ID s" "next_run t = next_run s"
    "maint_poisoned t = maint_poisoned s"
  using assms unfolding same_globals_def
  by (metis bridge.ext_inject bridge.surjective bridge.update_convs(10))+

named_theorems world_only_intros \<open>procedures that only change what minotari keeps\<close>

lemma world_onlyI: "(\<And>s r t. m s = (r, t) \<Longrightarrow> same_globals s t) \<Longrightarrow> world_only m"
  unfolding world_only_def by (metis prod.collapse)

lemma world_onlyD: "world_only m \<Longrightarrow> m s = (r, t) \<Longrightarrow> same_globals s t"
  unfolding world_only_def by (metis snd_conv)

lemma world_only_basic [world_only_intros]:
  "world_only (ret x)" "world_only (fail e)" "world_only (err w)" "world_only (lift_res r)"
  "world_only (gets f)" "world_only (\<lambda>s. (g s, s))"
  by (simp_all add: world_only_def proc_simps)

lemma world_only_and_then [world_only_intros]:
  assumes "world_only m" "\<And>x. world_only (f x)"
  shows "world_only (and_then m f)"
proof (rule world_onlyI)
  fix s r t
  assume run: "and_then m f s = (r, t)"
  show "same_globals s t"
  proof (cases "m s")
    case (Pair r' s')
    with assms(1) have "same_globals s s'" by (rule world_onlyD)
    moreover have "same_globals s' t"
      using run Pair assms(2) by (auto simp: and_then_def split: sum.splits dest: world_onlyD)
    ultimately show ?thesis by (rule same_globals_trans)
  qed
qed

lemma world_only_if [world_only_intros]:
  "(b \<Longrightarrow> world_only m) \<Longrightarrow> (\<not> b \<Longrightarrow> world_only n) \<Longrightarrow> world_only (if b then m else n)"
  by simp

lemma world_only_case_option [world_only_intros]:
  "(x = None \<Longrightarrow> world_only m) \<Longrightarrow> (\<And>y. x = Some y \<Longrightarrow> world_only (n y)) \<Longrightarrow>
    world_only (case x of None \<Rightarrow> m | Some y \<Rightarrow> n y)"
  by (cases x) auto

lemma world_only_map_err [world_only_intros]: "world_only m \<Longrightarrow> world_only (map_err_proc g m)"
  by (auto simp: world_only_def map_err_proc_def split: prod.splits)
     (metis snd_conv)

lemma on_world_same_globals: "on_world f s = (r, t) \<Longrightarrow> same_globals s t"
  by (auto simp: on_world_def same_globals_def split: prod.splits)

lemma world_only_on_world [world_only_intros]: "world_only (on_world f)"
  by (rule world_onlyI) (rule on_world_same_globals)

lemma same_globals_fold:
  "(\<And>i s. same_globals s (f i s)) \<Longrightarrow> same_globals s (fold f ids s)"
  by (induction ids arbitrary: s) (auto intro: same_globals_trans)

lemma release_expired_same_globals [simp]:
  "same_globals s (release_expired_reservations M conn s)"
  by (auto simp: release_expired_reservations_def split: sum.splits
      intro!: same_globals_fold on_world_same_globals [OF prod.collapse [symmetric]])

lemma open_pool_world_only [world_only_intros]:
  "world_only (init_pool M path)" "world_only (open_pool M path)"
proof -
  show init: "world_only (init_pool M path)"
    unfolding init_pool_def by (intro world_only_intros)
  have "world_only (\<lambda>s. case pool_get M pool (world s) of
      Inl _ \<Rightarrow> ret pool s | Inr conn \<Rightarrow> ret pool (release_expired_reservations M conn s))" for pool
    by (auto simp: world_only_def proc_simps split: sum.split)
  then show "world_only (open_pool M path)"
    unfolding open_pool_def by (intro world_only_intros init)
qed

lemma accessors_world_only [world_only_intros]:
  "world_only (get_conn M pool)" "world_only read_db_state" "world_only (get_db_pool M)"
  "world_only (get_db_connection M)" "world_only get_db_path" "world_only (is_unlocked M conn w)"
  "world_only (unlocked_account M conn w)" "world_only (checkpoint_database M)"
proof -
  show conn: "world_only (get_conn M pool)" for pool
    by (simp add: world_only_def get_conn_def)
  show read: "world_only read_db_state"
    by (auto simp: world_only_def proc_simps)
  show unlocked: "world_only (is_unlocked M conn w)"
    by (simp add: world_only_def is_unlocked_def)
  show pool: "world_only (get_db_pool M)"
    unfolding get_db_pool_def
    by (intro world_only_intros read)
  show "world_only (get_db_connection M)"
    unfolding get_db_connection_def by (intro world_only_intros pool conn)
  show "world_only get_db_path"
    unfolding get_db_path_def
    by (intro world_only_intros read)
  show "world_only (unlocked_account M conn w)"
    unfolding unlocked_account_def
    by (intro world_only_intros unlocked)
  show "world_only (checkpoint_database M)"
    unfolding checkpoint_database_def get_db_connection_def
    by (intro world_only_intros pool conn)
qed

lemma unlock_check_world_only [world_only_intros]: "world_only (unlock_check M pool w pw)"
proof -
  have "world_only (check_is_unlocked M conn w)" "world_only (verify_stored M conn w pw)"
    "world_only (unlock_session M conn w pw)" for conn
    by (auto simp: world_only_def check_is_unlocked_def verify_stored_def unlock_session_def
        proc_simps split: prod.split dest: on_world_same_globals)
  then show ?thesis
    unfolding unlock_check_def check_and_unlock_def
    by (intro world_only_intros)
qed

end
