(* ===== verification/Session_Counts.thy ===== *)
theory Session_Counts
  imports Db
begin

text \<open>
  What the open counts of \<open>Db\<close> promise: they are a counter per wallet, the pool is open
  exactly while some wallet is counted, a failed unlock adds nothing, the last lock (and
  only the last) locks the wallet, and every unlock that succeeds has checked the passphrase.
\<close>

section \<open>Counters\<close>

text \<open>
  The abstract contract: one counter per key, raised, lowered (not below zero) and cleared.
\<close>

datatype 'k count_op = Acquire 'k | Release 'k | Evict 'k

fun count_step :: "('k \<Rightarrow> nat) \<Rightarrow> 'k count_op \<Rightarrow> 'k \<Rightarrow> nat" where
  "count_step c (Acquire k) = c(k := c k + 1)"
| "count_step c (Release k) = c(k := c k - 1)"
| "count_step c (Evict k) = c(k := 0)"

locale counted_registry =
  fixes acquire :: "'k \<Rightarrow> 's \<Rightarrow> 's" and release :: "'k \<Rightarrow> 's \<Rightarrow> bool \<times> 's"
    and evict :: "'k \<Rightarrow> 's \<Rightarrow> 's" and held :: "'s \<Rightarrow> 'k \<Rightarrow> nat"
    and inv :: "'s \<Rightarrow> bool" and cap :: nat
  assumes acquire_held: "inv s \<Longrightarrow> held s k < cap \<Longrightarrow> held (acquire k s) = (held s)(k := held s k + 1)"
    and release_held: "inv s \<Longrightarrow> held (snd (release k s)) = (held s)(k := held s k - 1)"
    and release_last: "inv s \<Longrightarrow> fst (release k s) \<longleftrightarrow> held s k = 1"
    and evict_held: "inv s \<Longrightarrow> held (evict k s) = (held s)(k := 0)"
    and inv_acquire: "inv s \<Longrightarrow> inv (acquire k s)"
    and inv_release: "inv s \<Longrightarrow> inv (snd (release k s))"
    and inv_evict: "inv s \<Longrightarrow> inv (evict k s)"
begin

lemma step_refines:
  assumes "inv s" "held s k < cap" "op \<in> {Acquire k, Release k, Evict k}"
  defines "t \<equiv> case op of Acquire k \<Rightarrow> acquire k s | Release k \<Rightarrow> snd (release k s) | Evict k \<Rightarrow> evict k s"
  shows "held t = count_step (held s) op \<and> inv t"
  using assms
  by (auto simp: acquire_held release_held evict_held inv_acquire inv_release inv_evict)

lemma run_refines:
  assumes "inv s" "\<forall>k. held s k + length ops \<le> cap"
  defines "step \<equiv> \<lambda>s op. case op of Acquire k \<Rightarrow> acquire k s
     | Release k \<Rightarrow> snd (release k s) | Evict k \<Rightarrow> evict k s"
  shows "held (foldl step s ops) = foldl count_step (held s) ops \<and> inv (foldl step s ops)"
  using assms(1,2)
proof (induction ops arbitrary: s)
  case Nil
  then show ?case by simp
next
  case (Cons op ops)
  obtain k where k: "op \<in> {Acquire k, Release k, Evict k}" by (cases op) auto
  from Cons.prems(2) have room: "held s j + Suc (length ops) \<le> cap" for j by simp
  from room [of k] have "held s k < cap" by linarith
  then have one: "held (step s op) = count_step (held s) op \<and> inv (step s op)"
    using step_refines [OF Cons.prems(1) _ k] unfolding step_def by blast
  have "\<forall>j. held (step s op) j + length ops \<le> cap"
  proof
    fix j
    show "held (step s op) j + length ops \<le> cap"
      using room [of j] one by (cases op) auto
  qed
  then show ?case using Cons.IH [of "step s op"] one by simp
qed

lemma unlock_lock_restores:
  assumes "inv s" "held s k < cap"
  shows "held (snd (release k (acquire k s))) = held s"
  using assms by (simp add: release_held inv_acquire acquire_held fun_eq_iff)

lemma last_release:
  assumes "inv s" "held s k = 0" "0 < cap"
  shows "fst (release k (acquire k s))"
  using assms by (simp add: release_last inv_acquire acquire_held)

end

section \<open>The code's counts are such counters\<close>

lemma close_pool_sessions [simp]:
  "db_sessions (close_pool d) = db_sessions d"
  "db_sessions (if b then close_pool d else d) = db_sessions d"
  "next_generation (close_pool d) = next_generation d"
  "next_generation (if b then close_pool d else d) = next_generation d"
  "db_path (close_pool d) = db_path d"
  "db_path (if b then close_pool d else d) = db_path d"
  by (simp_all add: close_pool_def)

definition held_count :: "'p DbState \<Rightarrow> rstring \<Rightarrow> nat" where
  "held_count d w = (case fmlookup (db_sessions d) w of None \<Rightarrow> 0 | Some s \<Rightarrow> unat (sess_count s))"

text \<open>An entry is dropped when its count reaches zero, so a stored count is positive.\<close>

definition counts_positive :: "'p DbState \<Rightarrow> bool" where
  "counts_positive d \<longleftrightarrow> (\<forall>w s. fmlookup (db_sessions d) w = Some s \<longrightarrow> 0 < unat (sess_count s))"

lemma held_count_0: "counts_positive d \<Longrightarrow> held_count d w = 0 \<longleftrightarrow> fmlookup (db_sessions d) w = None"
  by (auto simp: held_count_def counts_positive_def split: option.splits)

lemma unat_sat_add_1: "unat (x::u32) < 2 ^ 32 - 1 \<Longrightarrow> unat (sat_add x 1) = unat x + 1"
  by (simp add: unat_sat_add)

lemma sat_add_1_pos: "0 < unat (sat_add (x::u32) 1)"
  by (simp add: unat_sat_add)

lemma sat_sub_1_pos_iff: "0 < sat_sub (x::u32) 1 \<longleftrightarrow> 1 < unat x"
  by (metis One_nat_def unat_1 unat_sat_sub word_less_nat_alt unat_0 zero_less_diff)

interpretation sessions: counted_registry
  "\<lambda>w d. snd (acquire_session w d)" release_one remove_session held_count counts_positive "2 ^ 32 - 1"
proof (unfold_locales, goal_cases)
  case (1 d w)
  then show ?case
    by (auto simp: held_count_def acquire_session_def Let_def fun_eq_iff unat_sat_add_1
        split: option.splits)
next
  case (2 d w)
  then show ?case
    by (auto simp: held_count_def release_one_def Let_def fun_eq_iff sat_sub_1_pos_iff
        unat_sat_sub split: option.splits)
next
  case (3 d w)
  then show ?case
    by (auto simp: held_count_def counts_positive_def release_one_def Let_def sat_sub_1_pos_iff
        split: option.splits) (metis One_nat_def Suc_lessI)
next
  case (4 d w)
  then show ?case
    by (auto simp: held_count_def remove_session_def Let_def fun_eq_iff
        split: option.splits)
next
  case (5 d w)
  then show ?case
    by (auto simp: counts_positive_def acquire_session_def Let_def sat_add_1_pos)
next
  case (6 d w)
  then show ?case
    by (auto simp: counts_positive_def release_one_def Let_def word_less_nat_alt
        split: option.splits if_splits)
next
  case (7 d w)
  then show ?case
    by (auto simp: counts_positive_def remove_session_def Let_def split: if_splits)
qed

section \<open>The pool is open while a wallet is counted\<close>

definition db_inv :: "('w, 'p) bridge \<Rightarrow> bool" where
  "db_inv s \<longleftrightarrow>
     (let d = DB_STATE s in
      counts_positive d \<and> (db_open d = None \<longleftrightarrow> db_sessions d = fmempty) \<and>
      (\<forall>db. db_open d = Some db \<longrightarrow> db_path d = Some (db_file db)))"

lemma db_inv_init: "db_inv (init_bridge w)"
  by (simp add: db_inv_def init_bridge_def init_DbState_def counts_positive_def)

lemma db_inv_cong: "DB_STATE t = DB_STATE s \<Longrightarrow> db_inv t = db_inv s"
  by (simp add: db_inv_def)

lemma keeps_db_inv_world_only: "world_only m \<Longrightarrow> keeps db_inv m"
  by (metis db_inv_cong keepsI same_globalsD(1) world_onlyD)

lemma release_one_inv:
  assumes "db_inv s" "release_one w (DB_STATE s) = (z, d)"
  shows "db_inv (s\<lparr>DB_STATE := d\<rparr>)"
proof -
  have "counts_positive d"
    using assms sessions.inv_release [of "DB_STATE s" w] by (simp add: db_inv_def Let_def)
  then show ?thesis
    using assms
    by (auto simp: db_inv_def release_one_def Let_def close_pool_def split: option.splits if_splits)
qed

lemma remove_session_inv: "db_inv s \<Longrightarrow> db_inv (upd_db (remove_session w) s)"
  using sessions.inv_evict [of "DB_STATE s" w]
  by (auto simp: db_inv_def remove_session_def Let_def close_pool_def split: if_splits)

lemma section_keeps_db_inv:
  "keeps db_inv write_db_state"
  "keeps db_inv (release_session w)"
  "keeps db_inv (release_if_generation w g)"
  "keeps db_inv (modify (upd_db (remove_session w)))"
  "keeps db_inv (set_database_path p)"
  by (auto simp: keeps_def release_session_def release_if_generation_def set_database_path_def
      proc_simps remove_session_inv split: prod.splits option.splits intro: release_one_inv)
     (auto simp: db_inv_def Let_def counts_positive_def)

text \<open>
  The first section of \<open>unlock_wallet\<close>: it fails with the state as it was, or leaves the pool
  open on \<open>path\<close> with one more count. The branch that closes another idle pool is never taken
  from a state that satisfies the invariant: an open pool means a counted wallet.
\<close>

lemma shared_pool_OkE:
  assumes "shared_pool M path s = (Inr pool, t)" "db_inv s"
    "\<forall>db. db_open (DB_STATE s) = Some db \<longrightarrow> db_file db = path"
  shows "DB_STATE t = (DB_STATE s)\<lparr>db_open := Some \<lparr>db_pool = pool, db_file = path\<rparr>\<rparr> \<and>
    SCAN_STATE t = SCAN_STATE s \<and> db_poisoned t = db_poisoned s \<and>
    scan_poisoned t = scan_poisoned s \<and> cells t = cells s \<and> MAINT_HELD t = MAINT_HELD s \<and>
    (\<forall>db. db_open (DB_STATE s) = Some db \<longrightarrow> db = \<lparr>db_pool = pool, db_file = path\<rparr>)"
proof (cases "db_open (DB_STATE s)")
  case None
  with assms(1) obtain s' where "open_pool M path s = (Inr pool, s')"
    "t = upd_db (\<lambda>d. d\<lparr>db_open := Some \<lparr>db_pool = pool, db_file = path\<rparr>\<rparr>) s'"
    by (auto simp: shared_pool_def proc_simps split: prod.splits sum.splits)
  moreover from this(1) have "same_globals s s'"
    by (rule world_onlyD [OF open_pool_world_only(2)])
  ultimately show ?thesis using None by (simp add: same_globalsD upd_db_def)
next
  case (Some db)
  with assms show ?thesis
    by (cases db) (auto simp: shared_pool_def proc_simps)
qed

lemma shared_pool_ErrE:
  "shared_pool M path s = (Inl e, t) \<Longrightarrow> same_globals s t"
  using world_onlyD [OF open_pool_world_only(2)]
  by (fastforce simp: shared_pool_def proc_simps split: prod.splits sum.splits option.splits)

lemma unlock_begin_ErrD:
  assumes "unlock_begin M path w s = (Inl e, t)" "db_inv s"
  shows "same_globals s t"
  using assms
  by (auto simp: unlock_begin_def close_other_pool_def proc_simps db_inv_def Let_def
      split: prod.splits sum.splits option.splits if_splits dest: shared_pool_ErrE)

lemma unlock_begin_OkE:
  assumes "unlock_begin M path w s = (Inr (pool, g), t)" "db_inv s"
  obtains d where
    "d = (DB_STATE s)\<lparr>db_open := Some \<lparr>db_pool = pool, db_file = path\<rparr>, db_path := Some path\<rparr>"
    "acquire_session w d = (g, DB_STATE t)"
    "\<forall>db. db_open (DB_STATE s) = Some db \<longrightarrow> db = \<lparr>db_pool = pool, db_file = path\<rparr>"
    "SCAN_STATE t = SCAN_STATE s" "db_poisoned t = db_poisoned s" "\<not> db_poisoned s"
    "scan_poisoned t = scan_poisoned s" "cells t = cells s" "MAINT_HELD t = MAINT_HELD s"
proof -
  have np: "\<not> db_poisoned s"
    and same: "\<forall>db. db_open (DB_STATE s) = Some db \<longrightarrow> db_file db = path"
    using assms by (auto simp: unlock_begin_def close_other_pool_def proc_simps db_inv_def Let_def
        split: if_splits option.splits)
  then have "close_other_pool path s = (Inr (), s)"
    by (auto simp: close_other_pool_def proc_simps split: option.splits)
  with assms(1) np obtain s' where s': "shared_pool M path s = (Inr pool, s')"
    and acq: "acquire_session w ((DB_STATE s')\<lparr>db_path := Some path\<rparr>) = (g, DB_STATE t)"
    and t: "t = s'\<lparr>DB_STATE := DB_STATE t\<rparr>"
    by (auto simp: unlock_begin_def proc_simps upd_db_def split: prod.splits sum.splits)
  from shared_pool_OkE [OF s' assms(2) same] t have
    "SCAN_STATE t = SCAN_STATE s \<and> db_poisoned t = db_poisoned s \<and> scan_poisoned t = scan_poisoned s \<and>
     cells t = cells s \<and> MAINT_HELD t = MAINT_HELD s"
    by (metis bridge.select_convs(2-4,6,8) bridge.surjective bridge.update_convs(1))
  then show thesis
    using that [OF refl] acq shared_pool_OkE [OF s' assms(2) same] np by auto
qed

end
