(* ===== verification/Session_Laws.thy ===== *)
theory Session_Laws
  imports Session_Counts
begin

text \<open>
  What the crate relies on of minotari's key sessions, as a predicate on the interface, and
  the results about \<open>unlock_wallet\<close>, \<open>lock_wallet\<close> and \<open>force_lock_wallet\<close> run without
  interference. A small concrete minotari shows that the laws can hold; the witnesses
  evaluate on it.
\<close>

section \<open>The laws of key sessions\<close>

text \<open>
  \<open>has wd w\<close>: in \<open>wd\<close> there is a key session of wallet \<open>w\<close>. \<open>is_unlocked\<close> tells the truth when
  it answers; a successful \<open>unlock\<close> leaves a session, a failed one changes no session, and no
  unlock touches another wallet's; \<open>lock\<close> drops this wallet's session and no other; opening
  a pool and expiring reservations do not touch sessions.
\<close>

definition session_laws ::
  "('w, 'p, 'c, 'a, 'm) minotari_scheme \<Rightarrow> ('w \<Rightarrow> rstring \<Rightarrow> bool) \<Rightarrow> bool" where
  "session_laws M has \<longleftrightarrow>
     (\<forall>c w wd b. session_is_unlocked M c w wd = Inr b \<longrightarrow> b = has wd w) \<and>
     (\<forall>c w pw wd wd'. session_unlock M c w pw wd = (Inr (), wd') \<longrightarrow> has wd' w) \<and>
     (\<forall>c w pw wd e wd'. session_unlock M c w pw wd = (Inl e, wd') \<longrightarrow> has wd' = has wd) \<and>
     (\<forall>c w pw wd v. v \<noteq> w \<longrightarrow> has (snd (session_unlock M c w pw wd)) v = has wd v) \<and>
     (\<forall>w wd v. has (session_lock M w wd) v = (v \<noteq> w \<and> has wd v)) \<and>
     (\<forall>p wd. has (snd (init_db M p wd)) = has wd) \<and>
     (\<forall>c i wd. has (snd (expire_and_unlock_pending_transaction M c i wd)) = has wd)"

lemma laws_is_unlocked:
  "session_laws M has \<Longrightarrow> session_is_unlocked M c w wd = Inr b \<Longrightarrow> b = has wd w"
  unfolding session_laws_def by (elim conjE) blast

lemma laws_unlock_ok:
  "session_laws M has \<Longrightarrow> session_unlock M c w pw wd = (Inr (), wd') \<Longrightarrow> has wd' w"
  unfolding session_laws_def by (elim conjE) blast

lemma laws_unlock_err:
  "session_laws M has \<Longrightarrow> session_unlock M c w pw wd = (Inl e, wd') \<Longrightarrow> has wd' = has wd"
  unfolding session_laws_def by (elim conjE) blast

lemma laws_unlock_other:
  assumes "session_laws M has" "v \<noteq> w" "session_unlock M c w pw wd = (r, wd')"
  shows "has wd' v = has wd v"
proof -
  from assms(1,2) have "has (snd (session_unlock M c w pw wd)) v = has wd v"
    unfolding session_laws_def by (elim conjE) blast
  with assms(3) show ?thesis by simp
qed

lemma laws_lock: "session_laws M has \<Longrightarrow> has (session_lock M w wd) v = (v \<noteq> w \<and> has wd v)"
  by (simp add: session_laws_def)

lemma laws_other_calls:
  "session_laws M has \<Longrightarrow> has (snd (init_db M p wd)) = has wd"
  "session_laws M has \<Longrightarrow> has (snd (expire_and_unlock_pending_transaction M c i wd)) = has wd"
  by (simp_all add: session_laws_def)

text \<open>A concrete minotari: every wallet has the passphrase \<open>pw\<close>, the sessions are a set.\<close>

definition example_minotari :: "(rstring set, unit, unit, unit) minotari" where
  "example_minotari =
     \<lparr>init_db = (\<lambda>_ wd. (Inr (), wd)),
      pool_get = (\<lambda>_ _. Inr ()),
      session_is_unlocked = (\<lambda>_ w wd. Inr (w \<in> wd)),
      session_unlock = (\<lambda>_ w pw wd.
        if pw = lit ''pw'' then (Inr (), insert w wd)
        else (Inl \<lparr>db_kind = DbDecryptionFailed, db_text = lit ''bad''\<rparr>, wd)),
      session_lock = (\<lambda>w wd. wd - {w}),
      get_account_by_name = (\<lambda>_ _ _. Inr (Some ())),
      verify_passphrase = (\<lambda>_ pw.
        if pw = lit ''pw'' then Inr ()
        else Inl \<lparr>db_kind = DbDecryptionFailed, db_text = lit ''bad''\<rparr>),
      find_expired_pending_transactions = (\<lambda>_ _. Inr []),
      expire_and_unlock_pending_transaction = (\<lambda>_ _ wd. (Inr False, wd)),
      wal_checkpoint_truncate = (\<lambda>_ wd. (Inr 0, wd))\<rparr>"

lemma example_minotari_simps [simp]:
  "init_db example_minotari p wd = (Inr (), wd)"
  "pool_get example_minotari u wd = Inr ()"
  "session_is_unlocked example_minotari u w wd = Inr (w \<in> wd)"
  "session_unlock example_minotari u w pw wd =
     (if pw = lit ''pw'' then (Inr (), insert w wd)
      else (Inl \<lparr>db_kind = DbDecryptionFailed, db_text = lit ''bad''\<rparr>, wd))"
  "session_lock example_minotari w wd = wd - {w}"
  "get_account_by_name example_minotari u w wd = Inr (Some ())"
  "verify_passphrase example_minotari u pw =
     (if pw = lit ''pw'' then Inr ()
      else Inl \<lparr>db_kind = DbDecryptionFailed, db_text = lit ''bad''\<rparr>)"
  "find_expired_pending_transactions example_minotari u wd = Inr []"
  "expire_and_unlock_pending_transaction example_minotari u i wd = (Inr False, wd)"
  by (simp_all add: example_minotari_def)

lemma example_session_laws: "session_laws example_minotari (\<lambda>wd w. w \<in> wd)"
  by (auto simp: session_laws_def split: if_splits)

abbreviation example_start :: "(rstring set, unit) bridge" where
  "example_start \<equiv> init_bridge {}"

text \<open>A state with wallet \<open>w\<close> unlocked once.\<close>

definition example_unlocked :: "(rstring set, unit) bridge" where
  "example_unlocked = (init_bridge {lit ''w''})
     \<lparr>DB_STATE := \<lparr>db_path = Some (lit ''db''),
        db_open = Some \<lparr>db_pool = (), db_file = lit ''db''\<rparr>,
        db_sessions = fmupd (lit ''w'') \<lparr>sess_count = 1, sess_generation = 0\<rparr> fmempty,
        next_generation = 1\<rparr>\<rparr>"

lemma example_unlocked_ok:
  "db_inv example_unlocked" "\<not> db_poisoned example_unlocked" "\<not> scan_poisoned example_unlocked"
  by (auto simp: example_unlocked_def db_inv_def counts_positive_def init_bridge_def Let_def
      split: if_splits)

section \<open>What a session check of the model means\<close>

lemma check_and_unlock_has:
  assumes "session_laws M has" "check_and_unlock M conn w pw s = (Inr (), t)"
  shows "has (world t) w"
  using assms(2)
  by (auto simp: check_and_unlock_def check_is_unlocked_def verify_stored_def unlock_session_def
      on_world_def proc_simps split: prod.splits sum.splits if_splits
      dest: laws_is_unlocked [OF assms(1)] laws_unlock_ok [OF assms(1)] dest!: map_err_eq_InrE)

text \<open>The passphrase given was accepted: by a fresh unlock, or against the stored account.\<close>

definition passphrase_accepted ::
  "('w, 'p, 'c, 'a, 'm) minotari_scheme \<Rightarrow> rstring \<Rightarrow> rstring \<Rightarrow> bool" where
  "passphrase_accepted M w pw \<longleftrightarrow>
     (\<exists>conn wd. fst (session_unlock M conn w pw wd) = Inr ()) \<or>
     (\<exists>conn wd account. get_account_by_name M conn w wd = Inr (Some account) \<and>
        verify_passphrase M account pw = Inr ())"

lemma check_and_unlock_accepted:
  assumes "check_and_unlock M conn w pw s = (Inr (), t)"
  shows "passphrase_accepted M w pw"
  using assms
  by (auto simp: check_and_unlock_def check_is_unlocked_def verify_stored_def unlock_session_def
      on_world_def proc_simps passphrase_accepted_def res_then_def ok_or_def
      split: prod.splits sum.splits if_splits option.splits dest!: map_err_eq_InrE)
     (metis fst_conv)+

section \<open>Unlocking\<close>

lemma cancel_wallet_scans_DB:
  "cancel_wallet_scans w s = (r, t) \<Longrightarrow> DB_STATE t = DB_STATE s \<and> world t = world s"
  by (auto dest: scan_sections_frame(3))

lemma lock_session_gate_held_DB:
  "lock_session_gate_held M w s = (r, t) \<Longrightarrow> DB_STATE t = DB_STATE s"
  by (auto simp: lock_session_gate_held_def lock_and_cancel_def proc_simps
      split: if_splits prod.splits sum.splits dest!: cancel_wallet_scans_DB)

lemma acquire_session_entry:
  "acquire_session w d = (g, d') \<Longrightarrow>
    fmlookup (db_sessions d') w \<noteq> None \<and> session_generation w d' = Some g \<and>
    db_open d' = db_open d \<and> db_path d' = db_path d"
  by (auto simp: acquire_session_def Let_def session_generation_def)

lemma acquire_release:
  assumes "counts_positive d" "held_count d w < 2 ^ 32 - 1"
    and "acquire_session w d = (g, d')" "release_one w d' = (z, d'')"
  shows "db_sessions d'' = db_sessions d"
    "db_open d'' = (if db_sessions d = fmempty then None else db_open d)"
proof -
  have restore: "sat_sub (sat_add x 1) 1 = x" if "unat x < 2 ^ 32 - 1" for x :: u32
    using that by (subst word_unat_eq_iff) (simp add: unat_sat_sub unat_sat_add)
  have "db_sessions d'' = db_sessions d \<and>
    db_open d'' = (if db_sessions d = fmempty then None else db_open d)"
  proof (cases "fmlookup (db_sessions d) w")
    case None
    then have "fmdrop w (db_sessions d) = db_sessions d" by (rule fmdrop_absent)
    with None restore [of 0] assms(3,4) show ?thesis
      by (auto simp: acquire_session_def release_one_def Let_def close_pool_def fmdrop_fmupd)
  next
    case (Some se)
    with assms(1,2) have c: "0 < unat (sess_count se)" "unat (sess_count se) < 2 ^ 32 - 1"
      by (auto simp: counts_positive_def held_count_def)
    have "fmupd w se (db_sessions d) = db_sessions d"
      using Some by (intro fmap_ext) auto
    with Some c restore [of "sess_count se"] assms(3,4) show ?thesis
      by (auto simp: acquire_session_def release_one_def Let_def word_less_nat_alt)
  qed
  then show "db_sessions d'' = db_sessions d"
    "db_open d'' = (if db_sessions d = fmempty then None else db_open d)" by simp_all
qed

lemma unlock_wallet_Ok:
  assumes "session_laws M has" and "unlock_wallet env M path w pw s = (Inr (), t)"
  shows "passphrase_accepted M w pw \<and> has (world t) w \<and>
    fmlookup (db_sessions (DB_STATE t)) w \<noteq> None"
proof -
  from assms(2) obtain pool g s' where check: "unlock_check M pool w pw s' = (Inr (), t)"
    and counted: "session_generation w (DB_STATE t) = Some g"
    by (auto simp: unlock_wallet_def hold_gate_def confirm_still_counted_def still_counted_def
        proc_simps split: prod.splits sum.splits if_splits)
  from check obtain conn u where "check_and_unlock M conn w pw u = (Inr (), t)"
    by (auto simp: unlock_check_def elim!: and_then_OkE)
  then show ?thesis
    using check_and_unlock_has [OF assms(1)] check_and_unlock_accepted counted
    by (fastforce simp: session_generation_def)
qed



text \<open>
  C17 (error): an unlock that fails adds nothing. Run without interference, it leaves every
  wallet's open count and the pool as they were (only the recorded path may have changed).
  The bound is real: at \<open>2 ^ 32 - 1\<close> holders the count saturates.
\<close>

theorem failed_unlock_adds_nothing:
  assumes "db_inv s" and "held_count (DB_STATE s) w < 2 ^ 32 - 1"
    and "unlock_wallet alone M path w pw s = (Inl e, t)"
  shows "db_sessions (DB_STATE t) = db_sessions (DB_STATE s) \<and>
    db_open (DB_STATE t) = db_open (DB_STATE s)"
proof (cases "unlock_begin M path w s")
  case (Pair r s1)
  show ?thesis
  proof (cases r)
    case (Inl e')
    with Pair assms(3) have "s1 = t" by (simp add: unlock_wallet_def proc_simps)
    then show ?thesis
      using unlock_begin_ErrD [of M path w s] Pair Inl assms(1) by (auto dest: same_globalsD(1))
  next
    case (Inr pg)
    obtain pool g where pg: "pg = (pool, g)" by (cases pg)
    let ?d = "(DB_STATE s)\<lparr>db_open := Some \<lparr>db_pool = pool, db_file = path\<rparr>, db_path := Some path\<rparr>"
    from Pair Inr pg assms(1) have acq: "acquire_session w ?d = (g, DB_STATE s1)"
      and s1: "\<not> db_poisoned s1"
        "\<forall>db. db_open (DB_STATE s) = Some db \<longrightarrow> db = \<lparr>db_pool = pool, db_file = path\<rparr>"
      by (auto elim!: unlock_begin_OkE)
    obtain r2 s2 where check: "unlock_check M pool w pw s1 = (r2, s2)"
      by (cases "unlock_check M pool w pw s1")
    then have "same_globals s1 s2" by (rule world_onlyD [OF unlock_check_world_only])
    then have s2: "DB_STATE s2 = DB_STATE s1" "\<not> db_poisoned s2"
      using s1 by (simp_all add: same_globalsD)
    have counted: "session_generation w (DB_STATE s1) = Some g"
      using acquire_session_entry [OF acq] by simp
    obtain z d' where rel: "release_one w (DB_STATE s1) = (z, d')"
      by (cases "release_one w (DB_STATE s1)")
    have t: "DB_STATE t = d'"
      using assms(3) Pair Inr pg check s2 counted rel
      by (auto simp: unlock_wallet_def hold_gate_def confirm_still_counted_def still_counted_def
          release_failed_unlock_def release_if_generation_def proc_simps
          split: sum.splits prod.splits if_splits dest: lock_session_gate_held_DB)
    have "counts_positive ?d" "held_count ?d w < 2 ^ 32 - 1"
      using assms(1,2) by (auto simp: db_inv_def Let_def counts_positive_def held_count_def)
    from acquire_release [OF this acq rel] t show ?thesis
      using assms(1) s1(2) by (auto simp: db_inv_def Let_def)
  qed
qed

theorem failed_unlock_adds_nothing_witness:
  "db_sessions (DB_STATE (snd (unlock_wallet alone example_minotari (lit ''db'') (lit ''w'')
     (lit ''no'') example_start))) = db_sessions (DB_STATE example_start) \<and>
   db_open (DB_STATE (snd (unlock_wallet alone example_minotari (lit ''db'') (lit ''w'')
     (lit ''no'') example_start))) = db_open (DB_STATE example_start)"
proof (rule failed_unlock_adds_nothing)
  show "db_inv example_start" by (rule db_inv_init)
  show "held_count (DB_STATE example_start) (lit ''w'') < 2 ^ 32 - 1"
    by (simp add: held_count_def init_bridge_def init_DbState_def)
  show "unlock_wallet alone example_minotari (lit ''db'') (lit ''w'') (lit ''no'') example_start =
    (Inl (Wallet_Err InvalidPassphrase), snd (unlock_wallet alone example_minotari (lit ''db'')
      (lit ''w'') (lit ''no'') example_start))"
    by (simp add: unlock_wallet_def unlock_begin_def close_other_pool_def shared_pool_def
        open_pool_def init_pool_def release_expired_reservations_def acquire_session_def
        hold_gate_def unlock_check_def get_conn_def check_and_unlock_def check_is_unlocked_def
        unlock_session_def release_failed_unlock_def release_if_generation_def release_one_def
        lock_session_gate_held_def holder_counted_def lock_and_cancel_def cancel_wallet_scans_def
        session_generation_def on_world_def upd_db_def init_bridge_def init_DbState_def
        init_ScanState_def sat_sub_def sat_add_def proc_simps Let_def)
qed

section \<open>Locking\<close>

lemma lock_and_cancel_eval:
  assumes "\<not> scan_poisoned s"
  shows "\<exists>t. lock_and_cancel M w s = (Inr True, t) \<and>
    world t = session_lock M w (world s) \<and> DB_STATE t = DB_STATE s \<and>
    cells t = cells s \<union> ctl_token ` {c. fmlookup (running (SCAN_STATE s)) w = Some c} \<and>
    running (SCAN_STATE t) = running (SCAN_STATE s) \<and>
    (\<forall>i. fmlookup (starting (SCAN_STATE t)) i \<noteq> Some w) \<and>
    scan_poisoned t = scan_poisoned s \<and> db_poisoned t = db_poisoned s \<and>
    MAINT_HELD t = MAINT_HELD s \<and> maint_poisoned t = maint_poisoned s"
  using cancel_wallet_scans_eval [of "s\<lparr>world := session_lock M w (world s)\<rparr>" w] assms
  by (auto simp: lock_and_cancel_def proc_simps)

text \<open>What remains of a wallet's scans when its session was locked: none can run on.\<close>

definition scans_cancelled :: "rstring \<Rightarrow> ('w, 'p) bridge \<Rightarrow> bool" where
  "scans_cancelled w s \<longleftrightarrow>
     (\<forall>c. fmlookup (running (SCAN_STATE s)) w = Some c \<longrightarrow> is_set (ctl_token c) s) \<and>
     (\<forall>i. fmlookup (starting (SCAN_STATE s)) i \<noteq> Some w)"

lemma stop_wallet_scans_alone:
  assumes "\<not> scan_poisoned s"
  shows "\<exists>t. stop_wallet_scans alone w s = (Inr (), t) \<and> world t = world s \<and>
    DB_STATE t = DB_STATE s \<and> scans_cancelled w t \<and> cells s \<subseteq> cells t \<and>
    \<not> scan_poisoned t \<and> db_poisoned t = db_poisoned s \<and> MAINT_HELD t = MAINT_HELD s \<and>
    maint_poisoned t = maint_poisoned s"
  using cancel_wallet_scans_eval [OF assms, of w] assms
  by (auto simp: stop_wallet_scans_def proc_simps scans_cancelled_def is_set_def
      split: option.splits)

lemma stop_wallet_scans_alone_Ok:
  assumes "stop_wallet_scans alone w s = (Inr (), t)"
  shows "scans_cancelled w t \<and> MAINT_HELD t = MAINT_HELD s \<and> world t = world s \<and> DB_STATE t = DB_STATE s"
proof -
  have "\<not> scan_poisoned s"
    using assms by (auto simp: stop_wallet_scans_def cancel_wallet_scans_def proc_simps split: if_splits)
  from stop_wallet_scans_alone [OF this, of w] assms show ?thesis by auto
qed

lemma blocking_alone [simp]: "blocking alone m = m"
  by (simp add: blocking_def fun_eq_iff proc_simps)

lemma with_maintenance_alone_Ok:
  assumes "with_maintenance alone w body s = (Inr x, t)"
  obtains s' where "body (s\<lparr>MAINT_HELD := insert w (MAINT_HELD s)\<rparr>) = (Inr x, s')" "t = end_maintenance w s'"
  using assms
  by (auto simp: with_maintenance_def begin_maintenance_def maintenance_lock_def proc_simps
      split: if_splits prod.splits)

lemma lock_session_alone:
  assumes "\<not> scan_poisoned s" "fmlookup (db_sessions (DB_STATE s)) w = None"
  shows "\<exists>t. lock_session_unless_held_async alone M w s = (Inr True, t) \<and>
    world t = session_lock M w (world s) \<and> DB_STATE t = DB_STATE s \<and>
    \<not> scan_poisoned t \<and> db_poisoned t = db_poisoned s \<and> MAINT_HELD t = MAINT_HELD s \<and>
    maint_poisoned t = maint_poisoned s"
  using lock_and_cancel_eval [OF assms(1), of M w] assms
  by (auto simp: lock_session_unless_held_async_def lock_session_unless_held_def blocking_def
      hold_gate_def lock_session_gate_held_def holder_counted_def proc_simps)

text \<open>
  C18 (functional): \<open>lock_wallet\<close> takes one off the wallet's count and returns whether that
  was the last. At the last one the session is locked and every scan of the wallet is
  cancelled, running or about to start; otherwise neither the sessions nor the scans change.
\<close>

theorem lock_wallet_last:
  assumes "session_laws M has" and "db_inv s" and "\<not> db_poisoned s" and "\<not> scan_poisoned s"
  shows "\<exists>t. lock_wallet alone M w s = (Inr (held_count (DB_STATE s) w = 1), t) \<and>
    held_count (DB_STATE t) = (held_count (DB_STATE s))(w := held_count (DB_STATE s) w - 1) \<and>
    (if held_count (DB_STATE s) w = 1 then \<not> has (world t) w \<and> scans_cancelled w t
     else world t = world s \<and> SCAN_STATE t = SCAN_STATE s \<and> cells t = cells s)"
proof (cases "release_one w (DB_STATE s)")
  case (Pair z d)
  let ?s = "s\<lparr>DB_STATE := d\<rparr>"
  have pos: "counts_positive (DB_STATE s)" using assms(2) by (simp add: db_inv_def Let_def)
  have z: "z \<longleftrightarrow> held_count (DB_STATE s) w = 1"
    using sessions.release_last [OF pos, of w] Pair by simp
  have d: "held_count d = (held_count (DB_STATE s))(w := held_count (DB_STATE s) w - 1)"
    "counts_positive d"
    using sessions.release_held [OF pos, of w] sessions.inv_release [OF pos, of w] Pair by simp_all
  show ?thesis
  proof (cases z)
    case False
    with Pair assms(3) z d show ?thesis
      by (auto simp: lock_wallet_def release_session_def proc_simps)
  next
    case True
    with z d have "fmlookup (db_sessions (DB_STATE ?s)) w = None"
      using held_count_0 [OF d(2), of w] by simp
    with assms(4) obtain t where t: "lock_session_unless_held_async alone M w ?s = (Inr True, t)"
        "world t = session_lock M w (world s)" "DB_STATE t = d" "\<not> scan_poisoned t"
      using lock_session_alone [of ?s w M] by auto
    obtain u where u: "stop_wallet_scans alone w t = (Inr (), u)" "world u = world t"
        "DB_STATE u = DB_STATE t" "scans_cancelled w u"
      using stop_wallet_scans_alone [OF t(4), of w] by blast
    have "lock_wallet alone M w s = (Inr True, u)"
      using Pair True assms(3) t(1) u(1) by (simp add: lock_wallet_def release_session_def proc_simps)
    with True z d t u show ?thesis
      by (auto simp: laws_lock [OF assms(1)])
  qed
qed

theorem lock_wallet_last_witness:
  "\<exists>t. lock_wallet alone example_minotari (lit ''w'') example_unlocked =
      (Inr (held_count (DB_STATE example_unlocked) (lit ''w'') = 1), t) \<and>
    held_count (DB_STATE t) = (held_count (DB_STATE example_unlocked))
      (lit ''w'' := held_count (DB_STATE example_unlocked) (lit ''w'') - 1) \<and>
    (if held_count (DB_STATE example_unlocked) (lit ''w'') = 1
     then lit ''w'' \<notin> world t \<and> scans_cancelled (lit ''w'') t
     else world t = world example_unlocked \<and> SCAN_STATE t = SCAN_STATE example_unlocked \<and>
       cells t = cells example_unlocked)"
  by (rule lock_wallet_last [OF example_session_laws example_unlocked_ok])

lemma lock_everywhere_alone:
  assumes "session_laws M has" and "db_inv s" and "\<not> db_poisoned s" and "\<not> scan_poisoned s"
  shows "\<exists>t. lock_wallet_everywhere alone M w s = (Inr (), t) \<and>
    held_count (DB_STATE t) = (held_count (DB_STATE s))(w := 0) \<and>
    \<not> has (world t) w \<and> scans_cancelled w t \<and> db_inv t \<and>
    \<not> db_poisoned t \<and> \<not> scan_poisoned t \<and> MAINT_HELD t = MAINT_HELD s \<and>
    maint_poisoned t = maint_poisoned s \<and>
    (db_open (DB_STATE t) = None \<longleftrightarrow> (\<forall>v. v \<noteq> w \<longrightarrow> held_count (DB_STATE s) v = 0))"
proof -
  let ?s = "upd_db (remove_session w) s"
  have pos: "counts_positive (DB_STATE s)" using assms(2) by (simp add: db_inv_def Let_def)
  have held: "held_count (DB_STATE ?s) = (held_count (DB_STATE s))(w := 0)"
    "counts_positive (DB_STATE ?s)"
    using sessions.evict_held [OF pos, of w] sessions.inv_evict [OF pos, of w] by simp_all
  then have none: "fmlookup (db_sessions (DB_STATE ?s)) w = None"
    using held_count_0 [of "DB_STATE ?s" w] by simp
  obtain t where t: "lock_session_unless_held_async alone M w ?s = (Inr True, t)"
      "world t = session_lock M w (world s)" "DB_STATE t = DB_STATE ?s" "\<not> scan_poisoned t"
      "db_poisoned t = db_poisoned ?s" "MAINT_HELD t = MAINT_HELD ?s" "maint_poisoned t = maint_poisoned ?s"
    using lock_session_alone [OF _ none, of M] assms(4) by auto
  obtain u where u: "stop_wallet_scans alone w t = (Inr (), u)" "world u = world t"
      "DB_STATE u = DB_STATE t" "scans_cancelled w u" "\<not> scan_poisoned u" "db_poisoned u = db_poisoned t"
      "MAINT_HELD u = MAINT_HELD t" "maint_poisoned u = maint_poisoned t"
    using stop_wallet_scans_alone [OF t(4), of w] by blast
  have inv: "db_inv ?s" by (rule remove_session_inv [OF assms(2)])
  then have "db_open (DB_STATE ?s) = None \<longleftrightarrow> (\<forall>v. held_count (DB_STATE ?s) v = 0)"
    using held_count_0 [OF held(2)] by (auto simp: db_inv_def Let_def intro: fmap_ext)
  moreover have "lock_wallet_everywhere alone M w s = (Inr (), u)"
    using t(1) u(1) assms(3) by (simp add: lock_wallet_everywhere_def proc_simps)
  moreover have "db_inv u" using inv t(3) u(3) by (simp add: db_inv_def)
  ultimately show ?thesis
    using t u held assms(3) by (auto simp: laws_lock [OF assms(1)] upd_db_def)
qed

text \<open>
  C19 (safety): \<open>force_lock_wallet\<close> locks the wallet for every holder at once: no count is
  left, the session is locked, the wallet's scans are cancelled, other wallets keep their
  counts, and the pool closes when no other wallet is counted.
\<close>

theorem force_lock_everyone:
  assumes "session_laws M has" and "db_inv s" and "\<not> db_poisoned s" and "\<not> scan_poisoned s"
  shows "\<exists>t. force_lock_wallet alone M w s = (Inr (), t) \<and>
    held_count (DB_STATE t) = (held_count (DB_STATE s))(w := 0) \<and>
    \<not> has (world t) w \<and> scans_cancelled w t \<and>
    (db_open (DB_STATE t) = None \<longleftrightarrow> (\<forall>v. v \<noteq> w \<longrightarrow> held_count (DB_STATE s) v = 0))"
  using lock_everywhere_alone [OF assms, of w] by (auto simp: force_lock_wallet_def)

theorem force_lock_everyone_witness:
  "\<exists>t. force_lock_wallet alone example_minotari (lit ''w'') example_unlocked = (Inr (), t) \<and>
    held_count (DB_STATE t) = (held_count (DB_STATE example_unlocked))(lit ''w'' := 0) \<and>
    lit ''w'' \<notin> world t \<and> scans_cancelled (lit ''w'') t \<and>
    (db_open (DB_STATE t) = None \<longleftrightarrow>
      (\<forall>v. v \<noteq> lit ''w'' \<longrightarrow> held_count (DB_STATE example_unlocked) v = 0))"
  by (rule force_lock_everyone [OF example_session_laws example_unlocked_ok])

text \<open>
  C21 (refinement): the open counts are abstract counters. Any sequence of unlocks, locks and
  force locks (their sections on the state) leaves each wallet with the count that adding,
  subtracting and clearing gives, as long as no count reaches \<open>2 ^ 32 - 1\<close>.
\<close>

theorem open_counts_refine:
  assumes "counts_positive d" and "\<forall>w. held_count d w + length ops \<le> 2 ^ 32 - 1"
  shows "held_count (foldl (\<lambda>d op. case op of Acquire w \<Rightarrow> snd (acquire_session w d)
      | Release w \<Rightarrow> snd (release_one w d) | Evict w \<Rightarrow> remove_session w d) d ops) =
    foldl count_step (held_count d) ops"
  using sessions.run_refines [OF assms] by simp

theorem open_counts_refine_witness:
  "held_count (foldl (\<lambda>d op. case op of Acquire w \<Rightarrow> snd (acquire_session w d)
      | Release w \<Rightarrow> snd (release_one w d) | Evict w \<Rightarrow> remove_session w d)
      (init_DbState :: nat DbState) [Acquire (lit ''a''), Acquire (lit ''a''), Release (lit ''a'')]) =
    foldl count_step (held_count (init_DbState :: nat DbState))
      [Acquire (lit ''a''), Acquire (lit ''a''), Release (lit ''a'')]"
  by (rule open_counts_refine)
     (simp_all add: counts_positive_def held_count_def init_DbState_def)

section \<open>Using a session\<close>

text \<open>
  What was read with the keys is used only if the session was still there after
  reading. \<open>with_session\<close> returns a value only when the read gave it and the key session is
  open in the state after it; when the session is gone, whatever the read gave (an error, or
  a result of minotari's fallback to the empty passphrase) is dropped for \<open>Wallet is locked\<close>.
\<close>

theorem key_read_fails_closed:
  assumes "session_laws M has" and "read_keys s = (result, u)"
    and "with_session M conn w read_keys s = (r, t)"
  shows "t = u \<and> (\<forall>x. r = Inr x \<longrightarrow> result = Inr x \<and> has (world t) w) \<and>
    (session_is_unlocked M conn w (world u) = Inr False \<longrightarrow> r = Inl (Wallet_Err Locked))"
  using assms(2,3) laws_is_unlocked [OF assms(1), of conn w "world u"]
  by (cases "session_is_unlocked M conn w (world u)")
     (auto simp: with_session_def is_unlocked_def proc_simps split: if_splits)

theorem key_read_fails_closed_witness:
  "with_session example_minotari () (lit ''w'')
     (\<lambda>s. (Inr (lit ''stale''), s\<lparr>world := {}\<rparr>)) example_unlocked =
   (Inl (Wallet_Err Locked), example_unlocked\<lparr>world := {}\<rparr>)"
proof -
  let ?read = "\<lambda>s. (Inr (lit ''stale''), s\<lparr>world := {}\<rparr>)"
  obtain r t where run: "with_session example_minotari () (lit ''w'') ?read example_unlocked = (r, t)"
    by (cases "with_session example_minotari () (lit ''w'') ?read example_unlocked")
  from key_read_fails_closed [OF example_session_laws refl run] run show ?thesis by simp
qed

end
