(* ===== verification/Session_Interleaving.thy ===== *)
theory Session_Interleaving
  imports Session_Laws
begin

text \<open>
  Many threads and both engines at once on the sessions of \<open>src/api/db.rs\<close>: any number of
  \<open>unlock_wallet\<close>, \<open>lock_wallet\<close> and \<open>force_lock_wallet\<close> calls, interleaved at every guard,
  gate and minotari call. A task's state says which section of its function comes next;
  \<open>advance\<close> runs that section, with the definitions of \<open>Db\<close>.
\<close>

section \<open>Tasks\<close>

text \<open>
  Why \<open>lock_session_gate_held\<close> was called, and so what its caller returns afterwards; and
  how a call ended.
\<close>

datatype lock_caller = After_Confirm | After_Release api_error | After_Lock | After_Force

datatype outcome = Unlocked u64 | Failed api_error | Lock_Returned bool | Force_Returned

datatype ('p, 'c) task =
    Unlocking rstring rstring rstring
  | Counted rstring rstring 'p u64
  | Holding rstring rstring 'p u64
  | Probing rstring rstring 'c u64
  | Verifying rstring rstring 'c u64
  | Reprobing rstring rstring 'c u64
  | Opening rstring rstring 'c u64
  | Confirming rstring u64
  | Releasing rstring u64 api_error
  | Locking rstring
  | Forcing rstring
  | Waiting rstring lock_caller
  | Deciding rstring lock_caller
  | Dropping rstring lock_caller
  | Cancelling rstring lock_caller
  | Finished rstring outcome

fun lock_outcome :: "lock_caller \<Rightarrow> bool \<Rightarrow> outcome" where
  "lock_outcome After_Confirm _ = Failed (Wallet_Err Locked)"
| "lock_outcome (After_Release e) _ = Failed e"
| "lock_outcome After_Lock locked = Lock_Returned locked"
| "lock_outcome After_Force _ = Force_Returned"

text \<open>The wallet whose gate a task waits for, and the wallet whose gate it holds.\<close>

fun waits_for :: "('p, 'c) task \<Rightarrow> rstring option" where
  "waits_for (Counted w pw pool g) = Some w"
| "waits_for (Waiting w k) = Some w"
| "waits_for _ = None"

fun enter_gate :: "('p, 'c) task \<Rightarrow> ('p, 'c) task" where
  "enter_gate (Counted w pw pool g) = Holding w pw pool g"
| "enter_gate (Waiting w k) = Deciding w k"
| "enter_gate t = t"

fun holds :: "('p, 'c) task \<Rightarrow> rstring option" where
  "holds (Holding w pw pool g) = Some w"
| "holds (Probing w pw conn g) = Some w"
| "holds (Verifying w pw conn g) = Some w"
| "holds (Reprobing w pw conn g) = Some w"
| "holds (Opening w pw conn g) = Some w"
| "holds (Confirming w g) = Some w"
| "holds (Releasing w g e) = Some w"
| "holds (Deciding w k) = Some w"
| "holds (Dropping w k) = Some w"
| "holds (Cancelling w k) = Some w"
| "holds _ = None"

definition starts :: "('p, 'c) task \<Rightarrow> bool" where
  "starts t \<longleftrightarrow> (\<exists>path w pw. t = Unlocking path w pw) \<or> (\<exists>w. t = Locking w) \<or> (\<exists>w. t = Forcing w)"

text \<open>
  The next section of a task. \<open>Probing\<close> to \<open>Opening\<close> are the minotari calls of
  \<open>check_and_unlock\<close>; \<open>Deciding\<close> to \<open>Cancelling\<close> the three steps of \<open>lock_session_gate_held\<close>,
  which reads the state, then locks the session with the state's guard released.
\<close>

fun advance ::
  "('w, 'p, 'c, 'a, 'm) minotari_scheme \<Rightarrow> ('p, 'c) task \<Rightarrow> ('w, 'p) bridge \<Rightarrow>
     ('p, 'c) task \<times> ('w, 'p) bridge" where
  "advance M (Unlocking path w pw) s =
     (case unlock_begin M path w s of
        (Inl e, s') \<Rightarrow> (Finished w (Failed e), s')
      | (Inr (pool, g), s') \<Rightarrow> (Counted w pw pool g, s'))"
| "advance M (Holding w pw pool g) s =
     (case get_conn M pool s of
        (Inl e, s') \<Rightarrow> (Releasing w g e, s')
      | (Inr conn, s') \<Rightarrow> (Probing w pw conn g, s'))"
| "advance M (Probing w pw conn g) s =
     (case check_is_unlocked M conn w s of
        (Inl e, s') \<Rightarrow> (Releasing w g e, s')
      | (Inr unlocked, s') \<Rightarrow> (if unlocked then Verifying w pw conn g else Opening w pw conn g, s'))"
| "advance M (Verifying w pw conn g) s =
     (case verify_stored M conn w pw s of
        (Inl e, s') \<Rightarrow> (Releasing w g e, s')
      | (Inr _, s') \<Rightarrow> (Reprobing w pw conn g, s'))"
| "advance M (Reprobing w pw conn g) s =
     (case check_is_unlocked M conn w s of
        (Inl e, s') \<Rightarrow> (Releasing w g e, s')
      | (Inr unlocked, s') \<Rightarrow> (if unlocked then Confirming w g else Opening w pw conn g, s'))"
| "advance M (Opening w pw conn g) s =
     (case unlock_session M conn w pw s of
        (Inl e, s') \<Rightarrow> (Releasing w g e, s')
      | (Inr _, s') \<Rightarrow> (Confirming w g, s'))"
| "advance M (Confirming w g) s =
     (case still_counted w g s of
        (Inl e, s') \<Rightarrow> (Finished w (Failed e), s')
      | (Inr counted, s') \<Rightarrow>
          (if counted then Finished w (Unlocked g) else Deciding w After_Confirm, s'))"
| "advance M (Releasing w g e) s =
     (case release_if_generation w g s of
        (Inl e', s') \<Rightarrow> (Finished w (Failed e'), s')
      | (Inr zero, s') \<Rightarrow>
          (if zero then Deciding w (After_Release e) else Finished w (Failed e), s'))"
| "advance M (Locking w) s =
     (case release_session w s of
        (Inl e, s') \<Rightarrow> (Finished w (Failed e), s')
      | (Inr zero, s') \<Rightarrow>
          (if zero then Waiting w After_Lock else Finished w (Lock_Returned False), s'))"
| "advance M (Forcing w) s =
     (case write_db_state s of
        (Inl e, s') \<Rightarrow> (Finished w (Failed e), s')
      | (Inr _, s') \<Rightarrow> (Waiting w After_Force, upd_db (remove_session w) s'))"
| "advance M (Deciding w k) s =
     (if holder_counted w s then (Finished w (lock_outcome k False), s) else (Dropping w k, s))"
| "advance M (Dropping w k) s =
     (Cancelling w k, s\<lparr>world := session_lock M w (world s)\<rparr>)"
| "advance M (Cancelling w k) s =
     (case cancel_wallet_scans w s of
        (Inl e, s') \<Rightarrow> (Finished w (Failed e), s')
      | (Inr _, s') \<Rightarrow> (Finished w (lock_outcome k True), s'))"
| "advance M t s = (t, s)"

text \<open>
  The system: any number of tasks over the one process-global state. Besides the tasks'
  sections, new calls arrive, a thread may panic while it writes the state (poisoning it),
  and other code of the crate runs, which touches neither the counts nor the sessions.
\<close>

record ('w, 'p, 'c) system =
  glob :: "('w, 'p) bridge"
  tasks :: "nat \<Rightarrow> ('p, 'c) task option"

definition put :: "nat \<Rightarrow> ('p, 'c) task \<Rightarrow> ('w, 'p, 'c) system \<Rightarrow> ('w, 'p, 'c) system" where
  "put i t y = y\<lparr>tasks := (tasks y)(i \<mapsto> t)\<rparr>"

inductive system_step ::
  "('w, 'p, 'c, 'a, 'm) minotari_scheme \<Rightarrow> ('w \<Rightarrow> rstring \<Rightarrow> bool) \<Rightarrow>
     ('w, 'p, 'c) system \<Rightarrow> ('w, 'p, 'c) system \<Rightarrow> bool" for M has where
  call: "tasks y i = None \<Longrightarrow> starts t \<Longrightarrow> system_step M has y (put i t y)"
| gate: "tasks y i = Some t \<Longrightarrow> waits_for t = Some w \<Longrightarrow>
    (\<forall>j u. tasks y j = Some u \<longrightarrow> holds u \<noteq> Some w) \<Longrightarrow>
    system_step M has y (put i (enter_gate t) y)"
| move: "tasks y i = Some t \<Longrightarrow> waits_for t = None \<Longrightarrow> advance M t (glob y) = (t', s') \<Longrightarrow>
    system_step M has y (put i t' (y\<lparr>glob := s'\<rparr>))"
| poison: "system_step M has y (y\<lparr>glob := (glob y)\<lparr>db_poisoned := True\<rparr>\<rparr>)"
| other: "DB_STATE s' = DB_STATE (glob y) \<Longrightarrow> db_poisoned s' = db_poisoned (glob y) \<Longrightarrow>
    has (world s') = has (world (glob y)) \<Longrightarrow> system_step M has y (y\<lparr>glob := s'\<rparr>)"

definition system_start :: "'w \<Rightarrow> ('w, 'p, 'c) system" where
  "system_start w = \<lparr>glob = init_bridge w, tasks = (\<lambda>_. None)\<rparr>"

section \<open>What the invariants look at\<close>

text \<open>
  Of the state, the invariants need the generation of each counted wallet, the next
  generation, the key sessions and the poison flag.
\<close>

record view =
  v_gen :: "rstring \<Rightarrow> u64 option"
  v_next :: u64
  v_has :: "rstring \<Rightarrow> bool"
  v_poisoned :: bool

definition view_of :: "('w \<Rightarrow> rstring \<Rightarrow> bool) \<Rightarrow> ('w, 'p) bridge \<Rightarrow> view" where
  "view_of has s =
     \<lparr>v_gen = (\<lambda>w. session_generation w (DB_STATE s)), v_next = next_generation (DB_STATE s),
      v_has = has (world s), v_poisoned = db_poisoned s\<rparr>"

fun task_generation :: "('p, 'c) task \<Rightarrow> u64 option" where
  "task_generation (Counted w pw pool g) = Some g"
| "task_generation (Holding w pw pool g) = Some g"
| "task_generation (Probing w pw conn g) = Some g"
| "task_generation (Verifying w pw conn g) = Some g"
| "task_generation (Reprobing w pw conn g) = Some g"
| "task_generation (Opening w pw conn g) = Some g"
| "task_generation (Confirming w g) = Some g"
| "task_generation (Releasing w g e) = Some g"
| "task_generation (Finished w (Unlocked g)) = Some g"
| "task_generation _ = None"

fun task_wallet :: "('p, 'c) task \<Rightarrow> rstring" where
  "task_wallet (Unlocking path w pw) = w"
| "task_wallet (Counted w pw pool g) = w"
| "task_wallet (Holding w pw pool g) = w"
| "task_wallet (Probing w pw conn g) = w"
| "task_wallet (Verifying w pw conn g) = w"
| "task_wallet (Reprobing w pw conn g) = w"
| "task_wallet (Opening w pw conn g) = w"
| "task_wallet (Confirming w g) = w"
| "task_wallet (Releasing w g e) = w"
| "task_wallet (Locking w) = w"
| "task_wallet (Forcing w) = w"
| "task_wallet (Waiting w k) = w"
| "task_wallet (Deciding w k) = w"
| "task_wallet (Dropping w k) = w"
| "task_wallet (Cancelling w k) = w"
| "task_wallet (Finished w r) = w"

fun confirming :: "('p, 'c) task \<Rightarrow> rstring option" where
  "confirming (Confirming w g) = Some w"
| "confirming _ = None"

fun dropping :: "('p, 'c) task \<Rightarrow> rstring option" where
  "dropping (Dropping w k) = Some w"
| "dropping _ = None"

fun unlocked_with :: "('p, 'c) task \<Rightarrow> (rstring \<times> u64) option" where
  "unlocked_with (Finished w (Unlocked g)) = Some (w, g)"
| "unlocked_with _ = None"

text \<open>A task that will still decide whether to lock its wallet's session.\<close>

fun pending :: "('p, 'c) task \<Rightarrow> rstring option" where
  "pending (Confirming w g) = Some w"
| "pending (Waiting w k) = Some w"
| "pending (Deciding w k) = Some w"
| "pending (Dropping w k) = Some w"
| "pending _ = None"

section \<open>The moves of a task\<close>

text \<open>
  What running one section does to a task and the view. \<open>quiet\<close> covers every section that
  changes neither counts nor sessions and does not decide anything.
\<close>

lemma starts_simps [simp]:
  "starts (Unlocking path w pw)" "starts (Locking w)" "starts (Forcing w)"
  "\<not> starts (Counted w pw pool g)" "\<not> starts (Holding w pw pool g)" "\<not> starts (Probing w pw conn g)"
  "\<not> starts (Verifying w pw conn g)" "\<not> starts (Reprobing w pw conn g)"
  "\<not> starts (Opening w pw conn g)" "\<not> starts (Confirming w g)" "\<not> starts (Releasing w g e)"
  "\<not> starts (Waiting w k)" "\<not> starts (Deciding w k)" "\<not> starts (Dropping w k)"
  "\<not> starts (Cancelling w k)" "\<not> starts (Finished w r)"
  by (simp_all add: starts_def)

inductive task_move :: "('p, 'c) task \<Rightarrow> view \<Rightarrow> ('p, 'c) task \<Rightarrow> view \<Rightarrow> bool" where
  count_new: "v_gen v w = None \<Longrightarrow> g = v_next v \<Longrightarrow>
    task_move (Unlocking path w pw) v (Counted w pw pool g)
      (v\<lparr>v_gen := (v_gen v)(w := Some g), v_next := g + 1\<rparr>)"
| count_join: "v_gen v w = Some g \<Longrightarrow>
    task_move (Unlocking path w pw) v (Counted w pw pool g) v"
| quiet: "task_wallet t' = task_wallet t \<Longrightarrow> (starts t' \<Longrightarrow> t' = t) \<Longrightarrow> holds t' \<in> {holds t, None} \<Longrightarrow> task_generation t' \<in> {task_generation t, None} \<Longrightarrow>
    confirming t' = None \<Longrightarrow> dropping t' = None \<Longrightarrow>
    unlocked_with t' \<in> {unlocked_with t, None} \<Longrightarrow>
    (\<And>w. pending t = Some w \<Longrightarrow> pending t' = Some w \<or> v_gen v w \<noteq> None \<or> v_poisoned v) \<Longrightarrow>
    task_move t v t' v"
| seen: "v_has v w \<Longrightarrow> task_move (Reprobing w pw conn g) v (Confirming w g) v"
| opened: "task_move (Opening w pw conn g) v (Confirming w g) (v\<lparr>v_has := (v_has v)(w := True)\<rparr>)"
| confirmed: "v_gen v w = Some g \<Longrightarrow>
    task_move (Confirming w g) v (Finished w (Unlocked g)) v"
| decided: "v_gen v w = None \<or> v_poisoned v \<Longrightarrow> task_move (Deciding w k) v (Dropping w k) v"
| dropped: "task_move (Dropping w k) v (Cancelling w k) (v\<lparr>v_has := (v_has v)(w := False)\<rparr>)"
| removed: "v_gen v w \<noteq> None \<Longrightarrow> task_wallet t' = task_wallet t \<Longrightarrow> \<not> starts t' \<Longrightarrow> holds t' \<in> {holds t, None} \<Longrightarrow> task_generation t' = None \<Longrightarrow>
    confirming t' = None \<Longrightarrow> dropping t' = None \<Longrightarrow> pending t = None \<Longrightarrow> pending t' = Some w \<Longrightarrow>
    task_move t v t' (v\<lparr>v_gen := (v_gen v)(w := None)\<rparr>)"

section \<open>Every section is such a move\<close>

lemma session_generation_simps [simp]:
  "session_generation w (d\<lparr>db_path := p\<rparr>) = session_generation w d"
  "session_generation w (d\<lparr>db_open := q\<rparr>) = session_generation w d"
  "session_generation w (close_pool d) = session_generation w d"
  by (simp_all add: session_generation_def close_pool_def)

lemma view_same_globals:
  "same_globals s t \<Longrightarrow> has (world t) = has (world s) \<Longrightarrow> view_of has t = view_of has s"
  by (simp add: view_of_def same_globalsD)

lemma acquire_view:
  assumes "acquire_session w d = (g, d')" "\<forall>g. session_generation w d = Some g \<longrightarrow> g \<noteq> next_generation d"
  shows "(session_generation w d = None \<and> g = next_generation d \<and> next_generation d' = g + 1 \<or>
      session_generation w d = Some g \<and> next_generation d' = next_generation d) \<and>
    (\<forall>v. session_generation v d' = (if v = w then Some g else session_generation v d))"
  using assms
  by (cases "fmlookup (db_sessions d) w") (auto simp: acquire_session_def session_generation_def Let_def)

lemma release_view:
  assumes "release_one w d = (z, d')"
  shows "next_generation d' = next_generation d \<and>
    (\<forall>v. session_generation v d' = (if v = w \<and> z then None else session_generation v d)) \<and>
    (z \<longrightarrow> session_generation w d \<noteq> None)"
  using assms
  by (auto simp: release_one_def session_generation_def Let_def fmdrop_empty_lookup
      split: option.splits if_splits)

lemma remove_view:
  "next_generation (remove_session w d) = next_generation d \<and>
    (\<forall>v. session_generation v (remove_session w d) = (if v = w then None else session_generation v d))"
  by (auto simp: remove_session_def session_generation_def Let_def fmdrop_empty_lookup)

lemma open_pool_has:
  assumes "session_laws M has" "open_pool M path s = (r, t)"
  shows "has (world t) = has (world s)"
proof -
  have expire: "has (world (release_expired_reservations M conn s)) = has (world s)" for conn s
  proof -
    have "has (world (fold (\<lambda>i s. snd (on_world (expire_and_unlock_pending_transaction M conn i) s)) is s))
      = has (world s)" for "is"
      by (induction "is" arbitrary: s)
         (auto simp: on_world_def laws_other_calls [OF assms(1)] split: prod.splits,
          metis assms(1) laws_other_calls(2) snd_conv)
    then show ?thesis by (auto simp: release_expired_reservations_def split: sum.splits)
  qed
  have init: "has (snd (init_db M path (world s))) = has (world s)"
    by (rule laws_other_calls [OF assms(1)])
  show ?thesis
    using assms(2) init
    by (auto simp: open_pool_def init_pool_def on_world_def proc_simps expire
        split: prod.splits sum.splits)
qed

lemma close_other_view:
  "close_other_pool path s = (r, t) \<Longrightarrow> view_of has t = view_of has s"
  by (auto simp: close_other_pool_def view_of_def upd_db_def proc_simps close_pool_def
      split: option.splits if_splits)

lemma shared_pool_view:
  assumes "session_laws M has" "shared_pool M path s = (r, t)"
  shows "view_of has t = view_of has s"
proof (cases "db_open (DB_STATE s)")
  case None
  obtain r' s' where run: "open_pool M path s = (r', s')" by (cases "open_pool M path s")
  then have "same_globals s s'" by (rule world_onlyD [OF open_pool_world_only(2)])
  moreover have "has (world s') = has (world s)" by (rule open_pool_has [OF assms(1) run])
  ultimately have "view_of has s' = view_of has s" by (rule view_same_globals)
  then show ?thesis
    using assms(2) None run
    by (auto simp: shared_pool_def proc_simps view_of_def upd_db_def split: sum.splits)
next
  case (Some db)
  with assms(2) show ?thesis by (simp add: shared_pool_def proc_simps)
qed

lemma unlock_begin_view:
  assumes "session_laws M has" "unlock_begin M path w s = (r, t)"
    "\<forall>g. session_generation w (DB_STATE s) = Some g \<longrightarrow> g \<noteq> next_generation (DB_STATE s)"
  shows "case r of Inl _ \<Rightarrow> view_of has t = view_of has s
    | Inr (pool, g) \<Rightarrow> task_move (Unlocking path w pw) (view_of has s) (Counted w pw pool g) (view_of has t)"
proof -
  obtain r1 s1 where close: "close_other_pool path s = (r1, s1)" by (cases "close_other_pool path s")
  obtain r2 s2 where shared: "shared_pool M path s1 = (r2, s2)" by (cases "shared_pool M path s1")
  have v: "view_of has s1 = view_of has s" "view_of has s2 = view_of has s"
    using close_other_view [OF close, of has] shared_pool_view [OF assms(1) shared] by simp_all
  show ?thesis
  proof (cases r)
    case (Inl e)
    with assms(2) close shared v show ?thesis
      by (auto simp: unlock_begin_def proc_simps split: sum.splits if_splits prod.splits)
  next
    case (Inr pg)
    obtain pool g where pg: "pg = (pool, g)" by (cases pg)
    let ?d = "(DB_STATE s2)\<lparr>db_path := Some path\<rparr>"
    from assms(2) Inr pg close shared
    have acq: "acquire_session w ?d = (g, DB_STATE t)" and t: "t = s2\<lparr>DB_STATE := DB_STATE t\<rparr>"
      by (auto simp: unlock_begin_def proc_simps upd_db_def split: sum.splits if_splits prod.splits)
    have d: "session_generation u ?d = v_gen (view_of has s) u"
      "next_generation ?d = v_next (view_of has s)" for u
      using v(2) by (simp_all add: view_of_def fun_eq_iff)
    have "\<forall>g. session_generation w ?d = Some g \<longrightarrow> g \<noteq> next_generation ?d"
      using assms(3) d by (simp add: view_of_def)
    from acquire_view [OF acq this] have
      "(v_gen (view_of has s) w = None \<and> g = v_next (view_of has s) \<and>
          next_generation (DB_STATE t) = g + 1 \<or>
        v_gen (view_of has s) w = Some g \<and> next_generation (DB_STATE t) = v_next (view_of has s)) \<and>
       (\<forall>u. session_generation u (DB_STATE t) = (if u = w then Some g else v_gen (view_of has s) u))"
      using d by simp
    moreover have "v_has (view_of has t) = v_has (view_of has s)"
      "v_poisoned (view_of has t) = v_poisoned (view_of has s)"
      using t v(2) by (simp_all add: view_of_def) (metis bridge.select_convs(2,10) bridge.surjective bridge.update_convs(1))+
    ultimately have "(v_gen (view_of has s) w = None \<and> g = v_next (view_of has s) \<and>
        view_of has t = (view_of has s)\<lparr>v_gen := (v_gen (view_of has s))(w := Some g), v_next := g + 1\<rparr> \<or>
      v_gen (view_of has s) w = Some g \<and> view_of has t = view_of has s)"
      by (auto simp: view_of_def fun_eq_iff)
    then show ?thesis
      using Inr pg task_move.count_new [of "view_of has s" w g path pw pool]
        task_move.count_join [of "view_of has s" w g path pw pool] by auto
  qed
qed

lemma release_if_generation_view:
  assumes "release_if_generation w g s = (r, t)"
  shows "case r of
      Inl _ \<Rightarrow> view_of has t = view_of has s
    | Inr z \<Rightarrow> if z then v_gen (view_of has s) w \<noteq> None \<and>
          view_of has t = (view_of has s)\<lparr>v_gen := (v_gen (view_of has s))(w := None)\<rparr>
        else view_of has t = view_of has s"
  using assms
  by (auto simp: release_if_generation_def proc_simps view_of_def fun_eq_iff
      split: prod.splits if_splits dest!: release_view) metis

lemma release_session_view:
  assumes "release_session w s = (r, t)"
  shows "case r of
      Inl _ \<Rightarrow> view_of has t = view_of has s
    | Inr z \<Rightarrow> if z then v_gen (view_of has s) w \<noteq> None \<and>
          view_of has t = (view_of has s)\<lparr>v_gen := (v_gen (view_of has s))(w := None)\<rparr>
        else view_of has t = view_of has s"
  using assms
  by (auto simp: release_session_def proc_simps view_of_def fun_eq_iff
      split: prod.splits if_splits dest!: release_view) metis

lemma cancel_view: "cancel_wallet_scans w s = (r, t) \<Longrightarrow> view_of has t = view_of has s"
  by (auto simp: cancel_wallet_scans_def proc_simps Let_def view_of_def split: option.splits if_splits)

lemma check_is_unlocked_view:
  assumes "session_laws M has" "check_is_unlocked M conn w s = (r, t)"
  shows "t = s \<and> (\<forall>b. r = Inr b \<longrightarrow> b = v_has (view_of has s) w)"
  using assms laws_is_unlocked [OF assms(1)]
  by (auto simp: check_is_unlocked_def view_of_def dest!: map_err_eq_InrE)

lemma unlock_session_view:
  assumes "session_laws M has" "unlock_session M conn w pw s = (r, t)"
  shows "view_of has t = (case r of Inl _ \<Rightarrow> view_of has s
    | Inr _ \<Rightarrow> (view_of has s)\<lparr>v_has := (v_has (view_of has s))(w := True)\<rparr>)"
proof -
  obtain r' wd where call: "session_unlock M conn w pw (world s) = (r', wd)"
    by (cases "session_unlock M conn w pw (world s)")
  then have t: "t = s\<lparr>world := wd\<rparr>" "r = map_err map_unlock_error r'"
    using assms(2) by (auto simp: unlock_session_def on_world_def proc_simps)
  show ?thesis
  proof (cases r')
    case (Inl e)
    then show ?thesis using t laws_unlock_err [OF assms(1)] call by (auto simp: view_of_def)
  next
    case (Inr u)
    then have "has wd v = ((has (world s))(w := True)) v" for v
      using laws_unlock_ok [OF assms(1)] laws_unlock_other [OF assms(1) _ call, of v] call
      by (cases "v = w") auto
    then show ?thesis using t Inr by (auto simp: view_of_def fun_eq_iff)
  qed
qed

lemma read_only_sections:
  "get_conn M pool s = (r1, t1) \<Longrightarrow> t1 = s"
  "verify_stored M conn w pw s = (r2, t2) \<Longrightarrow> t2 = s"
  "still_counted w g s = (r3, t3) \<Longrightarrow>
    t3 = s \<and> (case r3 of Inl _ \<Rightarrow> v_poisoned (view_of has s)
      | Inr b \<Rightarrow> b = (v_gen (view_of has s) w = Some g))"
  by (auto simp: get_conn_def verify_stored_def still_counted_def proc_simps view_of_def
      split: if_splits)

lemma holder_counted_view:
  "holder_counted w s \<longleftrightarrow> \<not> v_poisoned (view_of has s) \<and> v_gen (view_of has s) w \<noteq> None"
  by (auto simp: holder_counted_def view_of_def session_generation_def)

lemma drop_view:
  assumes "session_laws M has"
  shows "view_of has (s\<lparr>world := session_lock M w (world s)\<rparr>) =
    (view_of has s)\<lparr>v_has := (v_has (view_of has s))(w := False)\<rparr>"
  using laws_lock [OF assms] by (auto simp: view_of_def fun_eq_iff)

lemma force_view:
  "view_of has (upd_db (remove_session w) s) =
    (view_of has s)\<lparr>v_gen := (v_gen (view_of has s))(w := None)\<rparr>"
  using remove_view [of w "DB_STATE s"] by (auto simp: view_of_def fun_eq_iff)

lemma write_db_state_view:
  "write_db_state s = (r, t) \<Longrightarrow> t = s \<and> (\<forall>e. r = Inl e \<longrightarrow> db_poisoned s)"
  by (auto simp: proc_simps split: if_splits)

lemma lock_outcome_finished [simp]:
  "unlocked_with (Finished w (lock_outcome k b)) = None"
  "task_generation (Finished w (lock_outcome k b)) = None"
  by (cases k; simp)+

definition generations_fresh :: "view \<Rightarrow> bool" where
  "generations_fresh v \<longleftrightarrow> (\<forall>w g. v_gen v w = Some g \<longrightarrow> g < v_next v)"

lemma advance_moves:
  assumes laws: "session_laws M has" and "generations_fresh (view_of has s)"
    and adv: "advance M t s = (t', s')"
  shows "task_move t (view_of has s) t' (view_of has s')"
proof (cases t)
  case (Unlocking path w pw)
  have fresh: "\<forall>g. session_generation w (DB_STATE s) = Some g \<longrightarrow> g \<noteq> next_generation (DB_STATE s)"
    using assms(2) by (auto simp: generations_fresh_def view_of_def)
  obtain r u where run: "unlock_begin M path w s = (r, u)" by (cases "unlock_begin M path w s")
  with adv Unlocking unlock_begin_view [OF laws run fresh, of pw] show ?thesis
    by (auto split: sum.splits intro: quiet)
next
  case (Holding w pw pool g)
  obtain r u where run: "get_conn M pool s = (r, u)" by (cases "get_conn M pool s")
  with read_only_sections(1) [of M pool s r u] adv Holding show ?thesis
    by (auto split: sum.splits if_splits intro: quiet)
next
  case (Probing w pw conn g)
  obtain r u where run: "check_is_unlocked M conn w s = (r, u)" by (cases "check_is_unlocked M conn w s")
  with check_is_unlocked_view [OF laws, of conn w s r u] adv Probing show ?thesis
    by (auto split: sum.splits if_splits intro: quiet)
next
  case (Verifying w pw conn g)
  obtain r u where run: "verify_stored M conn w pw s = (r, u)" by (cases "verify_stored M conn w pw s")
  with read_only_sections(2) [of M conn w pw s r u] adv Verifying show ?thesis
    by (auto split: sum.splits if_splits intro: quiet)
next
  case (Reprobing w pw conn g)
  obtain r u where run: "check_is_unlocked M conn w s = (r, u)" by (cases "check_is_unlocked M conn w s")
  with check_is_unlocked_view [OF laws, of conn w s r u] adv Reprobing show ?thesis
    by (auto split: sum.splits if_splits intro: quiet seen)
next
  case (Opening w pw conn g)
  obtain r u where run: "unlock_session M conn w pw s = (r, u)" by (cases "unlock_session M conn w pw s")
  with unlock_session_view [OF laws, of conn w pw s r u] adv Opening show ?thesis
    by (auto split: sum.splits if_splits intro: quiet opened)
next
  case (Confirming w g)
  obtain r u where run: "still_counted w g s = (r, u)" by (cases "still_counted w g s")
  with read_only_sections(3) [of w g s r u has] adv Confirming show ?thesis
    by (auto split: sum.splits if_splits intro: quiet confirmed)
next
  case (Releasing w g e)
  obtain r u where run: "release_if_generation w g s = (r, u)" by (cases "release_if_generation w g s")
  with release_if_generation_view [of w g s r u has] adv Releasing show ?thesis
    by (auto split: sum.splits if_splits intro: quiet removed)
next
  case (Locking w)
  obtain r u where run: "release_session w s = (r, u)" by (cases "release_session w s")
  with release_session_view [of w s r u has] adv Locking show ?thesis
    by (auto split: sum.splits if_splits intro: quiet removed)
next
  case (Forcing w)
  show ?thesis
  proof (cases "db_poisoned s")
    case True
    with adv Forcing show ?thesis by (auto simp: proc_simps intro: quiet)
  next
    case False
    with adv Forcing have st: "t' = Waiting w After_Force" "s' = upd_db (remove_session w) s"
      by (simp_all add: proc_simps)
    show ?thesis
    proof (cases "v_gen (view_of has s) w")
      case None
      then have "view_of has s' = view_of has s"
        unfolding st force_view by (simp add: fun_upd_idem)
      then show ?thesis using st Forcing by (auto intro: quiet)
    next
      case (Some g)
      then show ?thesis using st Forcing by (auto simp: force_view intro: removed)
    qed
  qed
next
  case (Deciding w k)
  with adv Deciding show ?thesis
    by (auto simp: holder_counted_view [of _ _ has] split: if_splits intro: quiet decided)
next
  case (Dropping w k)
  with adv show ?thesis by (auto simp: drop_view [OF laws] intro: dropped)
next
  case (Cancelling w k)
  obtain r u where run: "cancel_wallet_scans w s = (r, u)" by (cases "cancel_wallet_scans w s")
  then show ?thesis
    using cancel_view [OF run, of has] adv Cancelling by (auto split: sum.splits intro: quiet)
qed (use adv in \<open>auto intro: quiet\<close>)

section \<open>The invariants\<close>

text \<open>
  Generations are fresh (in fewer than \<open>2 ^ 64\<close> steps), one task at a time holds a wallet's
  gate, a task about to confirm has a session, a session whose unlock returned \<open>Ok\<close> and is
  still counted is there and not about to be dropped, and a session without a counted
  holder is one some task will still decide about.
\<close>

type_synonym ('p, 'c) pool_of_tasks = "nat \<Rightarrow> ('p, 'c) task option"

definition generations_ok :: "nat \<Rightarrow> view \<Rightarrow> ('p, 'c) pool_of_tasks \<Rightarrow> bool" where
  "generations_ok n v ts \<longleftrightarrow> generations_fresh v \<and> unat (v_next v) \<le> n \<and>
     (\<forall>i t g. ts i = Some t \<longrightarrow> task_generation t = Some g \<longrightarrow> g < v_next v)"

definition exclusive :: "('p, 'c) pool_of_tasks \<Rightarrow> bool" where
  "exclusive ts \<longleftrightarrow> (\<forall>i j t u w. ts i = Some t \<longrightarrow> ts j = Some u \<longrightarrow>
     holds t = Some w \<longrightarrow> holds u = Some w \<longrightarrow> i = j)"

definition confirming_open :: "view \<Rightarrow> ('p, 'c) pool_of_tasks \<Rightarrow> bool" where
  "confirming_open v ts \<longleftrightarrow> (\<forall>i t w. ts i = Some t \<longrightarrow> confirming t = Some w \<longrightarrow> v_has v w)"

definition unlocked_open :: "view \<Rightarrow> ('p, 'c) pool_of_tasks \<Rightarrow> bool" where
  "unlocked_open v ts \<longleftrightarrow> (\<not> v_poisoned v \<longrightarrow> (\<forall>i t w g. ts i = Some t \<longrightarrow>
     unlocked_with t = Some (w, g) \<longrightarrow> v_gen v w = Some g \<longrightarrow>
     v_has v w \<and> (\<forall>j u. ts j = Some u \<longrightarrow> dropping u \<noteq> Some w)))"

definition open_accounted :: "view \<Rightarrow> ('p, 'c) pool_of_tasks \<Rightarrow> bool" where
  "open_accounted v ts \<longleftrightarrow> (\<not> v_poisoned v \<longrightarrow> (\<forall>w. v_has v w \<longrightarrow> v_gen v w = None \<longrightarrow>
     (\<exists>i t. ts i = Some t \<and> pending t = Some w)))"

lemma word_less_next: "unat (x::u64) \<le> n \<Longrightarrow> Suc n < 2 ^ 64 \<Longrightarrow> g < x + 1 \<longleftrightarrow> g \<le> x"
  using next_id_fresh [of x n] by (auto simp: word_less_nat_alt word_le_nat_alt)

lemma generations_ok_move:
  assumes "task_move t v t' v'" "generations_ok n v ts" "ts i = Some t" "Suc n < 2 ^ 64"
  shows "generations_ok (Suc n) v' (ts(i \<mapsto> t'))"
  using assms
proof cases
  case (count_new w g path pw pool)
  have next_le: "unat (v_next v) \<le> n" and old: "\<And>w g. v_gen v w = Some g \<Longrightarrow> g < v_next v"
    "\<And>i t g. ts i = Some t \<Longrightarrow> task_generation t = Some g \<Longrightarrow> g < v_next v"
    using assms(2) by (auto simp: generations_ok_def generations_fresh_def)
  note lt = word_less_next [OF next_le assms(4)]
  show ?thesis
    using count_new next_le old next_id_fresh [OF next_le assms(4)]
    by (auto simp: generations_ok_def generations_fresh_def lt less_imp_le)
qed (auto simp: generations_ok_def generations_fresh_def split: if_splits)

lemma exclusive_move:
  assumes "task_move t v t' v'" "exclusive ts" "ts i = Some t"
  shows "exclusive (ts(i \<mapsto> t'))"
proof -
  have "holds t' \<in> {holds t, None}" using assms(1) by cases auto
  then show ?thesis using assms(2,3) unfolding exclusive_def fun_upd_apply
    by (metis (no_types, lifting) insertE option.distinct(1) option.inject singletonD)
qed

text \<open>Only a task that holds a wallet's gate confirms or drops its session.\<close>

lemma confirming_holds: "confirming t = Some w \<Longrightarrow> holds t = Some w"
  by (cases t) auto

lemma dropping_holds: "dropping t = Some w \<Longrightarrow> holds t = Some w"
  by (cases t) auto

lemma unlocked_generation: "unlocked_with t = Some (w, g) \<Longrightarrow> task_generation t = Some g"
  by (cases t rule: unlocked_with.cases) auto

lemma exclusiveD:
  "exclusive ts \<Longrightarrow> ts i = Some t \<Longrightarrow> ts j = Some u \<Longrightarrow> holds t = Some w \<Longrightarrow> holds u = Some w \<Longrightarrow> i = j"
  by (auto simp: exclusive_def)

lemma confirming_open_move:
  assumes "task_move t v t' v'" "exclusive ts" "confirming_open v ts" "ts i = Some t"
  shows "confirming_open v' (ts(i \<mapsto> t'))"
  using assms(1)
proof cases
  case (dropped w k)
  have "confirming u \<noteq> Some w" if "ts j = Some u" "j \<noteq> i" for j u
    using exclusiveD [OF assms(2) that(1) assms(4), of w] that(2) dropped
    by (auto dest: confirming_holds)
  then show ?thesis
    using assms(3) dropped by (auto simp: confirming_open_def)
qed (use assms(3,4) in \<open>auto simp: confirming_open_def\<close>)

lemma unlocked_open_move:
  assumes "task_move t v t' v'" "exclusive ts" "generations_ok n v ts" "confirming_open v ts"
    "unlocked_open v ts" "ts i = Some t"
  shows "unlocked_open v' (ts(i \<mapsto> t'))"
  using assms(1)
proof cases
  case (count_new w g path pw pool)
  have "g' \<noteq> g" if "ts j = Some u" "unlocked_with u = Some (w', g')" for j u w' g'
    using unlocked_generation [OF that(2)] that(1) assms(3) count_new
    by (auto simp: generations_ok_def)
  with assms(5,6) count_new show ?thesis
    by (auto simp: unlocked_open_def split: if_splits)
next
  case (quiet)
  then show ?thesis using assms(5,6) by (auto simp: unlocked_open_def)
next
  case (confirmed w g)
  have none: "dropping u \<noteq> Some w" if "ts j = Some u" "j \<noteq> i" for j u
    using exclusiveD [OF assms(2) that(1) assms(6), of w] that(2) confirmed
    by (auto dest: dropping_holds)
  have "v_has v w" using assms(4,6) confirmed by (auto simp: confirming_open_def)
  with none assms(5,6) confirmed show ?thesis by (auto simp: unlocked_open_def)
next
  case (dropped w k)
  then have "v_poisoned v" if "ts j = Some u" "unlocked_with u = Some (w, g)" "v_gen v w = Some g" for j u g
    using assms(5,6) that unfolding unlocked_open_def by (metis dropping.simps(1))
  with assms(5,6) dropped show ?thesis
    by (auto simp: unlocked_open_def split: if_splits)
next
  case (removed w)
  then have "unlocked_with t' = None"
    using unlocked_generation [of t'] by (cases "unlocked_with t'") auto
  with assms(5,6) removed show ?thesis by (auto simp: unlocked_open_def)
qed (use assms(5,6) in \<open>auto simp: unlocked_open_def split: if_splits\<close>)

lemma open_accounted_move:
  assumes "task_move t v t' v'" "open_accounted v ts" "ts i = Some t"
  shows "open_accounted v' (ts(i \<mapsto> t'))"
  unfolding open_accounted_def
proof (intro impI allI)
  fix w
  assume up: "\<not> v_poisoned v'" and has: "v_has v' w" and gone: "v_gen v' w = None"
  have "pending t' = Some w \<or> v_has v w \<and> v_gen v w = None \<and> pending t \<noteq> Some w \<and> \<not> v_poisoned v"
    using assms(1) up has gone
    by cases (auto split: if_splits)
  then show "\<exists>j u. (ts(i \<mapsto> t')) j = Some u \<and> pending u = Some w"
  proof (elim disjE conjE, goal_cases)
    case 1
    then show ?thesis by (intro exI [of _ i] exI [of _ t']) simp
  next
    case 2
    with assms(2) obtain j u where "ts j = Some u" "pending u = Some w"
      unfolding open_accounted_def by blast
    with 2 assms(3) have "(ts(i \<mapsto> t')) j = Some u \<and> pending u = Some w" by auto
    then show ?thesis by blast
  qed
qed

definition sessions_safe :: "('w \<Rightarrow> rstring \<Rightarrow> bool) \<Rightarrow> nat \<Rightarrow> ('w, 'p, 'c) system \<Rightarrow> bool" where
  "sessions_safe has n y \<longleftrightarrow>
     (let v = view_of has (glob y); ts = tasks y in
      generations_ok n v ts \<and> exclusive ts \<and> confirming_open v ts \<and> unlocked_open v ts \<and>
      open_accounted v ts)"

text \<open>Calls and gates change one task in a way that keeps every invariant.\<close>

lemma plain_keeps:
  assumes "ts i = None \<or> (\<exists>t. ts i = Some t \<and> task_generation t' \<in> {task_generation t, None} \<and>
      (pending t = None \<or> pending t' = pending t))"
    "ts i = None \<longrightarrow> task_generation t' = None"
    "confirming t' = None" "dropping t' = None" "unlocked_with t' = None"
  shows "generations_ok n v ts \<Longrightarrow> generations_ok n v (ts(i \<mapsto> t'))"
    "confirming_open v ts \<Longrightarrow> confirming_open v (ts(i \<mapsto> t'))"
    "unlocked_open v ts \<Longrightarrow> unlocked_open v (ts(i \<mapsto> t'))"
    "open_accounted v ts \<Longrightarrow> open_accounted v (ts(i \<mapsto> t'))"
proof -
  show "generations_ok n v ts \<Longrightarrow> generations_ok n v (ts(i \<mapsto> t'))"
    using assms(1,2) by (auto simp: generations_ok_def)
  show "confirming_open v ts \<Longrightarrow> confirming_open v (ts(i \<mapsto> t'))"
    using assms(3) by (auto simp: confirming_open_def)
  show "unlocked_open v ts \<Longrightarrow> unlocked_open v (ts(i \<mapsto> t'))"
    using assms(4,5) by (auto simp: unlocked_open_def)
  assume acc: "open_accounted v ts"
  have "\<exists>j u. (ts(i \<mapsto> t')) j = Some u \<and> pending u = Some w" if "ts j = Some u" "pending u = Some w" for j u w
  proof (cases "j = i")
    case True
    with that assms(1) have "pending t' = Some w" by auto
    then show ?thesis by (intro exI [of _ i] exI [of _ t']) simp
  next
    case False
    with that show ?thesis by (intro exI [of _ j] exI [of _ u]) simp
  qed
  with acc show "open_accounted v (ts(i \<mapsto> t'))" unfolding open_accounted_def by metis
qed

lemma generations_ok_Suc: "generations_ok n v ts \<Longrightarrow> generations_ok (Suc n) v ts"
  by (auto simp: generations_ok_def)

lemma sessions_safe_step:
  assumes laws: "session_laws M has" and n: "Suc n < 2 ^ 64" and inv: "sessions_safe has n y"
    and step: "system_step M has y z"
  shows "sessions_safe has (Suc n) z"
proof -
  let ?v = "view_of has (glob y)" and ?ts = "tasks y"
  from inv have parts: "generations_ok n ?v ?ts" "exclusive ?ts" "confirming_open ?v ?ts"
      "unlocked_open ?v ?ts" "open_accounted ?v ?ts"
    by (simp_all add: sessions_safe_def Let_def)
  note Suc = generations_ok_Suc [OF parts(1)]
  from step show ?thesis
  proof cases
    case (call i t)
    then have t: "holds t = None" "task_generation t = None" "confirming t = None"
        "dropping t = None" "unlocked_with t = None"
      by (auto simp: starts_def)
    have "exclusive (?ts(i \<mapsto> t))" using parts(2) t(1) by (auto simp: exclusive_def)
    then show ?thesis
      using call(1) plain_keeps [of ?ts i t, OF _ _ t(3-5)] call(2) t(2) Suc parts
      by (simp add: sessions_safe_def put_def)
  next
    case (gate i t w)
    then have e: "task_generation (enter_gate t) = task_generation t"
        "pending t = None \<or> pending (enter_gate t) = pending t" "confirming (enter_gate t) = None"
        "dropping (enter_gate t) = None" "unlocked_with (enter_gate t) = None"
        "holds (enter_gate t) = Some w"
      by (cases t; simp)+
    have "exclusive (?ts(i \<mapsto> enter_gate t))"
      using parts(2) gate(4) e(6) by (auto simp: exclusive_def)
    then show ?thesis
      using gate(1,2) plain_keeps [of ?ts i "enter_gate t", OF _ _ e(3-5)] e(1,2) Suc parts
      by (simp add: sessions_safe_def put_def)
  next
    case (move i t t' s')
    have "task_move t ?v t' (view_of has s')"
      using parts(1) by (intro advance_moves [OF laws _ move(4)]) (simp add: generations_ok_def)
    note moved = generations_ok_move [OF this parts(1) move(2) n] exclusive_move [OF this parts(2) move(2)]
      confirming_open_move [OF this parts(2,3) move(2)]
      unlocked_open_move [OF this parts(2,1,3,4) move(2)] open_accounted_move [OF this parts(5) move(2)]
    show ?thesis using moved move(1) by (simp add: sessions_safe_def put_def Let_def)
  next
    case poison
    then show ?thesis
      using parts Suc
      by (simp add: sessions_safe_def view_of_def generations_ok_def generations_fresh_def
          confirming_open_def unlocked_open_def open_accounted_def)
  next
    case (other s')
    then have "view_of has s' = ?v" by (simp add: view_of_def)
    then show ?thesis using other(1) parts Suc by (simp add: sessions_safe_def)
  qed
qed

interpretation safe_system:
  bounded_invariant "system_step M has" "\<lambda>n y. session_laws M has \<longrightarrow> sessions_safe has n y" "2 ^ 64"
  for M has
  by unfold_locales (blast intro: sessions_safe_step)

lemma view_of_start:
  "view_of has (init_bridge wd) =
    \<lparr>v_gen = (\<lambda>_. None), v_next = 0, v_has = has wd, v_poisoned = False\<rparr>"
  by (simp add: view_of_def init_bridge_def init_DbState_def session_generation_def)

lemma sessions_safe_start: "\<forall>w. \<not> has wd w \<Longrightarrow> sessions_safe has 0 (system_start wd)"
  by (simp add: sessions_safe_def system_start_def view_of_start generations_ok_def
      generations_fresh_def exclusive_def confirming_open_def unlocked_open_def open_accounted_def)

lemma reachable_safe:
  assumes "session_laws M has" "\<forall>w. \<not> has wd w" "steps (system_step M has) n (system_start wd) y"
    "n < 2 ^ 64"
  shows "sessions_safe has n y"
  using safe_system.from_start [OF assms(3) _ assms(4)] assms(1) sessions_safe_start [of has wd, OF assms(2)]
  by blast

section \<open>A force lock wins\<close>

text \<open>
  A generation that a force lock evicted: it is not the wallet's, and never will be again;
  task \<open>i\<close>, which took it, has not returned \<open>Ok\<close>.
\<close>

definition evicted :: "rstring \<Rightarrow> nat \<Rightarrow> u64 \<Rightarrow> view \<Rightarrow> ('p, 'c) pool_of_tasks \<Rightarrow> bool" where
  "evicted w i g v ts \<longleftrightarrow> v_gen v w \<noteq> Some g \<and> g < v_next v \<and>
     (\<exists>t. ts i = Some t \<and> task_wallet t = w \<and> \<not> starts t \<and> task_generation t \<in> {Some g, None} \<and>
       unlocked_with t = None)"

lemma evicted_own_move:
  assumes "task_move t v t' v'" "task_wallet t = w" "\<not> starts t"
    "task_generation t \<in> {Some g, None}" "unlocked_with t = None" "v_gen v w \<noteq> Some g"
  shows "task_wallet t' = w \<and> \<not> starts t' \<and> task_generation t' \<in> {Some g, None} \<and>
    unlocked_with t' = None"
  using assms
proof cases
  case (removed u)
  then show ?thesis using assms(2) unlocked_generation [of t'] by (cases "unlocked_with t'") auto
qed auto

lemma evicted_move:
  assumes "task_move t v t' v'" "generations_ok n v ts" "ts j = Some t" "Suc n < 2 ^ 64"
    "evicted w i g v ts"
  shows "evicted w i g v' (ts(j \<mapsto> t'))"
proof -
  from assms(2) have next_le: "unat (v_next v) \<le> n" by (simp add: generations_ok_def)
  from assms(5) have g: "v_gen v w \<noteq> Some g" "g < v_next v" by (auto simp: evicted_def)
  have "v_gen v' w \<noteq> Some g \<and> g < v_next v'"
    using assms(1) g word_less_next [OF next_le assms(4)]
    by cases (auto simp: less_imp_le)
  moreover have "\<exists>u. (ts(j \<mapsto> t')) i = Some u \<and> task_wallet u = w \<and> \<not> starts u \<and>
      task_generation u \<in> {Some g, None} \<and> unlocked_with u = None"
    using assms(3,5) evicted_own_move [OF assms(1) _ _ _ _ g(1)] by (auto simp: evicted_def)
  ultimately show ?thesis by (simp add: evicted_def)
qed

lemma evicted_step:
  assumes laws: "session_laws M has" and n: "Suc n < 2 ^ 64" and inv: "sessions_safe has n y"
    and ev: "evicted w i g (view_of has (glob y)) (tasks y)" and step: "system_step M has y z"
  shows "evicted w i g (view_of has (glob z)) (tasks z)"
proof -
  from inv have gens: "generations_ok n (view_of has (glob y)) (tasks y)"
    by (simp add: sessions_safe_def Let_def)
  from step show ?thesis
  proof cases
    case (call j t)
    with ev show ?thesis by (auto simp: evicted_def put_def)
  next
    case (gate j t v)
    then have "task_wallet (enter_gate t) = task_wallet t" "\<not> starts (enter_gate t)"
      "task_generation (enter_gate t) = task_generation t" "unlocked_with (enter_gate t) = None"
      by (cases t; simp)+
    with gate(1,2) ev show ?thesis by (auto simp: evicted_def put_def)
  next
    case (move j t t' s')
    have "task_move t (view_of has (glob y)) t' (view_of has s')"
      using gens by (intro advance_moves [OF laws _ move(4)]) (simp add: generations_ok_def)
    from evicted_move [OF this gens move(2) n ev] move(1) show ?thesis by (simp add: put_def)
  next
    case poison
    with ev show ?thesis by (simp add: evicted_def view_of_def)
  next
    case (other s')
    then have "view_of has s' = view_of has (glob y)" by (simp add: view_of_def)
    with ev other(1) show ?thesis by simp
  qed
qed

interpretation evicted_system:
  bounded_invariant "system_step M has" "\<lambda>n y. session_laws M has \<longrightarrow>
    sessions_safe has n y \<and> evicted w i g (view_of has (glob y)) (tasks y)" "2 ^ 64"
  for M has w i g
  by unfold_locales (blast intro: sessions_safe_step evicted_step)

section \<open>The pool is open exactly while a wallet is counted\<close>

lemma acquire_session_frame:
  "db_open (snd (acquire_session w d)) = db_open d"
  "db_path (snd (acquire_session w d)) = db_path d"
  "db_sessions (snd (acquire_session w d)) \<noteq> fmempty"
  by (simp_all add: acquire_session_def Let_def)

lemma acquire_keeps_db_inv:
  assumes "db_inv s" "unlock_begin M path w s = (Inr (pool, g), t)"
  shows "db_inv t"
  using assms(2,1)
proof (rule unlock_begin_OkE)
  fix d
  assume d: "d = (DB_STATE s)\<lparr>db_open := Some \<lparr>db_pool = pool, db_file = path\<rparr>, db_path := Some path\<rparr>"
    and acq: "acquire_session w d = (g, DB_STATE t)"
  have "counts_positive d" using assms(1) d by (simp add: db_inv_def Let_def counts_positive_def)
  then have "counts_positive (DB_STATE t)"
    using sessions.inv_acquire [of d w] acq by simp
  moreover have "db_open (DB_STATE t) = db_open d" "db_path (DB_STATE t) = db_path d"
    "db_sessions (DB_STATE t) \<noteq> fmempty"
    using acquire_session_frame [of w d] acq by simp_all
  ultimately show "db_inv t" using d by (simp add: db_inv_def Let_def)
qed

lemma advance_keeps_db_inv:
  assumes "db_inv s" "advance M t s = (t', s')"
  shows "db_inv s'"
proof (cases t)
  case (Unlocking path w pw)
  obtain r u where run: "unlock_begin M path w s = (r, u)" by (cases "unlock_begin M path w s")
  have "s' = u" using assms(2) Unlocking run by (auto split: sum.splits prod.splits)
  then show ?thesis
    using unlock_begin_ErrD [of M path w s _ u] acquire_keeps_db_inv [OF assms(1), of M path w _ _ u]
      run assms(1) db_inv_cong [of s' s] by (cases r) (auto dest: same_globalsD(1))
next
  case (Forcing w)
  with assms show ?thesis by (auto simp: proc_simps remove_session_inv split: if_splits)
next
  case (Releasing w g e)
  obtain r u where run: "release_if_generation w g s = (r, u)" by (cases "release_if_generation w g s")
  with assms(2) Releasing have "s' = u" by (auto split: sum.splits)
  with keepsD [OF section_keeps_db_inv(3) assms(1) run] show ?thesis by simp
next
  case (Locking w)
  obtain r u where run: "release_session w s = (r, u)" by (cases "release_session w s")
  with assms(2) Locking have "s' = u" by (auto split: sum.splits)
  with keepsD [OF section_keeps_db_inv(2) assms(1) run] show ?thesis by simp
next
  case (Opening w pw conn g)
  obtain r u where run: "unlock_session M conn w pw s = (r, u)" by (cases "unlock_session M conn w pw s")
  then have "DB_STATE u = DB_STATE s"
    by (auto simp: unlock_session_def on_world_def proc_simps split: prod.splits)
  then show ?thesis using run assms Opening by (auto simp: db_inv_def split: sum.splits)
next
  case (Cancelling w k)
  obtain r u where run: "cancel_wallet_scans w s = (r, u)" by (cases "cancel_wallet_scans w s")
  then have "DB_STATE u = DB_STATE s" using scan_sections_frame(3) by blast
  then show ?thesis using run assms Cancelling by (auto simp: db_inv_def split: sum.splits)
next
  case (Dropping w k)
  then show ?thesis using assms by (auto simp: db_inv_def)
next
  case (Holding w pw pool g)
  then show ?thesis using assms by (auto simp: get_conn_def split: sum.splits)
next
  case (Probing w pw conn g)
  then show ?thesis using assms by (auto simp: check_is_unlocked_def split: sum.splits)
next
  case (Reprobing w pw conn g)
  then show ?thesis using assms by (auto simp: check_is_unlocked_def split: sum.splits)
next
  case (Verifying w pw conn g)
  then show ?thesis using assms by (auto simp: verify_stored_def split: sum.splits)
next
  case (Confirming w g)
  then show ?thesis using assms by (auto simp: still_counted_def proc_simps split: sum.splits if_splits)
qed (use assms in \<open>auto split: if_splits\<close>)

interpretation pool_system:
  bounded_invariant "system_step M has" "\<lambda>n y. db_inv (glob y)" "2 ^ 64" for M has
proof (unfold_locales, elim system_step.cases)
qed (auto simp: put_def dest: advance_keeps_db_inv db_inv_cong, (simp add: db_inv_def)?)

section \<open>A task run alone is the function\<close>

text \<open>\<open>drive M n t s\<close>: at most \<open>n\<close> sections of one task with nothing in between.\<close>

fun drive ::
  "('w, 'p, 'c, 'a, 'm) minotari_scheme \<Rightarrow> nat \<Rightarrow> ('p, 'c) task \<Rightarrow> ('w, 'p) bridge \<Rightarrow>
     ('p, 'c) task \<times> ('w, 'p) bridge" where
  "drive M 0 t s = (t, s)"
| "drive M (Suc n) t s =
     (case waits_for t of
        Some w \<Rightarrow> drive M n (enter_gate t) s
      | None \<Rightarrow> (case advance M t s of (t', s') \<Rightarrow> drive M n t' s'))"

lemma drive_finished [simp]: "drive M n (Finished w r) s = (Finished w r, s)"
  by (induction n) auto

lemma drive_deciding:
  "drive M (Suc (Suc (Suc n))) (Deciding w k) s =
     (case lock_session_gate_held M w s of
        (Inl e, t) \<Rightarrow> (Finished w (Failed e), t)
      | (Inr b, t) \<Rightarrow> (Finished w (lock_outcome k b), t))"
  by (auto simp: lock_session_gate_held_def lock_and_cancel_def proc_simps
      split: prod.split sum.split)

lemma drive_confirming:
  "drive M (Suc (Suc (Suc (Suc n)))) (Confirming w g) s =
     (case confirm_still_counted M w g s of
        (Inl e, t) \<Rightarrow> (Finished w (Failed e), t)
      | (Inr _, t) \<Rightarrow> (Finished w (Unlocked g), t))"
proof -
  obtain r u where run: "still_counted w g s = (r, u)" by (cases "still_counted w g s")
  show ?thesis
    by (simp add: confirm_still_counted_def run proc_simps drive_deciding del: drive.simps
        add: drive.simps(2) [of M "Suc (Suc (Suc n))"] split: prod.split sum.split)
qed

lemma drive_releasing:
  "drive M (Suc (Suc (Suc (Suc n)))) (Releasing w g e) s =
     (case release_failed_unlock M w g s of
        (Inl e', t) \<Rightarrow> (Finished w (Failed e'), t)
      | (Inr _, t) \<Rightarrow> (Finished w (Failed e), t))"
proof -
  obtain r u where run: "release_if_generation w g s = (r, u)" by (cases "release_if_generation w g s")
  show ?thesis
    by (simp add: release_failed_unlock_def run proc_simps drive_deciding del: drive.simps
        add: drive.simps(2) [of M "Suc (Suc (Suc n))"] split: prod.split sum.split)
qed

text \<open>What follows the passphrase check, by its result.\<close>

fun unlock_rest ::
  "('w, 'p, 'c, 'a, 'm) minotari_scheme \<Rightarrow> rstring \<Rightarrow> u64 \<Rightarrow> (api_error + unit) \<times> ('w, 'p) bridge \<Rightarrow>
     ('p, 'c) task \<times> ('w, 'p) bridge" where
  "unlock_rest M w g (Inl e, s) =
     (case release_failed_unlock M w g s of
        (Inl e', t) \<Rightarrow> (Finished w (Failed e'), t)
      | (Inr _, t) \<Rightarrow> (Finished w (Failed e), t))"
| "unlock_rest M w g (Inr _, s) =
     (case confirm_still_counted M w g s of
        (Inl e, t) \<Rightarrow> (Finished w (Failed e), t)
      | (Inr _, t) \<Rightarrow> (Finished w (Unlocked g), t))"

lemma drive_move:
  "waits_for t = None \<Longrightarrow> advance M t s = (t', s') \<Longrightarrow> drive M (Suc n) t s = drive M n t' s'"
  by simp

lemma drive_opening:
  "drive M (Suc (Suc (Suc (Suc (Suc n))))) (Opening w pw conn g) s =
     unlock_rest M w g (unlock_session M conn w pw s)"
proof -
  obtain r u where run: "unlock_session M conn w pw s = (r, u)" by (cases "unlock_session M conn w pw s")
  show ?thesis
    by (cases r) (simp_all only: drive_move [of "Opening w pw conn g" M s] advance.simps
        waits_for.simps run prod.case sum.case drive_releasing drive_confirming unlock_rest.simps)
qed

lemma drive_probing:
  "drive M (Suc (Suc (Suc (Suc (Suc (Suc (Suc (Suc n)))))))) (Probing w pw conn g) s =
     unlock_rest M w g (check_and_unlock M conn w pw s)"
proof -
  let ?F = "\<lambda>n. Suc (Suc (Suc (Suc n)))"
  obtain r1 where r1: "check_is_unlocked M conn w s = (r1, s)" by (simp add: check_is_unlocked_def)
  obtain r2 where r2: "verify_stored M conn w pw s = (r2, s)" by (simp add: verify_stored_def)
  show ?thesis
  proof (cases r1)
    case (Inl e)
    with r1 have "advance M (Probing w pw conn g) s = (Releasing w g e, s)" by simp
    then show ?thesis
      using Inl r1 by (simp add: check_and_unlock_def proc_simps drive_releasing del: drive.simps
          add: drive_move [of "Probing w pw conn g"])
  next
    case (Inr b)
    show ?thesis
    proof (cases b)
      case False
      with r1 Inr have "advance M (Probing w pw conn g) s = (Opening w pw conn g, s)" by simp
      then show ?thesis
        using Inr r1 False by (simp add: check_and_unlock_def proc_simps drive_opening del: drive.simps
            add: drive_move [of "Probing w pw conn g"])
    next
      case True
      with r1 Inr have probe: "advance M (Probing w pw conn g) s = (Verifying w pw conn g, s)" by simp
      show ?thesis
      proof (cases r2)
        case (Inl e)
        with r2 have "advance M (Verifying w pw conn g) s = (Releasing w g e, s)" by simp
        then show ?thesis
          using Inl Inr r1 r2 True probe
          by (simp add: check_and_unlock_def proc_simps drive_releasing del: drive.simps
              add: drive_move [of "Probing w pw conn g"] drive_move [of "Verifying w pw conn g"])
      next
        case (Inr u)
        with r2 have "advance M (Verifying w pw conn g) s = (Reprobing w pw conn g, s)" by simp
        moreover have "advance M (Reprobing w pw conn g) s = (Confirming w g, s)"
          using r1 \<open>r1 = Inr b\<close> True by simp
        ultimately show ?thesis
          using Inr \<open>r1 = Inr b\<close> r1 r2 True probe
          by (simp add: check_and_unlock_def proc_simps drive_confirming del: drive.simps
              add: drive_move [of "Probing w pw conn g"] drive_move [of "Verifying w pw conn g"]
                drive_move [of "Reprobing w pw conn g"])
      qed
    qed
  qed
qed

lemma drive_unlocking:
  "drive M 11 (Unlocking path w pw) s =
     (case unlock_begin M path w s of
        (Inl e, s') \<Rightarrow> (Finished w (Failed e), s')
      | (Inr (pool, g), s') \<Rightarrow> unlock_rest M w g (unlock_check M pool w pw s'))"
proof -
  obtain r u where run: "unlock_begin M path w s = (r, u)" by (cases "unlock_begin M path w s")
  have eleven: "(11::nat) = Suc (Suc (Suc (Suc (Suc (Suc (Suc (Suc (Suc (Suc (Suc 0))))))))))"
    by simp
  show ?thesis
  proof (cases r)
    case (Inl e)
    with run show ?thesis by (simp add: eleven drive_move [of "Unlocking path w pw"] del: drive.simps)
  next
    case (Inr pg)
    obtain pool g where pg: "pg = (pool, g)" by (cases pg)
    have one: "drive M 11 (Unlocking path w pw) s =
        drive M (Suc (Suc (Suc (Suc (Suc (Suc (Suc (Suc (Suc 0))))))))) (Holding w pw pool g) u"
      using run Inr pg by (simp add: eleven drive_move [of "Unlocking path w pw"] drive.simps(2)
          [of M _ "Counted w pw pool g"] del: drive.simps)
    obtain r' where conn: "get_conn M pool u = (r', u)" by (simp add: get_conn_def)
    show ?thesis
    proof (cases r')
      case (Inl e)
      with conn one run \<open>r = Inr pg\<close> pg show ?thesis
        by (simp add: unlock_check_def proc_simps drive_move [of "Holding w pw pool g"]
            drive_releasing del: drive.simps)
    next
      case (Inr c)
      with conn one run \<open>r = Inr pg\<close> pg show ?thesis
        by (simp add: unlock_check_def proc_simps drive_move [of "Holding w pw pool g"]
            drive_probing [of M 0] del: drive.simps)
    qed
  qed
qed

lemma drive_steps:
  assumes "drive M n t (glob y) = (t', s')" "tasks y i = Some t"
    "\<forall>j u. j \<noteq> i \<longrightarrow> tasks y j = Some u \<longrightarrow> holds u = None"
  shows "steps (system_step M has) n y (put i t' (y\<lparr>glob := s'\<rparr>))"
  using assms
proof (induction n arbitrary: t y)
  case 0
  then have "put i t' (y\<lparr>glob := s'\<rparr>) = y" by (simp add: put_def fun_upd_idem)
  then show ?case by (simp add: steps_0)
next
  case (Suc n)
  have "\<exists>t1 s1. system_step M has y (put i t1 (y\<lparr>glob := s1\<rparr>)) \<and> drive M n t1 s1 = (t', s')"
  proof (cases "waits_for t")
    case None
    obtain t1 s1 where a: "advance M t (glob y) = (t1, s1)" by (cases "advance M t (glob y)")
    then show ?thesis using Suc.prems(1) None system_step.move [OF Suc.prems(2) None a] by auto
  next
    case (Some w)
    then have "holds t = None" by (cases t) auto
    then have "\<forall>j u. tasks y j = Some u \<longrightarrow> holds u \<noteq> Some w"
      using Suc.prems(2,3) by (metis option.distinct(1) option.inject)
    from system_step.gate [OF Suc.prems(2) Some this] show ?thesis
      using Suc.prems(1) Some by (intro exI [of _ "enter_gate t"] exI [of _ "glob y"]) simp
  qed
  then obtain t1 s1 where one: "system_step M has y (put i t1 (y\<lparr>glob := s1\<rparr>))"
    and rest: "drive M n t1 s1 = (t', s')" by blast
  let ?z = "put i t1 (y\<lparr>glob := s1\<rparr>)"
  have "steps (system_step M has) n ?z (put i t' (?z\<lparr>glob := s'\<rparr>))"
    using rest Suc.prems(3) by (intro Suc.IH [of t1]) (auto simp: put_def)
  moreover have "put i t' (?z\<lparr>glob := s'\<rparr>) = put i t' (y\<lparr>glob := s'\<rparr>)"
    by (simp add: put_def)
  ultimately show ?case using steps_trans [OF _ steps_1 [of "system_step M has" y ?z]] one by fastforce
qed

text \<open>An example run: one call of \<open>unlock_wallet\<close> that ends with wallet \<open>w\<close> unlocked.\<close>

lemma example_unlock_run:
  "drive example_minotari 11 (Unlocking (lit ''db'') (lit ''w'') (lit ''pw'')) example_start =
    (Finished (lit ''w'') (Unlocked 0), example_unlocked)"
  by (simp add: drive_unlocking unlock_begin_def close_other_pool_def shared_pool_def
      open_pool_def init_pool_def release_expired_reservations_def acquire_session_def
      unlock_check_def get_conn_def check_and_unlock_def check_is_unlocked_def
      unlock_session_def confirm_still_counted_def still_counted_def session_generation_def
      on_world_def upd_db_def init_bridge_def init_DbState_def example_unlocked_def sat_add_def
      proc_simps)

definition example_system :: "(rstring set, unit, unit) system" where
  "example_system = \<lparr>glob = example_unlocked,
     tasks = (\<lambda>_. None)(0 \<mapsto> Finished (lit ''w'') (Unlocked 0))\<rparr>"

lemma example_system_reachable:
  "steps (system_step example_minotari has) 12 (system_start {}) example_system"
proof -
  let ?t = "Unlocking (lit ''db'') (lit ''w'') (lit ''pw'')" and ?y = "system_start {}"
  have call: "system_step example_minotari has ?y (put 0 ?t ?y)"
    by (rule system_step.call) (simp_all add: system_start_def)
  have "steps (system_step example_minotari has) 11 (put 0 ?t ?y)
      (put 0 (Finished (lit ''w'') (Unlocked 0)) ((put 0 ?t ?y)\<lparr>glob := example_unlocked\<rparr>))"
    using example_unlock_run by (intro drive_steps) (auto simp: put_def system_start_def)
  moreover have "put 0 (Finished (lit ''w'') (Unlocked 0)) ((put 0 ?t ?y)\<lparr>glob := example_unlocked\<rparr>)
      = example_system"
    by (simp add: put_def example_system_def system_start_def fun_eq_iff)
  ultimately show ?thesis using steps_trans [OF _ steps_1 [of "system_step example_minotari has", OF call]] by fastforce
qed

section \<open>Results\<close>

text \<open>
  C2 (safety): a session that is unlocked and counted is really open. However unlocks, locks
  and force locks of any wallets interleave, at every state: if some \<open>unlock_wallet\<close> of a
  wallet has returned \<open>Ok\<close> and the count it took (its generation) is still the wallet's, the
  wallet's key session is there. (Fewer than \<open>2 ^ 64\<close> steps, and no thread panicked while it
  held the state.)
\<close>

theorem counted_unlock_stays_open:
  assumes "session_laws M has" and "\<forall>w. \<not> has wd w"
    and "steps (system_step M has) n (system_start wd) y" and "n < 2 ^ 64"
    and "\<not> db_poisoned (glob y)"
    and "tasks y i = Some (Finished w (Unlocked g))"
    and "session_generation w (DB_STATE (glob y)) = Some g"
  shows "has (world (glob y)) w"
proof -
  have "unlocked_open (view_of has (glob y)) (tasks y)"
    using reachable_safe [OF assms(1-4)] by (simp add: sessions_safe_def Let_def)
  with assms(5-7) show ?thesis by (auto simp: unlocked_open_def view_of_def)
qed

theorem counted_unlock_stays_open_witness: "lit ''w'' \<in> world (glob example_system)"
proof (rule counted_unlock_stays_open [OF example_session_laws _ example_system_reachable])
  show "tasks example_system 0 = Some (Finished (lit ''w'') (Unlocked 0))"
    by (simp add: example_system_def)
  show "session_generation (lit ''w'') (DB_STATE (glob example_system)) = Some 0"
    by (simp add: example_system_def example_unlocked_def session_generation_def)
qed (simp_all add: example_system_def example_unlocked_ok)

text \<open>
  C4 (safety): no key stays in memory. In every reachable state, a wallet that no holder is
  counted for has no key session, unless a call is still on its way to decide about it:
  confirming its unlock, waiting for the gate to lock, or locking.
\<close>

theorem uncounted_session_is_locked:
  assumes "session_laws M has" and "\<forall>w. \<not> has wd w"
    and "steps (system_step M has) n (system_start wd) y" and "n < 2 ^ 64"
    and "\<not> db_poisoned (glob y)"
    and "session_generation w (DB_STATE (glob y)) = None"
    and "\<forall>i t. tasks y i = Some t \<longrightarrow> pending t \<noteq> Some w"
  shows "\<not> has (world (glob y)) w"
proof -
  have "open_accounted (view_of has (glob y)) (tasks y)"
    using reachable_safe [OF assms(1-4)] by (simp add: sessions_safe_def Let_def)
  with assms(5-7) show ?thesis by (auto simp: open_accounted_def view_of_def)
qed

theorem uncounted_session_is_locked_witness: "lit ''v'' \<notin> world (glob example_system)"
proof (rule uncounted_session_is_locked [OF example_session_laws _ example_system_reachable])
  show "session_generation (lit ''v'') (DB_STATE (glob example_system)) = None"
    by (simp add: example_system_def example_unlocked_def session_generation_def)
  show "\<forall>i t. tasks example_system i = Some t \<longrightarrow> pending t \<noteq> Some (lit ''v'')"
    by (simp add: example_system_def)
qed (simp_all add: example_system_def example_unlocked_ok)

text \<open>
  C6 (safety): a force lock wins over an unlock that is still running. An \<open>unlock_wallet\<close> that
  had taken its count but not returned when a force lock (or delete, or rename) of the wallet
  removed the entry never returns \<open>Ok\<close>, whatever runs afterwards, even when newer holders of
  the wallet count and unlock again before it goes on.
\<close>

theorem force_lock_wins:
  assumes "session_laws M has" and "\<forall>w. \<not> has wd w"
    and "steps (system_step M has) n (system_start wd) y"
    and "tasks y i = Some t" and "task_wallet t = w" and "task_generation t = Some g"
    and "unlocked_with t = None"
    and "tasks y j = Some (Forcing w)" and "advance M (Forcing w) (glob y) = (Waiting w After_Force, s)"
    and "steps (system_step M has) m (put j (Waiting w After_Force) (y\<lparr>glob := s\<rparr>)) z"
    and "n + 1 + m < 2 ^ 64"
  shows "tasks z i \<noteq> Some (Finished w (Unlocked g'))"
proof -
  let ?z = "put j (Waiting w After_Force) (y\<lparr>glob := s\<rparr>)"
  have n: "n < 2 ^ 64" "Suc n < 2 ^ 64" using assms(11) by linarith+
  have safe: "sessions_safe has n y" by (rule reachable_safe [OF assms(1-3) n(1)])
  have "system_step M has y ?z"
    by (rule system_step.move [OF assms(8) _ assms(9)]) simp
  then have safe': "sessions_safe has (Suc n) ?z"
    by (rule sessions_safe_step [OF assms(1) n(2) safe])
  have s: "s = upd_db (remove_session w) (glob y)"
    using assms(9) by (auto simp: proc_simps split: if_splits)
  have g: "g < next_generation (DB_STATE (glob y))"
    using safe assms(4,6) by (auto simp: sessions_safe_def Let_def generations_ok_def view_of_def)
  have "\<not> starts t" "i \<noteq> j" using assms(4,6,8) by (cases t; auto)+
  then have "evicted w i g (view_of has (glob ?z)) (tasks ?z)"
    using assms(4-7) g remove_view [of w "DB_STATE (glob y)"]
    by (auto simp: evicted_def put_def s force_view) (simp add: view_of_def)
  with safe' have "session_laws M has \<longrightarrow> sessions_safe has (Suc n + m) z \<and>
      evicted w i g (view_of has (glob z)) (tasks z)"
    using assms(11) by (intro evicted_system.along_run [OF assms(10)]) simp_all
  then have "evicted w i g (view_of has (glob z)) (tasks z)" using assms(1) by simp
  then show ?thesis
    unfolding evicted_def by (metis option.distinct(1) option.inject unlocked_with.simps(1))
qed

text \<open>
  An example: wallet \<open>w\<close>'s unlock has counted and waits for the gate when a force lock
  removes the entry; then the unlock runs to its end.
\<close>

definition example_counted :: "(rstring set, unit, unit) system" where
  "example_counted =
     put 1 (Forcing (lit ''w''))
       (put 0 (Counted (lit ''w'') (lit ''pw'') () 0)
         \<lparr>glob = example_unlocked\<lparr>world := {}\<rparr>, tasks = (\<lambda>_. None)\<rparr>)"

definition example_forced :: "(rstring set, unit, unit) system" where
  "example_forced =
     put 1 (Waiting (lit ''w'') After_Force)
       (example_counted\<lparr>glob := upd_db (remove_session (lit ''w'')) (glob example_counted)\<rparr>)"

definition example_forced_end :: "(rstring set, unit, unit) system" where
  "example_forced_end =
     (case drive example_minotari 10 (Counted (lit ''w'') (lit ''pw'') () 0) (glob example_forced) of
        (t, s) \<Rightarrow> put 0 t (example_forced\<lparr>glob := s\<rparr>))"

lemma example_counted_reachable:
  "steps (system_step example_minotari has) 3 (system_start {}) example_counted"
proof -
  let ?S = "system_step example_minotari has" and ?y = "system_start {}"
  let ?t = "Unlocking (lit ''db'') (lit ''w'') (lit ''pw'')"
  let ?c = "Counted (lit ''w'') (lit ''pw'') () 0" and ?g = "example_unlocked\<lparr>world := {}\<rparr>"
  have adv: "advance example_minotari ?t example_start = (?c, ?g)"
    by (simp add: unlock_begin_def close_other_pool_def shared_pool_def
        open_pool_def init_pool_def release_expired_reservations_def acquire_session_def
        on_world_def upd_db_def init_bridge_def init_DbState_def example_unlocked_def sat_add_def
        proc_simps)
  have 1: "?S ?y (put 0 ?t ?y)"
    by (rule system_step.call) (simp_all add: system_start_def)
  have 2: "?S (put 0 ?t ?y) (put 0 ?c ((put 0 ?t ?y)\<lparr>glob := ?g\<rparr>))"
    using adv by (intro system_step.move [of _ _ ?t]) (simp_all add: put_def system_start_def)
  have 3: "?S (put 0 ?c ((put 0 ?t ?y)\<lparr>glob := ?g\<rparr>)) example_counted"
  proof -
    have "example_counted = put 1 (Forcing (lit ''w'')) (put 0 ?c ((put 0 ?t ?y)\<lparr>glob := ?g\<rparr>))"
      by (simp add: example_counted_def put_def system_start_def fun_eq_iff)
    moreover have "?S (put 0 ?c ((put 0 ?t ?y)\<lparr>glob := ?g\<rparr>))
        (put 1 (Forcing (lit ''w'')) (put 0 ?c ((put 0 ?t ?y)\<lparr>glob := ?g\<rparr>)))"
      by (rule system_step.call) (simp_all add: put_def system_start_def)
    ultimately show ?thesis by simp
  qed
  have "steps ?S (Suc (Suc (Suc 0))) ?y example_counted"
    by (intro steps_Suc [where R = ?S, OF _ 3] steps_Suc [where R = ?S, OF _ 2]
        steps_Suc [where R = ?S, OF _ 1] steps_0)
  then show ?thesis by (simp add: eval_nat_numeral)
qed

theorem force_lock_wins_witness:
  "tasks example_forced_end 0 \<noteq> Some (Finished (lit ''w'') (Unlocked 0))"
proof -
  let ?c = "Counted (lit ''w'') (lit ''pw'') () 0"
  obtain t s where run: "drive example_minotari 10 ?c (glob example_forced) = (t, s)"
    by (cases "drive example_minotari 10 ?c (glob example_forced)")
  have "steps (system_step example_minotari (\<lambda>wd w. w \<in> wd)) 10 example_forced
      (put 0 t (example_forced\<lparr>glob := s\<rparr>))"
    by (rule drive_steps [OF run]) (auto simp: example_forced_def example_counted_def put_def)
  then have after: "steps (system_step example_minotari (\<lambda>wd w. w \<in> wd)) 10
      (put 1 (Waiting (lit ''w'') After_Force)
        (example_counted\<lparr>glob := upd_db (remove_session (lit ''w'')) (glob example_counted)\<rparr>))
      example_forced_end"
    using run by (simp add: example_forced_end_def example_forced_def)
  show ?thesis
    by (rule force_lock_wins [OF example_session_laws _ example_counted_reachable _ _ _ _ _ _ after,
          where t = ?c and g = 0])
       (simp_all add: example_counted_def put_def proc_simps example_unlocked_def init_bridge_def)
qed




end
