(* ===== verification/Session_Progress.thy ===== *)
theory Session_Progress
  imports Session_Interleaving
begin

text \<open>
  The session calls of \<open>src/api/db.rs\<close> end, in any interleaving: each section brings its call
  closer to its end, and while a call is in progress some call can take its next section, so
  that no set of calls waits for each other's gates. Of minotari this needs only that its calls
  return, which the functions of the model do.
\<close>

section \<open>The sections a call has left\<close>

definition finished :: "('p, 'c) task \<Rightarrow> bool" where
  "finished t \<longleftrightarrow> (\<exists>w r. t = Finished w r)"

text \<open>
  The longest way of a call to its end: an unlock that finds a session, verifies the
  passphrase, finds the session gone, unlocks, and then finds its count gone.
\<close>

fun sections_left :: "('p, 'c) task \<Rightarrow> nat" where
  "sections_left (Unlocking path w pw) = 11"
| "sections_left (Counted w pw pool g) = 10"
| "sections_left (Holding w pw pool g) = 9"
| "sections_left (Probing w pw conn g) = 8"
| "sections_left (Verifying w pw conn g) = 7"
| "sections_left (Reprobing w pw conn g) = 6"
| "sections_left (Opening w pw conn g) = 5"
| "sections_left (Confirming w g) = 4"
| "sections_left (Releasing w g e) = 4"
| "sections_left (Locking w) = 5"
| "sections_left (Forcing w) = 5"
| "sections_left (Waiting w k) = 4"
| "sections_left (Deciding w k) = 3"
| "sections_left (Dropping w k) = 2"
| "sections_left (Cancelling w k) = 1"
| "sections_left (Finished w r) = 0"

lemma sections_left_le: "sections_left t \<le> 11"
  by (cases t) simp_all

lemma finished_iff: "finished t \<longleftrightarrow> sections_left t = 0"
  by (cases t) (simp_all add: finished_def)

lemma advance_decreases:
  assumes "waits_for t = None" "\<not> finished t"
  shows "sections_left (fst (advance M t s)) < sections_left t"
  using assms by (cases t) (simp_all add: finished_def split: prod.splits sum.splits)

lemma enter_gate_decreases:
  "waits_for t = Some w \<Longrightarrow> sections_left (enter_gate t) < sections_left t"
  by (cases t) simp_all

lemma waiting_holds_nothing: "holds t = Some w \<Longrightarrow> waits_for t = None \<and> \<not> finished t"
  by (cases t) (simp_all add: finished_def)

section \<open>Runs in which no call arrives\<close>

text \<open>
  One section of one call. A call that waits for its wallet's gate enters when no call holds
  it; every other call that has not ended runs its next section.
\<close>

inductive work_step ::
  "('w, 'p, 'c, 'a, 'm) minotari_scheme \<Rightarrow> ('w, 'p, 'c) system \<Rightarrow> ('w, 'p, 'c) system \<Rightarrow> bool" for M where
  enter: "tasks y i = Some t \<Longrightarrow> waits_for t = Some w \<Longrightarrow>
    (\<forall>j u. tasks y j = Some u \<longrightarrow> holds u \<noteq> Some w) \<Longrightarrow>
    work_step M y (put i (enter_gate t) y)"
| run: "tasks y i = Some t \<Longrightarrow> waits_for t = None \<Longrightarrow> \<not> finished t \<Longrightarrow>
    advance M t (glob y) = (t', s') \<Longrightarrow> work_step M y (put i t' (y\<lparr>glob := s'\<rparr>))"

lemma work_step_system_step: "work_step M y z \<Longrightarrow> system_step M has y z"
  by (induction rule: work_step.induct) (auto intro: system_step.gate system_step.move)

text \<open>
  A run of the system in which the calls of \<open>y\<close> take \<open>n\<close> sections in any order, a panicking
  thread may poison the state and other code of the crate runs in between.
\<close>

inductive closed_run ::
  "('w, 'p, 'c, 'a, 'm) minotari_scheme \<Rightarrow> ('w \<Rightarrow> rstring \<Rightarrow> bool) \<Rightarrow>
     nat \<Rightarrow> ('w, 'p, 'c) system \<Rightarrow> ('w, 'p, 'c) system \<Rightarrow> bool" for M has where
  start: "closed_run M has 0 y y"
| work: "closed_run M has n x y \<Longrightarrow> work_step M y z \<Longrightarrow> closed_run M has (Suc n) x z"
| poison: "closed_run M has n x y \<Longrightarrow>
    closed_run M has n x (y\<lparr>glob := (glob y)\<lparr>db_poisoned := True\<rparr>\<rparr>)"
| other: "closed_run M has n x y \<Longrightarrow> DB_STATE s' = DB_STATE (glob y) \<Longrightarrow>
    db_poisoned s' = db_poisoned (glob y) \<Longrightarrow> has (world s') = has (world (glob y)) \<Longrightarrow>
    closed_run M has n x (y\<lparr>glob := s'\<rparr>)"

definition work_left :: "('w, 'p, 'c) system \<Rightarrow> nat" where
  "work_left y = (\<Sum>i \<in> dom (tasks y). sections_left (the (tasks y i)))"

definition all_finished :: "('w, 'p, 'c) system \<Rightarrow> bool" where
  "all_finished y \<longleftrightarrow> (\<forall>i t. tasks y i = Some t \<longrightarrow> finished t)"

lemma tasks_glob [simp]: "tasks (y\<lparr>glob := s\<rparr>) = tasks y"
  by simp

lemma work_left_glob [simp]: "work_left (y\<lparr>glob := s\<rparr>) = work_left y"
  by (simp add: work_left_def)

lemma work_left_put:
  assumes "finite (dom (tasks y))" "tasks y i = Some t" "sections_left t' < sections_left t"
  shows "work_left (put i t' y) < work_left y" "dom (tasks (put i t' y)) = dom (tasks y)"
proof -
  have i: "i \<in> dom (tasks y)" using assms(2) by auto
  then show d: "dom (tasks (put i t' y)) = dom (tasks y)" by (auto simp: put_def)
  have "work_left (put i t' y) = (\<Sum>j \<in> dom (tasks y). if j = i then sections_left t' else sections_left (the (tasks y j)))"
    unfolding work_left_def d by (rule sum.cong) (auto simp: put_def)
  also have "\<dots> < work_left y"
    unfolding work_left_def by (rule sum_strict_mono_ex1) (use assms i in auto)
  finally show "work_left (put i t' y) < work_left y" .
qed

lemma work_step_decreases:
  assumes "work_step M y z" "finite (dom (tasks y))"
  shows "work_left z < work_left y" "dom (tasks z) = dom (tasks y)"
  using assms
proof (atomize (full), induction rule: work_step.induct)
  case (enter y i t w)
  then show ?case
    using enter_gate_decreases [OF enter(2)] work_left_put [of y i t "enter_gate t"] by blast
next
  case (run y i t t' s')
  then have "sections_left t' < sections_left t" using advance_decreases by (metis fst_conv)
  with run show ?case using work_left_put [of "y\<lparr>glob := s'\<rparr>" i t t'] by simp
qed

lemma closed_run_bound:
  assumes "closed_run M has n y z" "finite (dom (tasks y))"
  shows "n + work_left z \<le> work_left y \<and> dom (tasks z) = dom (tasks y)"
  using assms
proof (induction rule: closed_run.induct)
  case (work n x y z)
  then show ?case using work_step_decreases [of M y z] by auto
qed simp_all

lemma work_left_le: "finite (dom (tasks y)) \<Longrightarrow> work_left y \<le> 11 * card (dom (tasks y))"
  unfolding work_left_def
  using sum_bounded_above [of "dom (tasks y)" "\<lambda>i. sections_left (the (tasks y i))" 11, OF sections_left_le]
  by (simp add: mult.commute)

text \<open>While a call has not ended, some call can take its next section.\<close>

lemma work_available:
  assumes "\<not> all_finished y"
  obtains z where "work_step M y z"
proof (cases "\<exists>i t. tasks y i = Some t \<and> waits_for t = None \<and> \<not> finished t")
  case True
  then show ?thesis using that work_step.run by (metis prod.collapse)
next
  case False
  then have nobody: "holds u \<noteq> Some w" if "tasks y j = Some u" for j u w
    using that waiting_holds_nothing by blast
  from assms obtain i t where "tasks y i = Some t" "\<not> finished t"
    by (auto simp: all_finished_def)
  moreover from this False obtain w where "waits_for t = Some w"
    by (metis option.exhaust)
  ultimately have "tasks y i = Some t" "waits_for t = Some w" by blast+
  with nobody show ?thesis using that work_step.enter by blast
qed

lemma closed_run_completes:
  assumes "finite (dom (tasks y))"
  shows "closed_run M has n x y \<Longrightarrow> \<exists>k z. closed_run M has (n + k) x z \<and> all_finished z"
  using assms
proof (induction "work_left y" arbitrary: y n rule: less_induct)
  case less
  show ?case
  proof (cases "all_finished y")
    case True
    with less.prems show ?thesis by (metis add_0_right)
  next
    case False
    then obtain z where step: "work_step M y z" by (rule work_available)
    with less.prems have "closed_run M has (Suc n) x z" by (blast intro: closed_run.work)
    with less.hyps work_step_decreases [OF step less.prems(2)] less.prems(2)
    obtain k z' where "closed_run M has (Suc n + k) x z'" "all_finished z'" by metis
    then have "closed_run M has (n + Suc k) x z' \<and> all_finished z'" by simp
    then show ?thesis by blast
  qed
qed

section \<open>Every call ends\<close>

text \<open>
  C5 (termination): the session calls end. In whatever order finitely many calls of
  \<open>unlock_wallet\<close>, \<open>lock_wallet\<close> and \<open>force_lock_wallet\<close> run their sections, with other code of
  the crate in between, they take at most 11 sections each; at any point of such a run either
  every call has ended or one of them can go on, and going on leads to a state in which every
  call has ended. (The wait of a lock for the scans it cancelled is not a section of these.)
\<close>

theorem session_calls_terminate:
  assumes "finite (dom (tasks y))" "closed_run M has n y z"
  shows "n \<le> 11 * card (dom (tasks y)) \<and>
    (all_finished z \<or> (\<exists>z'. work_step M z z')) \<and>
    (\<exists>k z'. closed_run M has (n + k) y z' \<and> all_finished z')"
proof -
  note bound = closed_run_bound [OF assms(2,1)]
  have "n \<le> 11 * card (dom (tasks y))"
    using bound work_left_le [OF assms(1)] by linarith
  moreover have "all_finished z \<or> (\<exists>z'. work_step M z z')"
    using work_available by blast
  moreover have "\<exists>k z'. closed_run M has (n + k) y z' \<and> all_finished z'"
    using closed_run_completes [OF _ assms(2)] bound assms(1) by simp
  ultimately show ?thesis by blast
qed

definition example_calls :: "(rstring set, unit, unit) system" where
  "example_calls =
     \<lparr>glob = init_bridge {},
      tasks = [0 \<mapsto> Locking (lit ''w''), 1 \<mapsto> Unlocking (lit ''db'') (lit ''w'') (lit ''pw'')]\<rparr>"

theorem session_calls_terminate_witness:
  "\<exists>k z'. closed_run example_minotari (\<lambda>wd w. w \<in> wd) (1 + k) example_calls z' \<and> all_finished z'"
proof -
  let ?t = "Finished (lit ''w'') (Lock_Returned False)"
  have "advance example_minotari (Locking (lit ''w'')) (init_bridge {}) = (?t, init_bridge {})"
    by (simp add: release_session_def write_db_state_def release_one_def init_bridge_def init_DbState_def
        upd_db_def proc_simps)
  then have "work_step example_minotari example_calls (put 0 ?t (example_calls\<lparr>glob := init_bridge {}\<rparr>))"
    by (intro work_step.run [where t = "Locking (lit ''w'')"])
       (simp_all add: example_calls_def finished_def)
  then have "closed_run example_minotari (\<lambda>wd w. w \<in> wd) 1 example_calls
      (put 0 ?t (example_calls\<lparr>glob := init_bridge {}\<rparr>))"
    using closed_run.work [OF closed_run.start] by fastforce
  moreover have "finite (dom (tasks example_calls))" by (simp add: example_calls_def)
  ultimately show ?thesis using session_calls_terminate by blast
qed

end
