(* ===== verification/Scan_Interleaving.thy ===== *)
theory Scan_Interleaving
  imports Scan_State
begin

text \<open>
  Many scans and maintenance operations at once (\<open>src/api/scanner.rs\<close>): any number of runs of
  \<open>run_scan\<close>, interleaved at every guard, lock and await with stops, locks and maintenance
  operations. The sections are the definitions of \<open>Scan_State\<close>.
\<close>

section \<open>Runs\<close>

text \<open>
  Where a run is: waiting for the maintenance lock, holding it, in the slot and waiting for
  the scan it replaced, scanning (from the end of that wait to the clearing of the slot),
  about to return, returned. A run that took a slot carries the number of its turn.
\<close>

datatype phase =
    Starting
  | Entering
  | Replacing nat "ScanController option"
  | Scanning nat
  | Ending "nat option"
  | Ended "nat option"

record scan_run =
  run_wallet :: rstring
  run_sid :: u64
  run_priority :: ScanPriority
  run_phase :: phase

definition controller_of :: "nat \<Rightarrow> scan_run \<Rightarrow> ScanController" where
  "controller_of r run =
     \<lparr>ctl_id = run_sid run, ctl_priority = run_priority run, ctl_token = Token r,
      ctl_superseded = Superseded_Flag r, ctl_stopped = Stopped_Token r\<rparr>"

text \<open>
  Where a maintenance operation is: holding the wallet's lock, waiting for the scan it
  cancelled to stop, or done with stopping.
\<close>

datatype maintenance = Held | Stopping cell | Quiet

record ('w, 'p) scan_system =
  sglob :: "('w, 'p) bridge"
  sruns :: "nat \<Rightarrow> scan_run option"
  turns :: nat
  maint :: "rstring \<Rightarrow> maintenance option"

type_synonym all_runs = "nat \<Rightarrow> scan_run option"

definition at_phase :: "all_runs \<Rightarrow> nat \<Rightarrow> phase \<Rightarrow> all_runs" where
  "at_phase R r p = R(r := map_option (\<lambda>run. run\<lparr>run_phase := p\<rparr>) (R r))"

definition move :: "nat \<Rightarrow> phase \<Rightarrow> ('w, 'p) bridge \<Rightarrow> ('w, 'p) scan_system \<Rightarrow> ('w, 'p) scan_system" where
  "move r p s y = y\<lparr>sruns := at_phase (sruns y) r p, sglob := s\<rparr>"

text \<open>
  The steps. \<open>lost\<close> is a task that panics while it scans: its drop guard fires the stopped
  token, and the slot is not cleared. \<open>outside\<close> is any other code of the process.
\<close>

inductive scan_step :: "('w, 'p) scan_system \<Rightarrow> ('w, 'p) scan_system \<Rightarrow> bool" where
  begin_run: "sruns y (next_run (sglob y)) = None \<Longrightarrow>
    claim_handle h ((sglob y)\<lparr>next_run := next_run (sglob y) + 1\<rparr>) = (Inr False, s) \<Longrightarrow>
    scan_step y (y\<lparr>sglob := s, sruns := (sruns y)(next_run (sglob y) \<mapsto>
      \<lparr>run_wallet = handle_wallet h, run_sid = handle_id h, run_priority = p, run_phase = Starting\<rparr>)\<rparr>)"
| not_begun: "claim_handle h (sglob y) = (rb, s) \<Longrightarrow> rb \<noteq> Inr False \<Longrightarrow>
    scan_step y (y\<lparr>sglob := s\<rparr>)"
| give_up: "sruns y r = Some run \<Longrightarrow> run_phase run = Starting \<Longrightarrow>
    scan_step y (move r (Ending None) (sglob y) y)"
| lock: "sruns y r = Some run \<Longrightarrow> run_phase run = Starting \<Longrightarrow>
    run_wallet run \<notin> MAINT_HELD (sglob y) \<Longrightarrow>
    scan_step y (move r Entering
      ((sglob y)\<lparr>MAINT_HELD := insert (run_wallet run) (MAINT_HELD (sglob y))\<rparr>) y)"
| refused: "sruns y r = Some run \<Longrightarrow> run_phase run = Entering \<Longrightarrow>
    enter_slot (run_sid run) (run_wallet run) (controller_of r run) (sglob y) = (res, s) \<Longrightarrow>
    \<nexists>previous. res = Inr (Some previous) \<Longrightarrow>
    scan_step y (move r (Ending None) (end_maintenance (run_wallet run) s) y)"
| enter: "sruns y r = Some run \<Longrightarrow> run_phase run = Entering \<Longrightarrow>
    enter_slot (run_sid run) (run_wallet run) (controller_of r run) (sglob y) = (Inr (Some previous), s) \<Longrightarrow>
    scan_step y (move r (Replacing (turns y) previous)
      (end_maintenance (run_wallet run) s) (y\<lparr>turns := turns y + 1\<rparr>))"
| wait: "sruns y r = Some run \<Longrightarrow> run_phase run = Replacing k previous \<Longrightarrow>
    (case previous of None \<Rightarrow> True | Some p \<Rightarrow> is_set (ctl_stopped p) (sglob y)) \<Longrightarrow>
    scan_step y (move r (Scanning k) (sglob y) y)"
| clear: "sruns y r = Some run \<Longrightarrow> run_phase run = Scanning k \<Longrightarrow>
    scan_step y (move r (Ending (Some k))
      (clear_scan_if_current (run_wallet run) (run_sid run) (sglob y)) y)"
| lost: "sruns y r = Some run \<Longrightarrow> run_phase run = Scanning k \<Longrightarrow>
    scan_step y (move r (Ended (Some k)) (set_cell (Stopped_Token r) (sglob y)) y)"
| finish: "sruns y r = Some run \<Longrightarrow> run_phase run = Ending ko \<Longrightarrow>
    scan_step y (move r (Ended ko)
      (set_cell (Stopped_Token r) (leave_starting (run_sid run) (sglob y))) y)"
| create: "create_scan_handle w (sglob y) = (rh, s) \<Longrightarrow> scan_step y (y\<lparr>sglob := s\<rparr>)"
| stop: "stop_scan_begin h (sglob y) = (rc, s) \<Longrightarrow> scan_step y (y\<lparr>sglob := s\<rparr>)"
| cancel: "cancel_wallet_scans w (sglob y) = (rc, s) \<Longrightarrow> scan_step y (y\<lparr>sglob := s\<rparr>)"
| poison: "scan_step y (y\<lparr>sglob := (sglob y)\<lparr>scan_poisoned := True\<rparr>\<rparr>)"
| maintain: "maint y w = None \<Longrightarrow> w \<notin> MAINT_HELD (sglob y) \<Longrightarrow>
    scan_step y (y\<lparr>sglob := (sglob y)\<lparr>MAINT_HELD := insert w (MAINT_HELD (sglob y))\<rparr>,
      maint := (maint y)(w \<mapsto> Held)\<rparr>)"
| stop_all: "maint y w = Some Held \<Longrightarrow> cancel_wallet_scans w (sglob y) = (Inr stopped, s) \<Longrightarrow>
    scan_step y (y\<lparr>sglob := s,
      maint := (maint y)(w \<mapsto> (case stopped of None \<Rightarrow> Quiet | Some c \<Rightarrow> Stopping c))\<rparr>)"
| stopped: "maint y w = Some (Stopping c) \<Longrightarrow> is_set c (sglob y) \<Longrightarrow>
    scan_step y (y\<lparr>maint := (maint y)(w \<mapsto> Quiet)\<rparr>)"
| release: "maint y w = Some m \<Longrightarrow>
    scan_step y (y\<lparr>sglob := end_maintenance w (sglob y), maint := (maint y)(w := None)\<rparr>)"
| outside: "SCAN_STATE s = SCAN_STATE (sglob y) \<Longrightarrow> cells s = cells (sglob y) \<Longrightarrow>
    MAINT_HELD s = MAINT_HELD (sglob y) \<Longrightarrow> SCAN_ID s = SCAN_ID (sglob y) \<Longrightarrow>
    next_run s = next_run (sglob y) \<Longrightarrow> scan_step y (y\<lparr>sglob := s\<rparr>)"

definition scan_start :: "'w \<Rightarrow> ('w, 'p) scan_system" where
  "scan_start wd = \<lparr>sglob = init_bridge wd, sruns = (\<lambda>_. None), turns = 0, maint = (\<lambda>_. None)\<rparr>"

section \<open>Turns\<close>

fun turn_of :: "phase \<Rightarrow> nat option" where
  "turn_of (Replacing k _) = Some k"
| "turn_of (Scanning k) = Some k"
| "turn_of (Ending ko) = ko"
| "turn_of (Ended ko) = ko"
| "turn_of _ = None"

fun is_live :: "phase \<Rightarrow> bool" where
  "is_live (Replacing k _) = True"
| "is_live (Scanning k) = True"
| "is_live _ = False"

text \<open>The turns of a wallet's live runs, and that run \<open>q\<close> of wallet \<open>w\<close> had turn \<open>k\<close>.\<close>

definition live :: "all_runs \<Rightarrow> rstring \<Rightarrow> nat set" where
  "live R w = {k. \<exists>r run. R r = Some run \<and> run_wallet run = w \<and> is_live (run_phase run) \<and>
     turn_of (run_phase run) = Some k}"

definition took :: "all_runs \<Rightarrow> nat \<Rightarrow> rstring \<Rightarrow> nat \<Rightarrow> bool" where
  "took R q w k \<longleftrightarrow> (\<exists>run. R q = Some run \<and> run_wallet run = w \<and> turn_of (run_phase run) = Some k)"

section \<open>The invariant\<close>

definition turns_ok :: "all_runs \<Rightarrow> nat \<Rightarrow> bool" where
  "turns_ok R n \<longleftrightarrow> (\<forall>q w k. took R q w k \<longrightarrow> k < n) \<and>
     (\<forall>q w k q' w'. took R q w k \<longrightarrow> took R q' w' k \<longrightarrow> q = q')"

text \<open>No live run of the wallet has a later turn than run \<open>q\<close>.\<close>

definition last_of :: "all_runs \<Rightarrow> rstring \<Rightarrow> nat \<Rightarrow> bool" where
  "last_of R w q \<longleftrightarrow> (\<exists>k. took R q w k \<and> live R w \<subseteq> {..k})"

text \<open>The scan in a slot is the wallet's last turn; a wallet with an empty slot has no live run.\<close>

definition slots_ok :: "all_runs \<Rightarrow> (rstring, ScanController) fmap \<Rightarrow> bool" where
  "slots_ok R slots \<longleftrightarrow>
     (\<forall>w. fmlookup slots w = None \<longrightarrow> live R w = {}) \<and>
     (\<forall>w c. fmlookup slots w = Some c \<longrightarrow>
        (\<exists>q run. R q = Some run \<and> c = controller_of q run \<and> last_of R w q))"

text \<open>A run that waits for another knows the turn before its own; one that scans, or has, was first.\<close>

definition before_ok :: "all_runs \<Rightarrow> rstring \<Rightarrow> nat \<Rightarrow> ScanController option \<Rightarrow> bool" where
  "before_ok R w k previous \<longleftrightarrow>
     (case previous of
        None \<Rightarrow> live R w \<inter> {..<k} = {}
      | Some p \<Rightarrow> \<exists>q j. ctl_stopped p = Stopped_Token q \<and> took R q w j \<and> j < k \<and>
          live R w \<inter> {..<k} \<subseteq> {..j})"

definition waits_ok :: "all_runs \<Rightarrow> bool" where
  "waits_ok R \<longleftrightarrow> (\<forall>r run k previous. R r = Some run \<longrightarrow> run_phase run = Replacing k previous \<longrightarrow>
     before_ok R (run_wallet run) k previous)"

fun scanned :: "phase \<Rightarrow> nat option" where
  "scanned (Scanning k) = Some k"
| "scanned (Ending ko) = ko"
| "scanned (Ended ko) = ko"
| "scanned _ = None"

definition scans_ok :: "all_runs \<Rightarrow> bool" where
  "scans_ok R \<longleftrightarrow> (\<forall>r run k. R r = Some run \<longrightarrow> scanned (run_phase run) = Some k \<longrightarrow>
     live R (run_wallet run) \<inter> {..<k} = {})"

lemma waits_okD: "waits_ok R \<Longrightarrow> R r = Some run \<Longrightarrow> run_phase run = Replacing k v \<Longrightarrow>
    before_ok R (run_wallet run) k v"
  by (simp add: waits_ok_def)

lemma scans_okD: "scans_ok R \<Longrightarrow> R r = Some run \<Longrightarrow> scanned (run_phase run) = Some k \<Longrightarrow>
    live R (run_wallet run) \<inter> {..<k} = {}"
  unfolding scans_ok_def by blast

definition stopped_ok :: "all_runs \<Rightarrow> cell set \<Rightarrow> bool" where
  "stopped_ok R cs \<longleftrightarrow> (\<forall>q. Stopped_Token q \<in> cs \<longleftrightarrow>
     (\<exists>run ko. R q = Some run \<and> run_phase run = Ended ko))"

definition maint_ok :: "all_runs \<Rightarrow> (rstring \<Rightarrow> maintenance option) \<Rightarrow> rstring set \<Rightarrow> bool" where
  "maint_ok R m locked \<longleftrightarrow>
     (\<forall>w. m w \<noteq> None \<longrightarrow> w \<in> locked) \<and>
     (\<forall>r run. R r = Some run \<longrightarrow> run_phase run = Entering \<longrightarrow>
        run_wallet run \<in> locked \<and> m (run_wallet run) = None) \<and>
     (\<forall>r run r' run'. R r = Some run \<longrightarrow> R r' = Some run' \<longrightarrow> run_phase run = Entering \<longrightarrow>
        run_phase run' = Entering \<longrightarrow> run_wallet run = run_wallet run' \<longrightarrow> r = r')"

definition quiet_ok :: "all_runs \<Rightarrow> (rstring \<Rightarrow> maintenance option) \<Rightarrow> bool" where
  "quiet_ok R m \<longleftrightarrow>
     (\<forall>w c. m w = Some (Stopping c) \<longrightarrow> (\<exists>q. c = Stopped_Token q \<and> last_of R w q)) \<and>
     (\<forall>w. m w = Some Quiet \<longrightarrow> live R w = {})"

text \<open>Every run used up its handle, and no two runs have the same one.\<close>

definition handles_used :: "nat \<Rightarrow> all_runs \<Rightarrow> ('w, 'p) bridge \<Rightarrow> bool" where
  "handles_used n R s \<longleftrightarrow> handles_ok n s \<and>
     (\<forall>r run. R r = Some run \<longrightarrow> spent (run_sid run) n s) \<and>
     (\<forall>r run r' run'. R r = Some run \<longrightarrow> R r' = Some run' \<longrightarrow> run_sid run = run_sid run' \<longrightarrow> r = r')"

definition scans_safe :: "nat \<Rightarrow> ('w, 'p) scan_system \<Rightarrow> bool" where
  "scans_safe n y \<longleftrightarrow>
     handles_used n (sruns y) (sglob y) \<and> turns_ok (sruns y) (turns y) \<and>
     slots_ok (sruns y) (running (SCAN_STATE (sglob y))) \<and>
     waits_ok (sruns y) \<and> scans_ok (sruns y) \<and> stopped_ok (sruns y) (cells (sglob y)) \<and>
     maint_ok (sruns y) (maint y) (MAINT_HELD (sglob y)) \<and> quiet_ok (sruns y) (maint y)"

section \<open>Moving a run\<close>

lemma move_frame [simp]:
  "sruns (move r p s y) = at_phase (sruns y) r p" "sglob (move r p s y) = s"
  "turns (move r p s y) = turns y" "maint (move r p s y) = maint y"
  by (simp_all add: move_def)

lemma controller_of_simps [simp]:
  "controller_of q (run\<lparr>run_phase := p\<rparr>) = controller_of q run"
  "ctl_id (controller_of q run) = run_sid run" "ctl_token (controller_of q run) = Token q"
  "ctl_superseded (controller_of q run) = Superseded_Flag q"
  "ctl_stopped (controller_of q run) = Stopped_Token q"
  by (simp_all add: controller_of_def)

lemma at_phase_other [simp]: "q \<noteq> r \<Longrightarrow> at_phase R r p q = R q"
  by (simp add: at_phase_def)

lemma at_phase_self: "R r = Some run \<Longrightarrow> at_phase R r p r = Some (run\<lparr>run_phase := p\<rparr>)"
  by (simp add: at_phase_def)

text \<open>A run looked up after a move: the one moved or another one.\<close>

lemma at_phaseE:
  assumes "at_phase R r p q = Some run'"
  obtains (moved) run where "q = r" "R r = Some run" "run' = run\<lparr>run_phase := p\<rparr>"
    | (other) "q \<noteq> r" "R q = Some run'"
  using assms by (cases "q = r") (auto simp: at_phase_def)

lemma at_phase_keeps:
  assumes "R q = Some run"
  obtains run' where "at_phase R r p q = Some run'" "controller_of q run' = controller_of q run"
    "run_wallet run' = run_wallet run" "run_sid run' = run_sid run"
  using assms at_phase_self [of R q run p] by (cases "q = r") auto

text \<open>A run that keeps its turn, and does not become live.\<close>

definition stays :: "all_runs \<Rightarrow> nat \<Rightarrow> phase \<Rightarrow> bool" where
  "stays R r p \<longleftrightarrow> (\<exists>run. R r = Some run \<and> turn_of p = turn_of (run_phase run) \<and>
     (is_live p \<longrightarrow> is_live (run_phase run)) \<and> (\<nexists>k v. p = Replacing k v))"

lemma live_took: "k \<in> live R w \<Longrightarrow> \<exists>q. took R q w k"
  by (auto simp: live_def took_def)

lemma took_stays: "stays R r p \<Longrightarrow> took (at_phase R r p) q w k = took R q w k"
  by (cases "q = r") (auto simp: stays_def took_def at_phase_self)

lemma live_stays:
  assumes "stays R r p"
  shows "live (at_phase R r p) w \<subseteq> live R w"
proof
  fix k
  assume "k \<in> live (at_phase R r p) w"
  then obtain q run' where q: "at_phase R r p q = Some run'" "run_wallet run' = w"
      "is_live (run_phase run')" "turn_of (run_phase run') = Some k"
    by (auto simp: live_def)
  from q(1) show "k \<in> live R w"
  proof (cases rule: at_phaseE)
    case (moved run)
    with q assms show ?thesis unfolding live_def stays_def by force
  next
    case other
    with q show ?thesis by (auto simp: live_def)
  qed
qed

text \<open>What the parts of the invariant about turns need: every turn is kept, no turn comes alive.\<close>

definition shrinks :: "all_runs \<Rightarrow> all_runs \<Rightarrow> bool" where
  "shrinks R R' \<longleftrightarrow> (\<forall>q w k. took R q w k \<longrightarrow> took R' q w k) \<and> (\<forall>w. live R' w \<subseteq> live R w)"

lemma stays_shrinks: "stays R r p \<Longrightarrow> shrinks R (at_phase R r p)"
  by (simp add: shrinks_def took_stays live_stays)

lemma last_of_shrinks: "shrinks R R' \<Longrightarrow> last_of R w q \<Longrightarrow> last_of R' w q"
  unfolding shrinks_def last_of_def by (meson order_trans)

lemma live_empty_shrinks: "shrinks R R' \<Longrightarrow> live R w \<inter> A = {} \<Longrightarrow> live R' w \<inter> A = {}"
  unfolding shrinks_def by blast

lemma before_shrinks: "shrinks R R' \<Longrightarrow> before_ok R w k v \<Longrightarrow> before_ok R' w k v"
  unfolding before_ok_def shrinks_def
  by (cases v) (auto, blast+)

lemma quiet_shrinks: "shrinks R R' \<Longrightarrow> quiet_ok R m \<Longrightarrow> quiet_ok R' m"
  using live_empty_shrinks [of R R' _ UNIV] unfolding quiet_ok_def by (metis inf_top_right last_of_shrinks)

lemma turns_stays: "stays R r p \<Longrightarrow> turns_ok R n \<Longrightarrow> turns_ok (at_phase R r p) n"
  by (simp add: turns_ok_def took_stays)

lemma slots_stays:
  assumes "stays R r p" "slots_ok R slots"
  shows "slots_ok (at_phase R r p) slots"
  unfolding slots_ok_def
proof (intro conjI allI impI)
  fix w assume "fmlookup slots w = None"
  with assms show "live (at_phase R r p) w = {}"
    using live_stays [OF assms(1), of w] by (auto simp: slots_ok_def)
next
  fix w c assume "fmlookup slots w = Some c"
  with assms(2) obtain q run where q: "R q = Some run" "c = controller_of q run" "last_of R w q"
    unfolding slots_ok_def by blast
  from q(1) obtain run' where "at_phase R r p q = Some run'" "controller_of q run' = controller_of q run"
    by (rule at_phase_keeps)
  moreover have "last_of (at_phase R r p) w q"
    by (rule last_of_shrinks [OF stays_shrinks [OF assms(1)] q(3)])
  ultimately show "\<exists>q run. at_phase R r p q = Some run \<and> c = controller_of q run \<and> last_of (at_phase R r p) w q"
    using q(2) by metis
qed

lemma waits_stays:
  assumes "stays R r p" "waits_ok R"
  shows "waits_ok (at_phase R r p)"
  unfolding waits_ok_def
proof (intro allI impI)
  fix q run' k v
  assume q: "at_phase R r p q = Some run'" "run_phase run' = Replacing k v"
  from q(1) show "before_ok (at_phase R r p) (run_wallet run') k v"
  proof (cases rule: at_phaseE)
    case (moved run)
    with q assms(1) show ?thesis by (auto simp: stays_def)
  next
    case other
    with q assms(2) have "before_ok R (run_wallet run') k v" by (auto simp: waits_ok_def)
    then show ?thesis by (rule before_shrinks [OF stays_shrinks [OF assms(1)]])
  qed
qed

lemma scans_stays:
  assumes "stays R r p" "scans_ok R"
    and "\<And>run k. R r = Some run \<Longrightarrow> scanned p = Some k \<Longrightarrow> live R (run_wallet run) \<inter> {..<k} = {}"
  shows "scans_ok (at_phase R r p)"
  unfolding scans_ok_def
proof (intro allI impI)
  fix q run' k
  assume q: "at_phase R r p q = Some run'" "scanned (run_phase run') = Some k"
  from q(1) have "live R (run_wallet run') \<inter> {..<k} = {}"
  proof (cases rule: at_phaseE)
    case (moved run)
    with q assms(3) show ?thesis by auto
  next
    case other
    with q assms(2) show ?thesis by (auto simp: scans_ok_def)
  qed
  then show "live (at_phase R r p) (run_wallet run') \<inter> {..<k} = {}"
    by (rule live_empty_shrinks [OF stays_shrinks [OF assms(1)]])
qed

lemma stopped_move:
  assumes "stopped_ok R cs" "R r = Some run" "\<nexists>ko. run_phase run = Ended ko"
    and "\<And>q. Stopped_Token q \<in> cs' \<longleftrightarrow> Stopped_Token q \<in> cs \<or> (q = r \<and> (\<exists>ko. p = Ended ko))"
  shows "stopped_ok (at_phase R r p) cs'"
  unfolding stopped_ok_def
proof
  fix q
  have "Stopped_Token q \<in> cs \<longleftrightarrow> (\<exists>run ko. R q = Some run \<and> run_phase run = Ended ko)"
    using assms(1) by (simp add: stopped_ok_def)
  then show "Stopped_Token q \<in> cs' \<longleftrightarrow> (\<exists>run ko. at_phase R r p q = Some run \<and> run_phase run = Ended ko)"
    using assms(2-4) at_phase_self [of R r run p] by (cases "q = r") auto
qed

lemma handles_move:
  "handles_used n R s \<Longrightarrow> handles_used n (at_phase R r p) s"
  unfolding handles_used_def
  by (auto elim!: at_phaseE)

lemma handles_step:
  assumes "ids_changed d s t" "handles_used n R s" "Suc n < 2 ^ 64"
  shows "handles_used (Suc n) R t"
  using assms handles_ok_step [OF assms(1)] spent_step [OF assms(1)] by (auto simp: handles_used_def)

section \<open>The steps keep the invariant\<close>

text \<open>A step that moves no run; one that moves a run which keeps its turn.\<close>

lemma safe_glob:
  assumes "scans_safe n y" "Suc n < 2 ^ 64" "ids_changed d (sglob y) s"
    and "running (SCAN_STATE s) = running (SCAN_STATE (sglob y))"
    and "\<And>q. Stopped_Token q \<in> cells s \<longleftrightarrow> Stopped_Token q \<in> cells (sglob y)"
    and "maint_ok (sruns y) m (MAINT_HELD s)" "quiet_ok (sruns y) m"
  shows "scans_safe (Suc n) (y\<lparr>sglob := s, maint := m\<rparr>)"
  using assms handles_step [OF assms(3) _ assms(2)] by (auto simp: scans_safe_def stopped_ok_def)

lemma safe_move:
  assumes safe: "scans_safe n y" and cap: "Suc n < 2 ^ 64" and mv: "stays (sruns y) r p"
    and ids: "ids_changed d (sglob y) s"
    and slots: "slots_ok (at_phase (sruns y) r p) (running (SCAN_STATE s))"
    and scanned: "\<And>run k. sruns y r = Some run \<Longrightarrow> scanned p = Some k \<Longrightarrow>
      live (sruns y) (run_wallet run) \<inter> {..<k} = {}"
    and stop: "\<And>q. Stopped_Token q \<in> cells s \<longleftrightarrow>
      Stopped_Token q \<in> cells (sglob y) \<or> (q = r \<and> (\<exists>ko. p = Ended ko))"
    and running: "sruns y r = Some run" "\<nexists>ko. run_phase run = Ended ko"
    and maint: "maint_ok (at_phase (sruns y) r p) (maint y) (MAINT_HELD s)"
  shows "scans_safe (Suc n) (move r p s y)"
proof -
  have "handles_used (Suc n) (at_phase (sruns y) r p) s"
    using safe by (intro handles_move handles_step [OF ids _ cap]) (simp add: scans_safe_def)
  moreover have "stopped_ok (at_phase (sruns y) r p) (cells s)"
    by (rule stopped_move [of "sruns y" "cells (sglob y)" r run, OF _ running stop])
      (use safe in \<open>simp add: scans_safe_def\<close>)
  ultimately show ?thesis
    using safe slots maint quiet_shrinks [OF stays_shrinks [OF mv]] turns_stays [OF mv]
      waits_stays [OF mv] scans_stays [OF mv _ scanned]
    by (auto simp: scans_safe_def)
qed

text \<open>The cells in the slots.\<close>

lemma slot_cells:
  assumes "slots_ok R slots" "fmlookup slots w = Some c"
  obtains q run where "R q = Some run" "c = controller_of q run" "ctl_token c = Token q"
    "ctl_superseded c = Superseded_Flag q" "ctl_stopped c = Stopped_Token q" "last_of R w q"
  using assms unfolding slots_ok_def by (metis controller_of_simps(3-5))

lemma section_effects:
  "create_scan_handle w s = (rh, t) \<Longrightarrow> running (SCAN_STATE t) = running (SCAN_STATE s) \<and>
     cells t = cells s \<and> MAINT_HELD t = MAINT_HELD s"
  "claim_handle h s = (rb, t) \<Longrightarrow> running (SCAN_STATE t) = running (SCAN_STATE s) \<and>
     cells t = cells s \<and> MAINT_HELD t = MAINT_HELD s \<and> next_run t = next_run s"
  "stop_scan_begin h s = (rc, t) \<Longrightarrow> running (SCAN_STATE t) = running (SCAN_STATE s) \<and>
     cells s \<subseteq> cells t \<and> cells t \<subseteq> cells s \<union> {ctl_token c |c w. fmlookup (running (SCAN_STATE s)) w = Some c} \<and>
     MAINT_HELD t = MAINT_HELD s"
  "cancel_wallet_scans w s = (rc, t) \<Longrightarrow> running (SCAN_STATE t) = running (SCAN_STATE s) \<and>
     cells s \<subseteq> cells t \<and> cells t \<subseteq> cells s \<union> {ctl_token c |c w. fmlookup (running (SCAN_STATE s)) w = Some c} \<and>
     MAINT_HELD t = MAINT_HELD s \<and>
     (\<forall>v. rc = Inr v \<longrightarrow> v = map_option ctl_stopped (fmlookup (running (SCAN_STATE s)) w))"
  by (auto simp: scan_sections proc_simps Let_def split: scan_splits)

lemma tokens_stop_nothing:
  assumes "slots_ok R slots" "cs \<subseteq> cs'" "cs' \<subseteq> cs \<union> {ctl_token c |c w. fmlookup slots w = Some c}"
  shows "Stopped_Token q \<in> cs' \<longleftrightarrow> Stopped_Token q \<in> cs"
proof -
  have "ctl_token c \<noteq> Stopped_Token q" if "fmlookup slots w = Some c" for c w
    using slot_cells [OF assms(1) that] by (metis cell.distinct(3))
  then have "Stopped_Token q \<notin> {ctl_token c |c w. fmlookup slots w = Some c}" by fastforce
  with assms(2,3) show ?thesis by blast
qed

lemma maint_stays:
  assumes "maint_ok R m locked" "p \<noteq> Entering"
  shows "maint_ok (at_phase R r p) m locked"
  using assms unfolding maint_ok_def by (auto elim!: at_phaseE)

text \<open>The maintenance lock of an entering run is its own, so giving it up affects no other.\<close>

lemma maint_leaves:
  assumes "maint_ok R m locked" "p \<noteq> Entering" "R r = Some run" "run_phase run = Entering"
  shows "maint_ok (at_phase R r p) m (locked - {run_wallet run})"
proof -
  have free: "m (run_wallet run) = None" using assms by (auto simp: maint_ok_def)
  have only: "q = r" if "R q = Some run'" "run_phase run' = Entering" "run_wallet run' = run_wallet run" for q run'
    using assms that unfolding maint_ok_def by metis
  have same: "at_phase R r p q = Some run' \<Longrightarrow> run_phase run' = Entering \<Longrightarrow> q \<noteq> r \<and> R q = Some run'" for q run'
    using assms(2) by (auto elim!: at_phaseE)
  show ?thesis
    unfolding maint_ok_def
  proof (intro conjI allI impI)
    fix w assume "m w \<noteq> None"
    then show "w \<in> locked - {run_wallet run}" using assms(1) free by (auto simp: maint_ok_def)
  next
    fix q run' assume q: "at_phase R r p q = Some run'" "run_phase run' = Entering"
    with assms(1) same show "run_wallet run' \<in> locked - {run_wallet run}" "m (run_wallet run') = None"
      using only unfolding maint_ok_def by blast+
  next
    fix q run1 q' run2
    assume "at_phase R r p q = Some run1" "at_phase R r p q' = Some run2" "run_phase run1 = Entering"
      "run_phase run2 = Entering" "run_wallet run1 = run_wallet run2"
    with assms(1) same show "q = q'" unfolding maint_ok_def by metis
  qed
qed

lemma maint_enters:
  assumes "maint_ok R m locked" "R r = Some run" "run_wallet run \<notin> locked"
  shows "maint_ok (at_phase R r Entering) m (insert (run_wallet run) locked)"
proof -
  have free: "m (run_wallet run) = None" using assms by (auto simp: maint_ok_def)
  have only: "run_wallet run' \<noteq> run_wallet run" if "R q = Some run'" "run_phase run' = Entering" for q run'
    using assms that unfolding maint_ok_def by metis
  show ?thesis
    using assms free unfolding maint_ok_def
    by (auto elim!: at_phaseE dest: only)
qed

section \<open>Taking and leaving a slot\<close>

lemma enter_slot_OkE:
  assumes "enter_slot i w c s = (Inr (Some v), t)" "slots_ok R (running (SCAN_STATE s))"
  shows "v = fmlookup (running (SCAN_STATE s)) w"
    "running (SCAN_STATE t) = fmupd w c (running (SCAN_STATE s))" "MAINT_HELD t = MAINT_HELD s"
    "\<And>q. Stopped_Token q \<in> cells t \<longleftrightarrow> Stopped_Token q \<in> cells s"
proof -
  let ?s = "upd_scan (\<lambda>st. st\<lparr>starting := fmdrop i (starting st)\<rparr>) s"
  from assms(1) have take: "take_slot w c ?s = (Inr v, t)"
    by (auto simp: enter_slot_def proc_simps split: if_splits sum.splits prod.splits)
  then show "MAINT_HELD t = MAINT_HELD s" by (simp add: take_slot_frame(3))
  from take show "v = fmlookup (running (SCAN_STATE s)) w"
    "running (SCAN_STATE t) = fmupd w c (running (SCAN_STATE s))"
    by (cases rule: take_slot_OkE; simp)+
  fix q
  from take show "Stopped_Token q \<in> cells t \<longleftrightarrow> Stopped_Token q \<in> cells s"
  proof (cases rule: take_slot_OkE)
    case free
    then show ?thesis by simp
  next
    case (replaced old)
    then have "fmlookup (running (SCAN_STATE s)) w = Some old" by simp
    with assms(2) obtain r where "ctl_token old = Token r" "ctl_superseded old = Superseded_Flag r"
      by (rule slot_cells) blast
    with replaced show ?thesis by (auto split: if_splits)
  qed
qed

lemma enter_slot_refused:
  assumes "enter_slot i w c s = (res, t)" "\<nexists>v. res = Inr (Some v)"
  shows "running (SCAN_STATE t) = running (SCAN_STATE s)" "MAINT_HELD t = MAINT_HELD s" "cells t = cells s"
  using assms by (auto simp: enter_slot_def take_slot_def proc_simps Let_def split: scan_splits)

text \<open>The run that takes a slot has the last turn.\<close>

lemma enter_R:
  assumes "R r = Some run" "turn_of (run_phase run) = None" "turns_ok R n" "p = Replacing n v"
  shows "took (at_phase R r p) q w k \<longleftrightarrow> took R q w k \<or> (q = r \<and> w = run_wallet run \<and> k = n)"
    and "live (at_phase R r p) w = (if w = run_wallet run then insert n (live R w) else live R w)"
proof -
  show "took (at_phase R r p) q w k \<longleftrightarrow> took R q w k \<or> (q = r \<and> w = run_wallet run \<and> k = n)"
    using assms(1,2,4) by (cases "q = r") (auto simp: took_def at_phase_self)
  show "live (at_phase R r p) w = (if w = run_wallet run then insert n (live R w) else live R w)"
  proof (intro set_eqI iffI)
    fix k assume "k \<in> live (at_phase R r p) w"
    then show "k \<in> (if w = run_wallet run then insert n (live R w) else live R w)"
      using assms(1,4) by (auto simp: live_def elim!: at_phaseE)
  next
    fix k assume k: "k \<in> (if w = run_wallet run then insert n (live R w) else live R w)"
    show "k \<in> live (at_phase R r p) w"
    proof (cases "k \<in> live R w")
      case True
      then obtain q run' where q: "R q = Some run'" "run_wallet run' = w" "is_live (run_phase run')"
          "turn_of (run_phase run') = Some k"
        by (auto simp: live_def)
      then have "q \<noteq> r" using assms(1,2) by auto
      then have "at_phase R r p q = Some run'" using q(1) by simp
      with q(2-4) show ?thesis unfolding live_def by blast
    next
      case False
      with k have "w = run_wallet run" "k = n" by (auto split: if_splits)
      then show ?thesis using assms(1,4) at_phase_self [of R r run p] unfolding live_def by force
    qed
  qed
qed

lemma live_bounded: "turns_ok R n \<Longrightarrow> live R w \<subseteq> {..<n}"
  using live_took by (fastforce simp: turns_ok_def)

text \<open>What taking a slot means for the parts of the invariant.\<close>

lemma enter_parts:
  assumes run: "R r = Some run" "run_phase run = Entering" and turns: "turns_ok R n"
    and slots: "slots_ok R slots" and waits: "waits_ok R" and scans: "scans_ok R"
    and p: "p = Replacing n (fmlookup slots (run_wallet run))"
  defines "R' \<equiv> at_phase R r p"
  shows "turns_ok R' (Suc n)" "slots_ok R' (fmupd (run_wallet run) (controller_of r run) slots)"
    "waits_ok R'" "scans_ok R'"
proof -
  note E = enter_R [OF run(1) _ turns p, unfolded run(2), simplified, folded R'_def]
  have old: "k < n" if "took R q w k" for q w k using turns that by (auto simp: turns_ok_def)
  show "turns_ok R' (Suc n)"
    using turns old unfolding turns_ok_def E(1) by (metis less_Suc_eq less_irrefl)
  have low: "live R w \<subseteq> {..<n}" for w by (rule live_bounded [OF turns])
  have cut: "live R' w \<inter> {..<k} = live R w \<inter> {..<k}" if "k \<le> n" for w k
    using that by (auto simp: E(2))
  show "slots_ok R' (fmupd (run_wallet run) (controller_of r run) slots)"
    unfolding slots_ok_def
  proof (intro conjI allI impI)
    fix w assume "fmlookup (fmupd (run_wallet run) (controller_of r run) slots) w = None"
    with slots show "live R' w = {}" by (auto simp: slots_ok_def E(2) split: if_splits)
  next
    fix w c assume c: "fmlookup (fmupd (run_wallet run) (controller_of r run) slots) w = Some c"
    show "\<exists>q run. R' q = Some run \<and> c = controller_of q run \<and> last_of R' w q"
    proof (cases "w = run_wallet run")
      case True
      have "live R' w \<subseteq> {..n}" using low [of w] True by (auto simp: E(2))
      then have "last_of R' w r" using True unfolding last_of_def E(1) by blast
      with c True show ?thesis
        using at_phase_self [where R = R and r = r and run = run and p = p] run(1) unfolding R'_def
        by (intro exI [of _ r] exI [of _ "run\<lparr>run_phase := p\<rparr>"]) simp
    next
      case False
      with c slots obtain q run' where q: "R q = Some run'" "c = controller_of q run'" "last_of R w q"
        using slot_cells [of R slots w c] by auto
      from q(3) False have "last_of R' w q" by (auto simp: last_of_def E)
      moreover obtain run2 where "at_phase R r p q = Some run2" "controller_of q run2 = controller_of q run'"
        using q(1) by (rule at_phase_keeps)
      ultimately show ?thesis using q(2) unfolding R'_def by metis
    qed
  qed
  show "waits_ok R'"
    unfolding waits_ok_def
  proof (intro allI impI)
    fix q run' k v assume q: "R' q = Some run'" "run_phase run' = Replacing k v"
    from q(1) show "before_ok R' (run_wallet run') k v"
      unfolding R'_def
    proof (cases rule: at_phaseE)
      case (moved run'')
      then have here: "run'' = run" "k = n" "v = fmlookup slots (run_wallet run)" "run_wallet run' = run_wallet run"
        using run q p by auto
      have "live R' (run_wallet run) \<inter> {..<n} = live R (run_wallet run)"
        using cut [of n] low [of "run_wallet run"] by auto
      moreover have "before_ok R' (run_wallet run) n (Some c)" if c: "fmlookup slots (run_wallet run) = Some c" for c
      proof -
        obtain q' where "ctl_stopped c = Stopped_Token q'" "last_of R (run_wallet run) q'"
          using slot_cells [OF slots c] by metis
        with calculation old show ?thesis unfolding before_ok_def last_of_def
          by (auto simp: E(1))
      qed
      ultimately show "before_ok (at_phase R r p) (run_wallet run') k v"
        using here slots unfolding R'_def
        by (cases "fmlookup slots (run_wallet run)") (auto simp: before_ok_def slots_ok_def)
    next
      case other
      with q waits have b: "before_ok R (run_wallet run') k v" by (auto simp: waits_ok_def)
      have "took R q (run_wallet run') k" using other q by (auto simp: took_def)
      then have "k \<le> n" using old by force
      with b show "before_ok (at_phase R r p) (run_wallet run') k v"
        using cut [of k "run_wallet run'"] unfolding before_ok_def R'_def [symmetric] E(1)
        by (auto split: option.splits)
    qed
  qed
  show "scans_ok R'"
    unfolding scans_ok_def
  proof (intro allI impI)
    fix q run' k assume q: "R' q = Some run'" "scanned (run_phase run') = Some k"
    from q(1) have other: "R q = Some run'"
      unfolding R'_def using q(2) p by (cases rule: at_phaseE) auto
    from q(2) have "turn_of (run_phase run') = Some k" by (cases "run_phase run'") auto
    with other have "took R q (run_wallet run') k" by (auto simp: took_def)
    then have "k \<le> n" using old by force
    with other q(2) scans show "live R' (run_wallet run') \<inter> {..<k} = {}"
      unfolding cut [OF \<open>k \<le> n\<close>] by (intro scans_okD)
  qed
qed

lemma ended_not_live:
  assumes "Stopped_Token q \<in> cs" "took R q w j" "scans_ok R" "turns_ok R n" "stopped_ok R cs"
  shows "live R w \<inter> {..j} = {}"
proof -
  from assms(1,5) obtain run ko where run: "R q = Some run" "run_phase run = Ended ko"
    by (auto simp: stopped_ok_def)
  with assms(2) have w: "run_wallet run = w" "ko = Some j" by (auto simp: took_def)
  with scans_okD [of R q run j, OF assms(3) run(1)] run(2) have below: "live R w \<inter> {..<j} = {}" by simp
  have "j \<notin> live R w"
  proof
    assume "j \<in> live R w"
    then obtain q' run' where q': "R q' = Some run'" "is_live (run_phase run')" "took R q' w j"
      unfolding live_def took_def by blast
    then have "q' = q" using assms(2,4) unfolding turns_ok_def by metis
    with q' run show False by simp
  qed
  with below show ?thesis by (auto simp: le_less)
qed

text \<open>A run whose wait is over is first: the run before its turn is not live any more.\<close>

lemma wait_over:
  assumes "R r = Some run" "run_phase run = Replacing k v" "waits_ok R" "scans_ok R" "turns_ok R n"
    and "stopped_ok R cs" "case v of None \<Rightarrow> True | Some p \<Rightarrow> ctl_stopped p \<in> cs"
  shows "live R (run_wallet run) \<inter> {..<k} = {}"
proof (cases v)
  case None
  with waits_okD [OF assms(3,1,2)] show ?thesis by (simp add: before_ok_def)
next
  case (Some p)
  with waits_okD [OF assms(3,1,2)] obtain q j where q: "ctl_stopped p = Stopped_Token q" "took R q (run_wallet run) j"
      "j < k" "live R (run_wallet run) \<inter> {..<k} \<subseteq> {..j}"
    by (auto simp: before_ok_def)
  have "live R (run_wallet run) \<inter> {..j} = {}"
    by (rule ended_not_live [OF _ q(2) assms(4-6)]) (use assms(7) Some q(1) in auto)
  with q(4) show ?thesis by blast
qed

text \<open>
  Clearing a slot: the scan in it has the clearing run's handle, so it is that run, which is
  the wallet's only live run.
\<close>

lemma clear_slots:
  assumes run: "R r = Some run" "run_phase run = Scanning k" and used: "handles_used n R s"
    and slots: "slots_ok R (running (SCAN_STATE s))" and turns: "turns_ok R m" and scans: "scans_ok R"
  shows "slots_ok (at_phase R r (Ending (Some k)))
    (running (SCAN_STATE (clear_scan_if_current (run_wallet run) (run_sid run) s)))"
proof -
  let ?w = "run_wallet run" and ?R' = "at_phase R r (Ending (Some k))"
  have stays: "stays R r (Ending (Some k))" using run by (simp add: stays_def)
  note kept = slots_stays [OF stays slots]
  show ?thesis
  proof (cases "\<exists>c. fmlookup (running (SCAN_STATE s)) ?w = Some c \<and> ctl_id c = run_sid run \<and> \<not> scan_poisoned s")
    case False
    then have "running (SCAN_STATE (clear_scan_if_current ?w (run_sid run) s)) = running (SCAN_STATE s)"
      by (auto simp: clear_scan_if_current_def split: option.splits)
    with kept show ?thesis by simp
  next
    case True
    then obtain c where c: "fmlookup (running (SCAN_STATE s)) ?w = Some c" "ctl_id c = run_sid run"
        "\<not> scan_poisoned s" by blast
    with slots obtain q run' where q: "R q = Some run'" "c = controller_of q run'" "last_of R ?w q"
      by (metis slot_cells)
    with c(2) used run(1) have "q = r" unfolding handles_used_def by (metis controller_of_simps(2))
    with q(3) run obtain "live R ?w \<subseteq> {..k}" by (auto simp: last_of_def took_def)
    moreover have "live R ?w \<inter> {..<k} = {}" using scans_okD [of R r run, OF scans run(1)] run(2) by simp
    ultimately have "live R ?w \<subseteq> {k}" by (auto simp: subset_eq le_less)
    moreover have "k \<notin> live ?R' ?w"
    proof
      assume "k \<in> live ?R' ?w"
      then obtain q' run'' where q': "?R' q' = Some run''" "is_live (run_phase run'')" "took ?R' q' ?w k"
        unfolding live_def took_def by blast
      moreover have "took R r ?w k" using run by (auto simp: took_def)
      ultimately have "q' = r" using turns unfolding took_stays [OF stays] turns_ok_def by metis
      with q'(1,2) at_phase_self [of R r run "Ending (Some k)", OF run(1)] show False by auto
    qed
    ultimately have "live ?R' ?w = {}" using live_stays [OF stays, of ?w] by blast
    with kept c show ?thesis
      by (auto simp: clear_scan_if_current_def slots_ok_def)
  qed
qed

section \<open>Every step\<close>

lemma not_ended: "run_phase run = p \<Longrightarrow> (\<nexists>ko. p = Ended ko) \<Longrightarrow> R r = Some run \<Longrightarrow>
    R r = Some run' \<Longrightarrow> run_phase run' \<noteq> Ended ko"
  by auto

lemma quiet_sections:
  "ids_changed Same_Ids s s"
  "ids_changed Same_Ids s (set_cell c s)"
  "ids_changed Same_Ids s (end_maintenance w s)"
  "ids_changed Same_Ids s (s\<lparr>MAINT_HELD := H\<rparr>)"
  by (simp_all add: ids_changed_def end_maintenance_def)

lemma same_ids_trans: "ids_changed Same_Ids s t \<Longrightarrow> SCAN_ID t = SCAN_ID s \<Longrightarrow> ids_changed Same_Ids t u \<Longrightarrow>
    ids_changed Same_Ids s u"
  by (auto simp: ids_changed_def)

lemma end_maintenance_frame [simp]:
  "SCAN_STATE (end_maintenance w s) = SCAN_STATE s" "cells (end_maintenance w s) = cells s"
  "MAINT_HELD (end_maintenance w s) = MAINT_HELD s - {w}" "SCAN_ID (end_maintenance w s) = SCAN_ID s"
  by (simp_all add: end_maintenance_def)

lemma ids_end_maintenance: "ids_changed d s t \<Longrightarrow> ids_changed d s (end_maintenance w t)"
  by (cases d) (simp_all add: ids_changed_def)

lemma ids_set_cell: "ids_changed d s t \<Longrightarrow> ids_changed d s (set_cell c t)"
  by (cases d) (simp_all add: ids_changed_def)

lemma sections_stop_free:
  "SCAN_STATE (clear_scan_if_current w i s) = (SCAN_STATE s)\<lparr>running :=
     running (SCAN_STATE (clear_scan_if_current w i s))\<rparr>"
  "cells (clear_scan_if_current w i s) = cells s"
  "MAINT_HELD (clear_scan_if_current w i s) = MAINT_HELD s"
  "running (SCAN_STATE (leave_starting i s)) = running (SCAN_STATE s)"
  "cells (leave_starting i s) = cells s"
  "MAINT_HELD (leave_starting i s) = MAINT_HELD s"
  by (auto simp: clear_scan_if_current_def leave_starting_def split: option.splits)

text \<open>
  The moves of a run one by one; each lemma is one rule of the step relation.
\<close>

lemma scans_safeD:
  assumes "scans_safe n y"
  shows "handles_used n (sruns y) (sglob y)" "turns_ok (sruns y) (turns y)"
    "slots_ok (sruns y) (running (SCAN_STATE (sglob y)))" "waits_ok (sruns y)" "scans_ok (sruns y)"
    "stopped_ok (sruns y) (cells (sglob y))" "maint_ok (sruns y) (maint y) (MAINT_HELD (sglob y))"
    "quiet_ok (sruns y) (maint y)"
  using assms by (simp_all add: scans_safe_def)

lemma safe_refused:
  assumes safe: "scans_safe n y" and cap: "Suc n < 2 ^ 64"
    and run: "sruns y r = Some run" "run_phase run = Entering"
    and enter: "enter_slot i (run_wallet run) c (sglob y) = (res, s)" "\<nexists>v. res = Inr (Some v)"
  shows "scans_safe (Suc n) (move r (Ending None) (end_maintenance (run_wallet run) s) y)"
proof -
  note E = enter_slot_refused [OF enter]
  have stays: "stays (sruns y) r (Ending None)" using run by (auto simp: stays_def)
  show ?thesis
    by (rule safe_move [OF safe cap stays, where d = Same_Ids and run = run])
      (use run E enter in \<open>auto simp: ids_end_maintenance quiet_ids(2)
        intro!: slots_stays [OF stays] maint_leaves scans_safeD [OF safe]\<close>)
qed

lemma safe_enter:
  assumes safe: "scans_safe n y" and cap: "Suc n < 2 ^ 64"
    and run: "sruns y r = Some run" "run_phase run = Entering"
    and enter: "enter_slot (run_sid run) (run_wallet run) (controller_of r run) (sglob y) = (Inr (Some v), s)"
  shows "scans_safe (Suc n) (move r (Replacing (turns y) v) (end_maintenance (run_wallet run) s)
    (y\<lparr>turns := turns y + 1\<rparr>))"
proof -
  note S = scans_safeD [OF safe]
  note E = enter_slot_OkE [OF enter S(3)]
  let ?p = "Replacing (turns y) v" and ?R = "sruns y"
  have p: "?p = Replacing (turns y) (fmlookup (running (SCAN_STATE (sglob y))) (run_wallet run))"
    using E(1) by simp
  note parts = enter_parts [OF run S(2,3,4,5) p]
  have "handles_used (Suc n) (at_phase ?R r ?p) s"
    by (rule handles_move, rule handles_step [OF quiet_ids(2) [OF enter] S(1) cap])
  then have "handles_used (Suc n) (at_phase ?R r ?p) (end_maintenance (run_wallet run) s)"
    by (simp add: handles_used_def handles_ok_def spent_def)
  moreover have "stopped_ok (at_phase ?R r ?p) (cells s)"
    by (rule stopped_move [OF S(6), of r run]) (use run E(4) in auto)
  moreover have "maint_ok (at_phase ?R r ?p) (maint y) (MAINT_HELD s - {run_wallet run})"
    using maint_leaves [OF S(7) _ run, of ?p] E(3) by simp
  moreover have "quiet_ok (at_phase ?R r ?p) (maint y)"
  proof -
    have free: "maint y (run_wallet run) = None" using S(7) run by (auto simp: maint_ok_def)
    note R = enter_R [OF run(1) _ S(2) p, unfolded run(2), simplified]
    have "last_of (at_phase ?R r ?p) w q" if "last_of ?R w q" "w \<noteq> run_wallet run" for w q
      using that by (auto simp: last_of_def R)
    moreover have "live (at_phase ?R r ?p) w = live ?R w" if "w \<noteq> run_wallet run" for w
      using that by (simp add: R)
    ultimately show ?thesis
      using S(8) free unfolding quiet_ok_def by (metis option.distinct(1))
  qed
  ultimately show ?thesis using parts E(2) by (simp add: scans_safe_def)
qed

lemma safe_wait:
  assumes safe: "scans_safe n y" and cap: "Suc n < 2 ^ 64"
    and run: "sruns y r = Some run" "run_phase run = Replacing k v"
    and waited: "case v of None \<Rightarrow> True | Some p \<Rightarrow> is_set (ctl_stopped p) (sglob y)"
  shows "scans_safe (Suc n) (move r (Scanning k) (sglob y) y)"
proof -
  note S = scans_safeD [OF safe]
  have stays: "stays (sruns y) r (Scanning k)" using run by (auto simp: stays_def)
  have first: "live (sruns y) (run_wallet run) \<inter> {..<k} = {}"
    using wait_over [OF run S(4,5,2,6)] waited by (auto simp: is_set_def split: option.splits)
  show ?thesis
    by (rule safe_move [OF safe cap stays quiet_sections(1), where run = run])
      (use run first in \<open>auto intro!: slots_stays [OF stays] maint_stays S\<close>)
qed

lemma safe_clear:
  assumes safe: "scans_safe n y" and cap: "Suc n < 2 ^ 64"
    and run: "sruns y r = Some run" "run_phase run = Scanning k"
  shows "scans_safe (Suc n) (move r (Ending (Some k))
      (clear_scan_if_current (run_wallet run) (run_sid run) (sglob y)) y)"
proof -
  note S = scans_safeD [OF safe]
  have stays: "stays (sruns y) r (Ending (Some k))" using run by (auto simp: stays_def)
  have first: "live (sruns y) (run_wallet run) \<inter> {..<k} = {}"
    using scans_okD [of "sruns y" r run, OF S(5) run(1)] run(2) by simp
  show ?thesis
    by (rule safe_move [OF safe cap stays quiet_ids(3) clear_slots [OF run S(1,3,2,5)], where run = run])
      (use run first in \<open>auto simp: sections_stop_free intro!: maint_stays S\<close>)
qed

text \<open>A run that is over: its stopped token fires.\<close>

lemma safe_over:
  assumes safe: "scans_safe n y" and cap: "Suc n < 2 ^ 64"
    and run: "sruns y r = Some run" "scanned (run_phase run) = ko" "turn_of (run_phase run) = ko"
      "\<nexists>ko. run_phase run = Ended ko"
    and s: "s = sglob y \<or> s = leave_starting i (sglob y)"
  shows "scans_safe (Suc n) (move r (Ended ko) (set_cell (Stopped_Token r) s) y)"
proof -
  note S = scans_safeD [OF safe]
  have stays: "stays (sruns y) r (Ended ko)" using run by (auto simp: stays_def)
  have ids: "ids_changed Same_Ids (sglob y) (set_cell (Stopped_Token r) s)"
    using s by (auto intro!: ids_set_cell quiet_ids(4) quiet_sections(1))
  have same: "running (SCAN_STATE s) = running (SCAN_STATE (sglob y))" "cells s = cells (sglob y)"
      "MAINT_HELD s = MAINT_HELD (sglob y)"
    using s by (auto simp: sections_stop_free)
  have first: "live (sruns y) (run_wallet run) \<inter> {..<k} = {}" if "ko = Some k" for k
    using scans_okD [of "sruns y" r run, OF S(5) run(1)] run(2) that by simp
  show ?thesis
    by (rule safe_move [OF safe cap stays ids, where run = run])
      (use run(1,4) first same slots_stays [OF stays S(3)] in \<open>auto intro!: maint_stays S\<close>)
qed

text \<open>A new run has no turn.\<close>

lemma safe_begin:
  assumes safe: "scans_safe n y" and cap: "Suc n < 2 ^ 64" and new: "sruns y r = None"
    and claim: "claim_handle h ((sglob y)\<lparr>next_run := i\<rparr>) = (Inr False, s)"
    and run: "run = \<lparr>run_wallet = w, run_sid = handle_id h, run_priority = pr, run_phase = Starting\<rparr>"
  shows "scans_safe (Suc n) (y\<lparr>sglob := s, sruns := (sruns y)(r \<mapsto> run)\<rparr>)"
proof -
  note S = scans_safeD [OF safe]
  let ?R = "(sruns y)(r \<mapsto> run)" and ?s = "(sglob y)\<lparr>next_run := i\<rparr>"
  have took: "took ?R q v k = took (sruns y) q v k" for q v k
    using new run by (auto simp: took_def)
  have live: "live ?R v = live (sruns y) v" for v
  proof -
    have "?R q = Some a \<and> is_live (run_phase a) \<longleftrightarrow> sruns y q = Some a \<and> is_live (run_phase a)" for q a
      using new run by auto
    then show ?thesis unfolding live_def by metis
  qed
  note E = section_effects(2) [OF claim]
  have used: "handles_used n (sruns y) ?s" using S(1) by (simp add: handles_used_def handles_ok_def spent_def)
  have ids: "ids_changed (Take_Id (handle_id h)) ?s s"
    using claim_ids [OF claim] used by (auto simp: handles_used_def)
  have issued: "handle_id h \<in> issued (SCAN_STATE ?s)" "\<not> scan_poisoned ?s"
    using claim by (auto simp: claim_handle_def proc_simps Let_def split: if_splits)
  have "handles_used (Suc n) ?R s"
  proof -
    note old = handles_step [OF ids used cap]
    have "spent (handle_id h) (Suc n) s"
      using claim_spends [OF claim, of n] used by (auto simp: handles_used_def spent_def)
    moreover have "run_sid a \<noteq> handle_id h" "handle_id h \<noteq> run_sid a" if "sruns y q = Some a" for q a
      using that used issued(1) unfolding handles_used_def spent_def by metis+
    ultimately show ?thesis using old new run unfolding handles_used_def by (auto split: if_splits)
  qed
  moreover have "slots_ok ?R (running (SCAN_STATE s))"
  proof -
    have "?R q = Some a" if "sruns y q = Some a" for q a using that new by auto
    moreover have "running (SCAN_STATE s) = running (SCAN_STATE (sglob y))" using E by simp
    ultimately show ?thesis using S(3) unfolding slots_ok_def live last_of_def took by metis
  qed
  moreover have "waits_ok ?R" "scans_ok ?R"
    using S(4,5) run unfolding waits_ok_def scans_ok_def before_ok_def live took by auto
  moreover have "stopped_ok ?R (cells s)"
    using S(6) E new run by (auto simp: stopped_ok_def)
  moreover have "maint_ok ?R (maint y) (MAINT_HELD s)"
    using S(7) E run unfolding maint_ok_def by auto
  moreover have "quiet_ok ?R (maint y)"
    using S(8) by (simp add: quiet_ok_def live last_of_def took)
  ultimately show ?thesis using S(2) by (simp add: scans_safe_def turns_ok_def took)
qed

text \<open>Steps that move no run, and the steps of a maintenance operation.\<close>

lemma safe_section:
  assumes safe: "scans_safe n y" and cap: "Suc n < 2 ^ 64" and ids: "ids_changed d (sglob y) s"
    and same: "running (SCAN_STATE s) = running (SCAN_STATE (sglob y))" "MAINT_HELD s = MAINT_HELD (sglob y)"
      "cells (sglob y) \<subseteq> cells s"
      "cells s \<subseteq> cells (sglob y) \<union> {ctl_token c |c w. fmlookup (running (SCAN_STATE (sglob y))) w = Some c}"
  shows "scans_safe (Suc n) (y\<lparr>sglob := s\<rparr>)"
  using safe_glob [OF safe cap ids same(1), of "maint y"] tokens_stop_nothing [OF _ same(3,4)]
    scans_safeD [OF safe] same(2) by simp

lemma safe_not_begun:
  assumes "scans_safe n y" "Suc n < 2 ^ 64" "claim_handle h (sglob y) = (rb, s)"
  shows "scans_safe (Suc n) (y\<lparr>sglob := s\<rparr>)"
proof -
  have ok: "handles_ok n (sglob y)" using scans_safeD(1) [OF assms(1)] by (simp add: handles_used_def)
  show ?thesis
    by (rule safe_section [OF assms(1,2) claim_ids [OF assms(3) ok]])
      (use section_effects(2) [OF assms(3)] in auto)
qed

lemma safe_give_up:
  assumes "scans_safe n y" "Suc n < 2 ^ 64" "sruns y r = Some run" "run_phase run = Starting"
  shows "scans_safe (Suc n) (move r (Ending None) (sglob y) y)"
proof -
  note S = scans_safeD [OF assms(1)]
  have stays: "stays (sruns y) r (Ending None)" using assms by (auto simp: stays_def)
  show ?thesis
    by (rule safe_move [OF assms(1,2) stays quiet_sections(1), where run = run])
      (use assms slots_stays [OF stays S(3)] in \<open>auto intro!: maint_stays S\<close>)
qed

lemma safe_lock:
  assumes "scans_safe n y" "Suc n < 2 ^ 64" "sruns y r = Some run" "run_phase run = Starting"
    and "run_wallet run \<notin> MAINT_HELD (sglob y)"
  shows "scans_safe (Suc n) (move r Entering
    ((sglob y)\<lparr>MAINT_HELD := insert (run_wallet run) (MAINT_HELD (sglob y))\<rparr>) y)"
proof -
  note S = scans_safeD [OF assms(1)]
  have stays: "stays (sruns y) r Entering" using assms by (auto simp: stays_def)
  show ?thesis
    by (rule safe_move [OF assms(1,2) stays quiet_sections(4), where run = run])
      (use assms slots_stays [OF stays S(3)] in \<open>auto intro!: maint_enters S\<close>)
qed

lemma safe_maintain:
  assumes "scans_safe n y" "Suc n < 2 ^ 64" "maint y w = None" "w \<notin> MAINT_HELD (sglob y)"
  shows "scans_safe (Suc n) (y\<lparr>sglob := (sglob y)\<lparr>MAINT_HELD := insert w (MAINT_HELD (sglob y))\<rparr>,
    maint := (maint y)(w \<mapsto> Held)\<rparr>)"
proof -
  note S = scans_safeD [OF assms(1)]
  have "maint_ok (sruns y) ((maint y)(w \<mapsto> Held)) (insert w (MAINT_HELD (sglob y)))"
    using S(7) assms(4) unfolding maint_ok_def by auto
  moreover have "quiet_ok (sruns y) ((maint y)(w \<mapsto> Held))"
    using S(8) by (auto simp: quiet_ok_def)
  ultimately show ?thesis using safe_glob [OF assms(1,2) quiet_sections(4)] by simp
qed

lemma safe_stop_all:
  assumes "scans_safe n y" "Suc n < 2 ^ 64" "maint y w = Some Held"
    and cancel: "cancel_wallet_scans w (sglob y) = (Inr stopped, s)"
  shows "scans_safe (Suc n) (y\<lparr>sglob := s,
    maint := (maint y)(w \<mapsto> (case stopped of None \<Rightarrow> Quiet | Some c \<Rightarrow> Stopping c))\<rparr>)"
proof -
  note S = scans_safeD [OF assms(1)] and E = section_effects(4) [OF cancel]
  let ?m = "(maint y)(w \<mapsto> (case stopped of None \<Rightarrow> Quiet | Some c \<Rightarrow> Stopping c))"
  have "maint_ok (sruns y) ?m (MAINT_HELD s)"
    using S(7) E assms(3) unfolding maint_ok_def by (auto split: option.splits)
  moreover have "quiet_ok (sruns y) ?m"
  proof (cases "fmlookup (running (SCAN_STATE (sglob y))) w")
    case None
    with E S(3,8) show ?thesis by (auto simp: quiet_ok_def slots_ok_def)
  next
    case (Some c)
    then obtain q where "ctl_stopped c = Stopped_Token q" "last_of (sruns y) w q"
      using slot_cells [OF S(3)] by metis
    with Some E S(8) show ?thesis by (auto simp: quiet_ok_def)
  qed
  ultimately show ?thesis
    using safe_glob [OF assms(1,2) quiet_ids(1) [OF cancel], of ?m] E tokens_stop_nothing [OF S(3)]
    by simp
qed

lemma safe_stopped:
  assumes "scans_safe n y" "Suc n < 2 ^ 64" "maint y w = Some (Stopping c)" "is_set c (sglob y)"
  shows "scans_safe (Suc n) (y\<lparr>maint := (maint y)(w \<mapsto> Quiet)\<rparr>)"
proof -
  note S = scans_safeD [OF assms(1)]
  obtain q k where q: "c = Stopped_Token q" "took (sruns y) q w k" "live (sruns y) w \<subseteq> {..k}"
    using S(8) assms(3) unfolding quiet_ok_def last_of_def by blast
  then have "live (sruns y) w = {}"
    using ended_not_live [OF _ q(2) S(5,2,6)] assms(4) by (auto simp: is_set_def)
  then have "quiet_ok (sruns y) ((maint y)(w \<mapsto> Quiet))" using S(8) by (auto simp: quiet_ok_def)
  moreover have "maint_ok (sruns y) ((maint y)(w \<mapsto> Quiet)) (MAINT_HELD (sglob y))"
    using S(7) assms(3) unfolding maint_ok_def by auto
  ultimately show ?thesis
    using safe_glob [OF assms(1,2) quiet_sections(1), where m = "(maint y)(w \<mapsto> Quiet)"] by simp
qed

lemma safe_release:
  assumes "scans_safe n y" "Suc n < 2 ^ 64" "maint y w = Some m"
  shows "scans_safe (Suc n) (y\<lparr>sglob := end_maintenance w (sglob y), maint := (maint y)(w := None)\<rparr>)"
proof -
  note S = scans_safeD [OF assms(1)]
  have "maint_ok (sruns y) ((maint y)(w := None)) (MAINT_HELD (sglob y) - {w})"
    using S(7) assms(3) unfolding maint_ok_def by auto
  moreover have "quiet_ok (sruns y) ((maint y)(w := None))" using S(8) by (auto simp: quiet_ok_def)
  ultimately show ?thesis
    using safe_glob [OF assms(1,2) ids_end_maintenance [OF quiet_sections(1)], where m = "(maint y)(w := None)"]
    by simp
qed

lemma scans_safe_step:
  assumes "scan_step y y'" and safe: "scans_safe n y" and cap: "Suc n < 2 ^ 64"
  shows "scans_safe (Suc n) y'"
  using assms(1)
proof cases
  case (lost r run k)
  then show ?thesis using safe_over [OF safe cap lost(2), of "Some k" "sglob y"] by simp
next
  case (finish r run ko)
  then show ?thesis
    using safe_over [OF safe cap finish(2), of ko "leave_starting (run_sid run) (sglob y)"] by auto
next
  case (create w rh s)
  then show ?thesis
    using safe_section [OF safe cap create_ids [OF create(2)]] section_effects(1) [OF create(2)] by simp
next
  case (stop h rc s)
  then show ?thesis
    using safe_section [OF safe cap stop_ids [OF stop(2)]] section_effects(3) [OF stop(2)] by simp
next
  case (cancel w rc s)
  then show ?thesis
    using safe_section [OF safe cap quiet_ids(1) [OF cancel(2)]] section_effects(4) [OF cancel(2)] by simp
next
  case poison
  show ?thesis unfolding poison by (rule safe_section [OF safe cap quiet_ids(5)]) simp_all
next
  case (outside s)
  then have "ids_changed Same_Ids (sglob y) s" by (simp add: ids_changed_def)
  with outside show ?thesis using safe_section [OF safe cap] by simp
qed (use safe_begin [OF safe cap _ _ refl] safe_not_begun [OF safe cap] safe_give_up [OF safe cap]
    safe_lock [OF safe cap] safe_refused [OF safe cap] safe_enter [OF safe cap] safe_wait [OF safe cap]
    safe_clear [OF safe cap] safe_maintain [OF safe cap] safe_stop_all [OF safe cap]
    safe_stopped [OF safe cap] safe_release [OF safe cap] in \<open>simp; fail\<close>)+

interpretation scan_system: bounded_invariant scan_step scans_safe "2 ^ 64"
  by unfold_locales (rule scans_safe_step)

lemma scans_safe_start: "scans_safe 0 (scan_start wd)"
  by (simp add: scans_safe_def scan_start_def handles_used_def handles_ok_init turns_ok_def took_def
      slots_ok_def waits_ok_def scans_ok_def stopped_ok_def maint_ok_def quiet_ok_def live_def
      init_bridge_def init_ScanState_def handles_ok_def)

lemmas scans_reachable = scan_system.from_start [OF _ scans_safe_start]

section \<open>An example\<close>

text \<open>
  Two runs of a wallet's scans: the first is scanning, the second has taken the slot and
  waits for the first, which is cancelled and marked superseded.
\<close>

definition example_first :: scan_run where
  "example_first = \<lparr>run_wallet = lit ''w'', run_sid = 0, run_priority = Background, run_phase = Starting\<rparr>"

definition example_second :: scan_run where
  "example_second = \<lparr>run_wallet = lit ''w'', run_sid = 1, run_priority = Foreground, run_phase = Starting\<rparr>"

definition example_at ::
  "u64 set \<Rightarrow> (u64, rstring) fmap \<Rightarrow> (rstring, ScanController) fmap \<Rightarrow> cell set \<Rightarrow> u64 \<Rightarrow> nat \<Rightarrow>
     rstring set \<Rightarrow> phase list \<Rightarrow> nat \<Rightarrow> (unit, unit) scan_system" where
  "example_at iss st slots cs i run held phases k =
     \<lparr>sglob = (init_bridge ())\<lparr>SCAN_STATE := \<lparr>issued = iss, stopped_before_start = {}, starting = st,
        running = slots\<rparr>, cells := cs, SCAN_ID := i, next_run := run, MAINT_HELD := held\<rparr>,
      sruns = (case phases of [] \<Rightarrow> (\<lambda>_. None)
        | [p] \<Rightarrow> (\<lambda>_. None)(0 \<mapsto> example_first\<lparr>run_phase := p\<rparr>)
        | p # q # _ \<Rightarrow> (\<lambda>_. None)(0 \<mapsto> example_first\<lparr>run_phase := p\<rparr>, 1 \<mapsto> example_second\<lparr>run_phase := q\<rparr>)),
      turns = k, maint = (\<lambda>_. None)\<rparr>"

definition example_scans :: "(unit, unit) scan_system" where
  "example_scans = example_at {} fmempty (fmupd (lit ''w'') (controller_of 1 example_second) fmempty)
     {Token 0, Superseded_Flag 0} 2 2 {}
     [Scanning 0, Replacing 1 (Some (controller_of 0 example_first))] 2"

lemma scans_then: "steps scan_step n s t \<Longrightarrow> scan_step t u \<Longrightarrow> u = v \<Longrightarrow> steps scan_step (Suc n) s v"
  by (auto intro: steps_Suc)

lemma fmap_singletons [simp]:
  "fmdrop k (fmupd k v fmempty) = fmempty" "fmupd k v (fmupd k u m) = fmupd k v m"
  by (rule fmap_ext; simp)+

lemmas example_eval = example_at_def example_first_def example_second_def controller_of_def move_def
  at_phase_def init_bridge_def create_scan_handle_def claim_handle_def enter_slot_def take_slot_def
  slot_refuses_def end_maintenance_def upd_scan_def proc_simps Let_def fun_eq_iff set_cell_def is_set_def

lemma example_starting:
  "steps scan_step 3 (scan_start ())
     (example_at {1} (fmupd 0 (lit ''w'') fmempty) fmempty {} 2 1 {} [Starting] 0)"
proof -
  let ?w = "lit ''w''"
  have "steps scan_step 0 (scan_start ()) (example_at {} fmempty fmempty {} 0 0 {} [] 0)"
    by (rule back_subst [of "steps scan_step 0 (scan_start ())", OF steps_0])
      (simp add: scan_start_def example_eval init_ScanState_def)
  then have "steps scan_step (Suc 0) (scan_start ()) (example_at {0} fmempty fmempty {} 1 0 {} [] 0)"
    by (rule scans_then [OF _ scan_step.create [of ?w, OF surjective_pairing]]) (simp add: example_eval)
  then have "steps scan_step (Suc (Suc 0)) (scan_start ()) (example_at {0, 1} fmempty fmempty {} 2 0 {} [] 0)"
    by (rule scans_then [OF _ scan_step.create [of ?w, OF surjective_pairing]]) (auto simp add: example_eval)
  then have "steps scan_step (Suc (Suc (Suc 0))) (scan_start ())
      (example_at {1} (fmupd 0 ?w fmempty) fmempty {} 2 1 {} [Starting] 0)"
    by (rule scans_then [OF _ scan_step.begin_run
          [where h = "\<lparr>handle_wallet = ?w, handle_id = 0\<rparr>" and p = Background, OF _ prod_eqI]])
      (auto simp add: example_eval)
  then show ?thesis by (simp add: eval_nat_numeral)
qed

lemma example_started:
  "steps scan_step 5 (scan_start ())
     (example_at {1} fmempty (fmupd (lit ''w'') (controller_of 0 example_first) fmempty) {} 2 1 {}
        [Replacing 0 None] 1)"
proof -
  let ?w = "lit ''w''"
  have "steps scan_step (Suc 3) (scan_start ())
      (example_at {1} (fmupd 0 ?w fmempty) fmempty {} 2 1 {?w} [Entering] 0)"
    by (rule scans_then [OF example_starting scan_step.lock [where r = 0 and run = example_first]])
      (auto simp add: example_eval)
  then have "steps scan_step (Suc (Suc 3)) (scan_start ())
      (example_at {1} fmempty (fmupd ?w (controller_of 0 example_first) fmempty) {} 2 1 {} [Replacing 0 None] 1)"
    by (rule scans_then [OF _ scan_step.enter [where r = 0 and run = "example_first\<lparr>run_phase := Entering\<rparr>"
          and previous = None, OF _ _ prod_eqI]])
      (auto simp add: example_eval)
  then show ?thesis by (simp add: eval_nat_numeral)
qed

lemma example_waiting: "steps scan_step 9 (scan_start ()) example_scans"
proof -
  let ?w = "lit ''w''" and ?c = "controller_of 0 example_first"
  have "steps scan_step (Suc 5) (scan_start ())
      (example_at {1} fmempty (fmupd ?w ?c fmempty) {} 2 1 {} [Scanning 0] 1)"
    by (rule scans_then [OF example_started scan_step.wait [where r = 0 and
          run = "example_first\<lparr>run_phase := Replacing 0 None\<rparr>" and previous = None]])
      (auto simp add: example_eval)
  then have "steps scan_step (Suc (Suc 5)) (scan_start ())
      (example_at {} (fmupd 1 ?w fmempty) (fmupd ?w ?c fmempty) {} 2 2 {} [Scanning 0, Starting] 1)"
    by (rule scans_then [OF _ scan_step.begin_run
          [where h = "\<lparr>handle_wallet = ?w, handle_id = 1\<rparr>" and p = Foreground, OF _ prod_eqI]])
      (auto simp add: example_eval)
  then have "steps scan_step (Suc (Suc (Suc 5))) (scan_start ())
      (example_at {} (fmupd 1 ?w fmempty) (fmupd ?w ?c fmempty) {} 2 2 {?w} [Scanning 0, Entering] 1)"
    by (rule scans_then [OF _ scan_step.lock [where r = 1 and run = example_second]])
      (auto simp add: example_eval)
  then have "steps scan_step (Suc (Suc (Suc (Suc 5)))) (scan_start ()) example_scans"
    unfolding example_scans_def
    by (rule scans_then [OF _ scan_step.enter [where r = 1 and run = "example_second\<lparr>run_phase := Entering\<rparr>"
          and previous = "Some ?c", OF _ _ prod_eqI]])
      (auto simp add: example_eval)
  then show ?thesis by (simp add: eval_nat_numeral)
qed

section \<open>Results\<close>

definition scanning_runs :: "all_runs \<Rightarrow> rstring \<Rightarrow> nat set" where
  "scanning_runs R w = {r. \<exists>run k. R r = Some run \<and> run_wallet run = w \<and> run_phase run = Scanning k}"

text \<open>
  C8 (safety): one scan of a wallet at a time. However starts, rescans, stops, locks,
  maintenance operations and lost tasks interleave, at most one run of \<open>run_scan\<close> per wallet
  is between the end of its wait for the replaced scan and the clearing of its slot, so no
  wallet is ever read or rolled back by two scans at once. (Fewer than \<open>2 ^ 64\<close> steps.)
\<close>

theorem one_scan_per_wallet:
  assumes "steps scan_step n (scan_start wd) y" and "n < 2 ^ 64"
  shows "\<exists>q. scanning_runs (sruns y) w \<subseteq> {q}"
proof -
  note S = scans_safeD [OF scans_reachable [OF assms]]
  have "q = r" if q: "sruns y q = Some a" "run_wallet a = w" "run_phase a = Scanning j"
    and r: "sruns y r = Some b" "run_wallet b = w" "run_phase b = Scanning k" for q a j r b k
  proof -
    have "j \<in> live (sruns y) w" "k \<in> live (sruns y) w"
      using q r unfolding live_def by (auto intro: exI [of _ q] exI [of _ r])
    moreover have "live (sruns y) w \<inter> {..<k} = {}" "live (sruns y) w \<inter> {..<j} = {}"
      using scans_okD [of "sruns y" r b k, OF S(5) r(1)] scans_okD [of "sruns y" q a j, OF S(5) q(1)]
        q r by auto
    ultimately have "j = k" by (meson disjoint_iff lessThan_iff linorder_neqE_nat)
    moreover have "took (sruns y) q w j" "took (sruns y) r w k" using q r by (auto simp: took_def)
    ultimately show ?thesis using S(2) unfolding turns_ok_def by metis
  qed
  then show ?thesis unfolding scanning_runs_def by blast
qed

theorem one_scan_per_wallet_witness:
  "(\<exists>q. scanning_runs (sruns example_scans) (lit ''w'') \<subseteq> {q}) \<and>
    0 \<in> scanning_runs (sruns example_scans) (lit ''w'')"
proof
  show "\<exists>q. scanning_runs (sruns example_scans) (lit ''w'') \<subseteq> {q}"
    by (rule one_scan_per_wallet [OF example_waiting]) simp
  show "0 \<in> scanning_runs (sruns example_scans) (lit ''w'')"
    by (auto simp: scanning_runs_def example_scans_def example_at_def example_first_def)
qed

text \<open>
  C9 (safety): a maintenance operation (a passphrase change, a rename or a delete) that holds
  its wallet's lock and has waited for the scan it cancelled runs with no scan of the wallet
  in a slot: none is scanning, none waits to scan, and none is entering, before the operation
  releases the lock.
\<close>

theorem maintenance_is_quiet:
  assumes "steps scan_step n (scan_start wd) y" and "n < 2 ^ 64"
    and "maint y w = Some Quiet" and "sruns y r = Some run" and "run_wallet run = w"
  shows "\<not> is_live (run_phase run) \<and> run_phase run \<noteq> Entering"
proof -
  note S = scans_safeD [OF scans_reachable [OF assms(1,2)]]
  have "live (sruns y) w = {}" using S(8) assms(3) by (auto simp: quiet_ok_def)
  moreover have "\<exists>k. turn_of (run_phase run) = Some k" if "is_live (run_phase run)"
    using that by (cases "run_phase run") auto
  ultimately have "\<not> is_live (run_phase run)" using assms(4,5) unfolding live_def by blast
  moreover have "run_phase run \<noteq> Entering" using S(7) assms(3-5) by (auto simp: maint_ok_def)
  ultimately show ?thesis by simp
qed

theorem maintenance_is_quiet_witness:
  "\<exists>y :: (unit, unit) scan_system. maint y (lit ''w'') = Some Quiet \<and> sruns y 0 = Some example_first \<and>
     \<not> is_live (run_phase example_first) \<and> run_phase example_first \<noteq> Entering"
proof -
  let ?w = "lit ''w''"
  let ?y = "(example_at {1} fmempty fmempty {} 2 1 {?w} [Starting] 0)\<lparr>maint := (\<lambda>_. None)(?w \<mapsto> Quiet)\<rparr>"
  have "steps scan_step (Suc 3) (scan_start ())
      ((example_at {1} (fmupd 0 ?w fmempty) fmempty {} 2 1 {?w} [Starting] 0)\<lparr>maint := (\<lambda>_. None)(?w \<mapsto> Held)\<rparr>)"
    by (rule scans_then [OF example_starting scan_step.maintain [where w = ?w]])
      (auto simp add: example_eval)
  then have "steps scan_step (Suc (Suc 3)) (scan_start ()) ?y"
    by (rule scans_then [OF _ scan_step.stop_all [where w = ?w and stopped = None, OF _ prod_eqI]])
      (auto simp add: example_eval cancel_wallet_scans_def intro!: fmap_ext)
  from maintenance_is_quiet [OF this _ _, of ?w 0 example_first] show ?thesis
    by (intro exI [of _ ?y]) (simp add: example_at_def example_first_def)
qed

text \<open>
  C11 (liveness): no scan waits in a circle. In every reachable state, while a run waits for
  the scan it replaced, some run of the same wallet can go on by itself: it scans, it is on
  its way out, or what it waits for has stopped.
\<close>

theorem no_scan_waits_forever:
  assumes "steps scan_step n (scan_start wd) y" and "n < 2 ^ 64"
    and "sruns y r = Some run" and "run_phase run = Replacing k v"
  shows "\<exists>q a. sruns y q = Some a \<and> run_wallet a = run_wallet run \<and>
    (case run_phase a of
       Scanning _ \<Rightarrow> True
     | Ending _ \<Rightarrow> True
     | Replacing _ u \<Rightarrow> (case u of None \<Rightarrow> True | Some p \<Rightarrow> is_set (ctl_stopped p) (sglob y))
     | _ \<Rightarrow> False)"
proof -
  note S = scans_safeD [OF scans_reachable [OF assms(1,2)]]
  let ?w = "run_wallet run" and ?R = "sruns y"
  define j where "j = (LEAST i. i \<in> live ?R ?w)"
  have "k \<in> live ?R ?w" using assms(3,4) unfolding live_def by (auto intro!: exI [of _ r])
  then have j: "j \<in> live ?R ?w" unfolding j_def by (rule LeastI)
  have least: "i \<notin> live ?R ?w" if "i < j" for i using that not_less_Least unfolding j_def by blast
  obtain q a where a: "?R q = Some a" "run_wallet a = ?w" "is_live (run_phase a)" "turn_of (run_phase a) = Some j"
    using j by (auto simp: live_def)
  show ?thesis
  proof (cases "run_phase a")
    case (Replacing i u)
    then have i: "i = j" using a(4) by simp
    show ?thesis
    proof (cases u)
      case None
      with a Replacing show ?thesis by (intro exI [of _ q] exI [of _ a]) simp
    next
      case (Some p)
      with waits_okD [of ?R q a, OF S(4) a(1) Replacing] a(2) i obtain q' m where
        q': "ctl_stopped p = Stopped_Token q'" "took ?R q' ?w m" "m < j"
        by (auto simp: before_ok_def)
      from q'(2) obtain b where b: "?R q' = Some b" "run_wallet b = ?w" "turn_of (run_phase b) = Some m"
        by (auto simp: took_def)
      with least [OF q'(3)] have "\<not> is_live (run_phase b)" unfolding live_def by blast
      with b(3) consider ko where "run_phase b = Ending ko" | ko where "run_phase b = Ended ko"
        by (cases "run_phase b") auto
      then show ?thesis
      proof cases
        case 1
        with b show ?thesis by (intro exI [of _ q'] exI [of _ b]) simp
      next
        case 2
        with b(1) S(6) have "Stopped_Token q' \<in> cells (sglob y)" by (auto simp: stopped_ok_def)
        with a Replacing Some q'(1) show ?thesis by (intro exI [of _ q] exI [of _ a]) (simp add: is_set_def)
      qed
    qed
  qed (use a in \<open>auto intro!: exI [of _ q]\<close>)
qed

theorem no_scan_waits_forever_witness:
  "\<exists>q a. sruns example_scans q = Some a \<and> run_wallet a = lit ''w'' \<and>
    (case run_phase a of
       Scanning _ \<Rightarrow> True
     | Ending _ \<Rightarrow> True
     | Replacing _ u \<Rightarrow> (case u of None \<Rightarrow> True | Some p \<Rightarrow> is_set (ctl_stopped p) (sglob example_scans))
     | _ \<Rightarrow> False)"
  using no_scan_waits_forever [OF example_waiting, of 1 "example_second\<lparr>run_phase :=
      Replacing 1 (Some (controller_of 0 example_first))\<rparr>" 1 "Some (controller_of 0 example_first)"]
  by (simp add: example_scans_def example_at_def example_second_def)

end
