(* ===== verification/Utils.thy ===== *)
theory Utils
  imports Prelude
begin

text \<open>
  Formatting amounts (\<open>src/api/utils.rs\<close>): the separator routine equals the textbook
  recursion on thousands, and the amount can be read back from the text.
\<close>

section \<open>The code\<close>

text \<open>
  The loop of \<open>format_with_thousands_separator\<close>: the digits from the least significant, with
  their index; a comma is pushed before every third but the first.
\<close>

fun push_separated :: "nat \<Rightarrow> rstring \<Rightarrow> rstring" where
  "push_separated i [] = []"
| "push_separated i (c # cs) =
     (if i > 0 \<and> i mod 3 = 0 then [44] else []) @ c # push_separated (i + 1) cs"

definition format_with_thousands_separator :: "u64 \<Rightarrow> rstring" where
  "format_with_thousands_separator n = rev (push_separated 0 (rev (format_dec (unat n))))"

definition format_micro_tari :: "u64 \<Rightarrow> rstring" where
  "format_micro_tari micro_tari =
     (let whole_tari = micro_tari div 1000000; fractional = micro_tari mod 1000000 in
      if whole_tari \<ge> 1000
      then format_with_thousands_separator whole_tari @ lit ''.'' @
        pad_zero 6 (format_dec (unat fractional)) @ lit '' XTM''
      else format_dec (unat whole_tari) @ lit ''.'' @
        pad_zero 6 (format_dec (unat fractional)) @ lit '' XTM'')"

section \<open>The reference\<close>

fun thousands :: "nat \<Rightarrow> rstring" where
  "thousands n =
     (if n < 1000 then format_dec n
      else thousands (n div 1000) @ [44] @ pad_zero 3 (format_dec (n mod 1000)))"

declare thousands.simps [simp del]

lemma push_separated_append:
  "push_separated i (xs @ ys) = push_separated i xs @ push_separated (i + length xs) ys"
  by (induction xs arbitrary: i) auto

text \<open>From an index that is a multiple of three and positive, a comma comes first.\<close>

lemma push_separated_cong:
  "0 < i \<Longrightarrow> 0 < j \<Longrightarrow> i mod 3 = j mod 3 \<Longrightarrow> push_separated i xs = push_separated j xs"
proof (induction xs arbitrary: i j)
  case (Cons c cs)
  then have "Suc i mod 3 = Suc j mod 3" by (metis mod_Suc)
  with Cons.IH [of "Suc i" "Suc j"] Cons.prems show ?case by simp
qed simp

lemma push_separated_3:
  assumes "xs \<noteq> []"
  shows "push_separated 3 xs = 44 # push_separated 0 xs"
proof (cases xs)
  case (Cons c cs)
  have "push_separated 4 cs = push_separated 1 cs" by (rule push_separated_cong) simp_all
  with Cons show ?thesis by simp
qed (use assms in simp)

lemma format_dec_step: "10 \<le> n \<Longrightarrow> format_dec n = format_dec (n div 10) @ [digit_char (n mod 10)]"
  unfolding format_dec_def by (subst format_base.simps) simp

lemma format_dec_small: "n < 10 \<Longrightarrow> format_dec n = [digit_char n]"
  unfolding format_dec_def by (subst format_base.simps) simp

lemma digit_char_0: "digit_char 0 = 48"
  by (simp add: digit_char_def)

lemma length_format_dec_less: "n < 10 ^ k \<Longrightarrow> 0 < k \<Longrightarrow> length (format_dec n) \<le> k"
proof (induction k arbitrary: n)
  case (Suc k)
  show ?case
  proof (cases "n < 10")
    case True
    then show ?thesis by (simp add: format_dec_small)
  next
    case False
    with Suc.prems have "0 < k" by (cases k) auto
    with Suc.IH [of "n div 10"] Suc.prems False show ?thesis by (simp add: format_dec_step)
  qed
qed simp

lemma thousand_digits:
  fixes n :: nat
  shows "n div 10 div 10 div 10 = n div 1000" "n mod 10 = n mod 1000 mod 10"
    "n div 10 mod 10 = n mod 1000 div 10 mod 10" "n div 10 div 10 mod 10 = n mod 1000 div 10 div 10"
proof -
  have low: "n mod 1000 div 10 = n div 10 mod 100"
    using mod_mult2_eq [of n 10 100] by simp
  have mid: "n div 10 mod 100 div 10 = n div 10 div 10 mod 10"
    using mod_mult2_eq [of "n div 10" 10 10] by simp
  show "n div 10 div 10 div 10 = n div 1000" by (simp add: div_mult2_eq [symmetric])
  show "n mod 10 = n mod 1000 mod 10" by (simp add: mod_mod_cancel)
  show "n div 10 mod 10 = n mod 1000 div 10 mod 10" by (simp add: low mod_mod_cancel)
  show "n div 10 div 10 mod 10 = n mod 1000 div 10 div 10" by (simp add: low mid)
qed

lemma pad_zero_3 [simp]:
  "pad_zero 3 [a] = [48, 48, a]" "pad_zero 3 [a, b] = [48, a, b]" "pad_zero 3 [a, b, c] = [a, b, c]"
  by (simp_all add: pad_zero_def numeral_3_eq_3)

lemma pad_three:
  assumes "m < 1000"
  shows "pad_zero 3 (format_dec m) = [digit_char (m div 10 div 10), digit_char (m div 10 mod 10), digit_char (m mod 10)]"
proof -
  consider "m < 10" | "10 \<le> m" "m div 10 < 10" | "10 \<le> m" "10 \<le> m div 10" "m div 10 div 10 < 10"
    using assms by linarith
  then show ?thesis
  proof cases
    case 1
    then show ?thesis by (simp add: format_dec_small digit_char_0)
  next
    case 2
    then have "format_dec m = [digit_char (m div 10), digit_char (m mod 10)]"
      by (simp only: format_dec_step [OF 2(1)] format_dec_small [OF 2(2)] append.simps)
    moreover have "m div 10 div 10 = 0" "m div 10 mod 10 = m div 10" using 2(2) by simp_all
    ultimately show ?thesis by (simp add: digit_char_0)
  next
    case 3
    then have "format_dec m = [digit_char (m div 10 div 10), digit_char (m div 10 mod 10), digit_char (m mod 10)]"
      by (simp only: format_dec_step [OF 3(1)] format_dec_step [OF 3(2)] format_dec_small [OF 3(3)]
          append.simps)
    then show ?thesis by simp
  qed
qed

lemma format_dec_three:
  assumes "1000 \<le> n"
  shows "format_dec n = format_dec (n div 1000) @ pad_zero 3 (format_dec (n mod 1000))"
proof -
  have le: "10 \<le> n" "10 \<le> n div 10" "10 \<le> n div 10 div 10" using assms by linarith+
  have "format_dec n = format_dec (n div 10 div 10 div 10) @
      [digit_char (n div 10 div 10 mod 10), digit_char (n div 10 mod 10), digit_char (n mod 10)]"
    by (simp only: format_dec_step [OF le(1)] format_dec_step [OF le(2)] format_dec_step [OF le(3)]
        append_assoc append.simps)
  then show ?thesis
    using pad_three [of "n mod 1000"] thousand_digits [of n] by simp
qed

lemma pad_three_length: "n < 1000 \<Longrightarrow> length (pad_zero 3 (format_dec n)) = 3"
  using length_format_dec_less [of n 3] by (simp add: pad_zero_def)

lemma push_separated_short: "length xs \<le> 3 \<Longrightarrow> push_separated 0 xs = xs"
proof -
  assume "length xs \<le> 3"
  then consider "xs = []" | a where "xs = [a]" | a b where "xs = [a, b]" | a b c where "xs = [a, b, c]"
    by (cases xs rule: remdups_adj.cases; cases "tl (tl xs)") (auto simp: numeral_eq_Suc)
  then show ?thesis by cases auto
qed

lemma separated_thousands: "rev (push_separated 0 (rev (format_dec n))) = thousands n"
proof (induction n rule: thousands.induct)
  case (1 n)
  show ?case
  proof (cases "n < 1000")
    case True
    then have "length (rev (format_dec n)) \<le> 3" using length_format_dec_less [of n 3] by simp
    from push_separated_short [OF this] True show ?thesis by (subst thousands.simps) simp
  next
    case False
    let ?low = "pad_zero 3 (format_dec (n mod 1000))"
    have low: "length ?low = 3" by (rule pad_three_length) simp
    have "push_separated 0 (rev (format_dec n)) =
        rev ?low @ 44 # push_separated 0 (rev (format_dec (n div 1000)))"
    proof -
      have "rev (format_dec n) = rev ?low @ rev (format_dec (n div 1000))"
        using False by (simp add: format_dec_three)
      moreover have "push_separated 0 (rev ?low) = rev ?low"
        using low by (intro push_separated_short) simp
      moreover have "rev (format_dec (n div 1000)) \<noteq> []" by (simp add: format_dec_def)
      ultimately show ?thesis using low by (simp add: push_separated_append push_separated_3)
    qed
    with 1 False show ?thesis by (subst thousands.simps) simp
  qed
qed

section \<open>Reading an amount back\<close>

definition is_digit :: "rchar \<Rightarrow> bool" where
  "is_digit c \<longleftrightarrow> 48 \<le> c \<and> c \<le> 57"

lemma foldl_digits:
  "foldl (\<lambda>n c. n * b + digit_value c) a s = a * b ^ length s + foldl (\<lambda>n c. n * b + digit_value c) 0 s"
proof (induction s arbitrary: a rule: rev_induct)
  case (snoc c s)
  from snoc [of a] show ?case by (simp add: algebra_simps)
qed simp

lemma parse_base_append: "parse_base b (s @ t) = parse_base b s * b ^ length t + parse_base b t"
  using foldl_digits [of b "parse_base b s" t] by (simp add: parse_base_def)

lemma parse_zeros: "parse_base b (replicate k 48) = 0"
  by (induction k) (simp_all add: parse_base_def digit_value_def)

lemma parse_pad_zero [simp]: "parse_base b (pad_zero w s) = parse_base b s"
  by (simp add: pad_zero_def parse_base_append parse_zeros)

lemma filter_format_dec [simp]: "filter is_digit (format_dec n) = format_dec n"
  by (rule filter_True) (auto simp: is_digit_def dest: format_dec_digits)

lemma filter_pad_zero [simp]: "filter is_digit (pad_zero w (format_dec n)) = pad_zero w (format_dec n)"
  by (simp add: pad_zero_def is_digit_def [of 48])

lemma filter_thousands: "filter is_digit (thousands n) = format_dec n"
proof (induction n rule: thousands.induct)
  case (1 n)
  then show ?case
    by (subst thousands.simps) (simp add: is_digit_def [of 44] format_dec_three)
qed

lemma length_pad_zero: "n < 10 ^ w \<Longrightarrow> 0 < w \<Longrightarrow> length (pad_zero w (format_dec n)) = w"
  using length_format_dec_less [of n w] by (simp add: pad_zero_def)

lemma lit_digits:
  "filter is_digit (lit ''.'') = []" "filter is_digit (lit '' XTM'') = []"
  by (simp_all add: lit_def is_digit_def)

text \<open>
  The separator loop over the reversed digits is the textbook recursion
  on thousands: three digits after every comma, no leading zeros, no comma below 1000.
\<close>

theorem thousands_separator_correct: "format_with_thousands_separator n = thousands (unat n)"
  by (simp add: format_with_thousands_separator_def separated_thousands)

lemma format_micro_tari_parts:
  "format_micro_tari m = thousands (unat m div 1000000) @ lit ''.'' @
     pad_zero 6 (format_dec (unat m mod 1000000)) @ lit '' XTM''"
proof -
  let ?w = "unat m div 1000000"
  have parts: "unat (m div 1000000) = ?w" "unat (m mod 1000000) = unat m mod 1000000"
    by (simp_all add: unat_div unat_mod)
  have "(1000 \<le> m div 1000000) = (1000 \<le> ?w)"
    using parts(1) by (simp add: word_le_nat_alt)
  then show ?thesis
    by (simp add: format_micro_tari_def Let_def parts format_with_thousands_separator_def
        separated_thousands thousands.simps [of ?w])
qed

lemma format_micro_tari_digits: "parse_base 10 (filter is_digit (format_micro_tari m)) = unat m"
  using length_pad_zero [of "unat m mod 1000000" 6]
  by (simp add: format_micro_tari_parts filter_thousands lit_digits parse_base_append)

text \<open>
  A formatted amount is the whole Tari with thousands separators, a point,
  exactly six decimals and the unit, and its digits read as the amount in microTari, so two
  amounts never look the same.
\<close>

theorem format_micro_tari_reads_back:
  "\<exists>decimals. format_micro_tari m =
      thousands (unat m div 1000000) @ lit ''.'' @ decimals @ lit '' XTM'' \<and>
    length decimals = 6 \<and> filter is_digit decimals = decimals \<and>
    parse_base 10 (filter is_digit (format_micro_tari m)) = unat m"
proof -
  let ?d = "pad_zero 6 (format_dec (unat m mod 1000000))"
  have "length ?d = 6" by (rule length_pad_zero) simp_all
  moreover have "filter is_digit ?d = ?d" by simp
  ultimately show ?thesis
    using format_micro_tari_parts [of m] format_micro_tari_digits [of m] by blast
qed

end
