(* ===== verification/Network.thy ===== *)
theory Network
  imports Globals
begin

text \<open>
  The networks (\<open>src/api/network.rs\<close>): the bridge's enum and its conversions to and from
  \<open>tari_common\<close>'s \<open>Network\<close>, parsing a name, the default, and the one place that installs the
  process-global network.
\<close>

section \<open>The enum and its conversions\<close>

datatype TariNetwork = MainNet | StageNet | NextNet | LocalNet | Igor | Esmeralda

text \<open>\<open>tari_common::configuration::Network\<close>, by the variants the code's exhaustive match names.\<close>

datatype Lib_Network =
  Lib_MainNet | Lib_StageNet | Lib_NextNet | Lib_LocalNet | Lib_Igor | Lib_Esmeralda

fun network_from_tari :: "TariNetwork \<Rightarrow> Lib_Network" where
  "network_from_tari MainNet = Lib_MainNet"
| "network_from_tari StageNet = Lib_StageNet"
| "network_from_tari NextNet = Lib_NextNet"
| "network_from_tari LocalNet = Lib_LocalNet"
| "network_from_tari Igor = Lib_Igor"
| "network_from_tari Esmeralda = Lib_Esmeralda"

fun tari_from_network :: "Lib_Network \<Rightarrow> TariNetwork" where
  "tari_from_network Lib_MainNet = MainNet"
| "tari_from_network Lib_StageNet = StageNet"
| "tari_from_network Lib_NextNet = NextNet"
| "tari_from_network Lib_LocalNet = LocalNet"
| "tari_from_network Lib_Igor = Igor"
| "tari_from_network Lib_Esmeralda = Esmeralda"

section \<open>Parsing a name\<close>

text \<open>
  \<open>str::to_lowercase\<close>: the ASCII letters as written here; what Unicode's tables give for any
  other character is the parameter \<open>lower\<close>.
\<close>

definition to_lowercase :: "(rchar \<Rightarrow> rstring) \<Rightarrow> rstring \<Rightarrow> rstring" where
  "to_lowercase lower s =
     concat (map (\<lambda>c. if c < 0x80 then [if 65 \<le> c \<and> c \<le> 90 then c + 32 else c] else lower c) s)"

definition from_str :: "(rchar \<Rightarrow> rstring) \<Rightarrow> rstring \<Rightarrow> api_error + TariNetwork" where
  "from_str lower s =
     (let name = to_lowercase lower s in
      if name = lit ''mainnet'' then Inr MainNet
      else if name = lit ''stagenet'' then Inr StageNet
      else if name = lit ''nextnet'' then Inr NextNet
      else if name = lit ''localnet'' then Inr LocalNet
      else if name = lit ''igor'' then Inr Igor
      else if name = lit ''esmeralda'' \<or> name = lit ''esme'' then Inr Esmeralda
      else Inl (Wallet_Err (InvalidNetwork name)))"

section \<open>The network of a call and of the process\<close>

definition parse_network :: "TariNetwork option \<Rightarrow> Lib_Network" where
  "parse_network net = (case net of Some n \<Rightarrow> network_from_tari n | None \<Rightarrow> Lib_MainNet)"

text \<open>
  \<open>tari_common\<close> keeps the process's network; what the bridge calls of it:
  \<open>set_network_if_choice_valid\<close>, and \<open>Network::get_current\<close> when \<open>Network::is_set\<close>.
\<close>

record 'w network_lib =
  set_network_if_choice_valid :: "Lib_Network \<Rightarrow> 'w \<Rightarrow> (rstring + unit) \<times> 'w"
  get_current_network :: "'w \<Rightarrow> Lib_Network option"

definition apply_network ::
  "('w, 'n) network_lib_scheme \<Rightarrow> Lib_Network \<Rightarrow> ('w, 'p, unit) bridge_api" where
  "apply_network N net = map_err_proc Upstream (on_world (set_network_if_choice_valid N net))"

definition current_network :: "('w, 'n) network_lib_scheme \<Rightarrow> 'w \<Rightarrow> TariNetwork option" where
  "current_network N wd = map_option tari_from_network (get_current_network N wd)"

text \<open>
  What the bridge relies on: the network is written once. A successful set installs the
  network; it fails, changing nothing, when another one is installed.
\<close>

definition write_once :: "('w, 'n) network_lib_scheme \<Rightarrow> bool" where
  "write_once N \<longleftrightarrow>
     (\<forall>n wd r wd'. set_network_if_choice_valid N n wd = (r, wd') \<longrightarrow>
        (case r of
           Inl _ \<Rightarrow> wd' = wd
         | Inr _ \<Rightarrow> get_current_network N wd' = Some n \<and>
             (get_current_network N wd = None \<or> wd' = wd)))"

definition example_network_lib :: "Lib_Network option network_lib" where
  "example_network_lib =
     \<lparr>set_network_if_choice_valid = (\<lambda>n wd. if wd = None \<or> wd = Some n then (Inr (), Some n)
        else (Inl (lit ''set''), wd)),
      get_current_network = (\<lambda>wd. wd)\<rparr>"

lemma example_write_once: "write_once example_network_lib"
  by (auto simp: write_once_def example_network_lib_def)

lemma tari_network_inverse [simp]:
  "tari_from_network (network_from_tari n) = n" "network_from_tari (tari_from_network m) = m"
  by (cases n; simp) (cases m; simp)

text \<open>Every spelling of a name that differs in ASCII case only has the same lower case.\<close>

lemma to_lowercase_ascii:
  "\<forall>c \<in> set s. c < 0x80 \<Longrightarrow>
    to_lowercase lower s = map (\<lambda>c. if 65 \<le> c \<and> c \<le> 90 then c + 32 else c) s"
  by (induction s) (auto simp: to_lowercase_def)

fun network_name :: "TariNetwork \<Rightarrow> rstring" where
  "network_name MainNet = lit ''mainnet''"
| "network_name StageNet = lit ''stagenet''"
| "network_name NextNet = lit ''nextnet''"
| "network_name LocalNet = lit ''localnet''"
| "network_name Igor = lit ''igor''"
| "network_name Esmeralda = lit ''esmeralda''"

text \<open>
  What a network name parses to: the network whose name it is up to case
  (\<open>esme\<close> is Esmeralda too), and otherwise the error that names the lower-cased text. The two
  enums convert into each other without loss, so a parsed network reaches \<open>tari_common\<close> and
  comes back unchanged, and no network is MainNet.
\<close>

theorem network_from_str:
  "(from_str lower s = Inr n \<longleftrightarrow>
      to_lowercase lower s = network_name n \<or> n = Esmeralda \<and> to_lowercase lower s = lit ''esme'') \<and>
   (\<forall>e. from_str lower s = Inl e \<longleftrightarrow>
      e = Wallet_Err (InvalidNetwork (to_lowercase lower s)) \<and>
      to_lowercase lower s \<notin> insert (lit ''esme'') (range network_name)) \<and>
   tari_from_network (parse_network (Some n)) = n \<and> parse_network None = network_from_tari MainNet"
proof -
  have names: "range network_name =
      {lit ''mainnet'', lit ''stagenet'', lit ''nextnet'', lit ''localnet'', lit ''igor'', lit ''esmeralda''}"
  proof (intro equalityI subsetI)
    fix x assume "x \<in> range network_name"
    then obtain m where "x = network_name m" by blast
    then show "x \<in> {lit ''mainnet'', lit ''stagenet'', lit ''nextnet'', lit ''localnet'',
        lit ''igor'', lit ''esmeralda''}"
      by (cases m) simp_all
  next
    fix x assume "x \<in> {lit ''mainnet'', lit ''stagenet'', lit ''nextnet'', lit ''localnet'',
        lit ''igor'', lit ''esmeralda''}"
    then show "x \<in> range network_name"
      by (simp only: insert_iff empty_iff network_name.simps [symmetric]) blast
  qed
  have "from_str lower s = Inr n \<longleftrightarrow>
      to_lowercase lower s = network_name n \<or> n = Esmeralda \<and> to_lowercase lower s = lit ''esme''"
    by (cases n) (auto simp: from_str_def Let_def)
  moreover have "from_str lower s = Inl e \<longleftrightarrow>
      e = Wallet_Err (InvalidNetwork (to_lowercase lower s)) \<and>
      to_lowercase lower s \<notin> insert (lit ''esme'') (range network_name)" for e
    unfolding names by (auto simp: from_str_def Let_def)
  ultimately show ?thesis by (simp add: parse_network_def)
qed

text \<open>
  The network of a process is set once. When \<open>apply_network\<close> succeeds the
  process's network is the one asked for; any later call with another network errors and
  changes nothing.
\<close>

theorem network_set_once:
  assumes "write_once N" and "apply_network N n s = (Inr (), t)"
  shows "get_current_network N (world t) = Some n \<and>
    (\<forall>m. m \<noteq> n \<longrightarrow> (\<exists>e. apply_network N m t = (Inl e, t)))"
proof -
  obtain wd' where set: "set_network_if_choice_valid N n (world s) = (Inr (), wd')"
      and t: "t = s\<lparr>world := wd'\<rparr>"
    using assms(2) by (auto simp: apply_network_def on_world_def proc_simps split: prod.splits
        dest!: map_err_eq_InrE)
  then have cur: "get_current_network N (world t) = Some n"
    using assms(1) by (fastforce simp: write_once_def)
  have "\<exists>e. apply_network N m t = (Inl e, t)" if "m \<noteq> n" for m
  proof (cases "set_network_if_choice_valid N m (world t)")
    case (Pair r wd'')
    have "case r of Inl _ \<Rightarrow> wd'' = world t | Inr _ \<Rightarrow> get_current_network N wd'' = Some m \<and>
        (get_current_network N (world t) = None \<or> wd'' = world t)"
      using assms(1) Pair unfolding write_once_def by blast
    with cur that Pair show ?thesis
      by (cases r) (auto simp: apply_network_def on_world_def proc_simps)
  qed
  with cur show ?thesis by blast
qed

theorem network_set_once_witness:
  "get_current_network example_network_lib
      (world (snd (apply_network example_network_lib Lib_Igor (init_bridge None :: (Lib_Network option, unit) bridge)))) = Some Lib_Igor \<and>
    (\<exists>e. apply_network example_network_lib Lib_MainNet
      (snd (apply_network example_network_lib Lib_Igor (init_bridge None :: (Lib_Network option, unit) bridge))) =
      (Inl e, snd (apply_network example_network_lib Lib_Igor (init_bridge None :: (Lib_Network option, unit) bridge))))"
proof -
  let ?s = "init_bridge None :: (Lib_Network option, unit) bridge"
  let ?t = "snd (apply_network example_network_lib Lib_Igor ?s)"
  have "apply_network example_network_lib Lib_Igor ?s = (Inr (), ?t)"
    by (simp add: apply_network_def on_world_def proc_simps example_network_lib_def init_bridge_def)
  from network_set_once [OF example_write_once this] show ?thesis by blast
qed

end
