(* ===== verification/Config.thy ===== *)
theory Config
  imports Prelude
begin

text \<open>The constants of \<open>src/api/config.rs\<close>. A \<open>usize\<close> is 64 bits wide.\<close>

type_synonym usize = "64 word"

definition DEFAULT_CONFIRMATION_WINDOW :: u64 where
  "DEFAULT_CONFIRMATION_WINDOW = 3"

definition DEFAULT_BASE_URL :: rstring where
  "DEFAULT_BASE_URL = lit ''https://rpc.tari.com''"

definition SECONDS_TO_LOCK_UTXO :: u64 where
  "SECONDS_TO_LOCK_UTXO = 60 * 60 * 24"

definition DEFAULT_NUM_OUTPUTS :: usize where
  "DEFAULT_NUM_OUTPUTS = 1"

definition SEND_FEE_PER_GRAM :: u64 where
  "SEND_FEE_PER_GRAM = 5"

definition HEALTH_TIMEOUT_SECS :: u64 where
  "HEALTH_TIMEOUT_SECS = 5"

definition HEALTH_MAX_RETRIES :: u32 where
  "HEALTH_MAX_RETRIES = 1"

definition BRIDGE_ASYNC_WORKER_THREADS :: usize where
  "BRIDGE_ASYNC_WORKER_THREADS = 2"

definition BRIDGE_ASYNC_THREAD_NAME :: rstring where
  "BRIDGE_ASYNC_THREAD_NAME = lit ''cw-tari-rt''"

definition BRIDGE_THREAD_POOL_SIZE :: usize where
  "BRIDGE_THREAD_POOL_SIZE = 2"

definition LOG_FIELD_MAX_BYTES :: nat where
  "LOG_FIELD_MAX_BYTES = 4096"

end
