(* ===== verification/Validation.thy ===== *)
theory Validation
  imports Network Config
begin

text \<open>
  The checks on a send's payees (\<open>src/domain/validation.rs\<close>). A Tari address is
  \<open>tari_common_types\<close>' type \<open>'addr\<close>, a parameter with the functions the code calls of it.
\<close>

record 'addr address_lib =
  from_base58 :: "rstring \<Rightarrow> rstring + 'addr"
  addr_network :: "'addr \<Rightarrow> Lib_Network"
  to_base58 :: "'addr \<Rightarrow> rstring"
  to_emoji_string :: "'addr \<Rightarrow> rstring"
  network_text :: "Lib_Network \<Rightarrow> rstring"

definition validate_recipient ::
  "('addr, 'l) address_lib_scheme \<Rightarrow> Lib_Network \<Rightarrow> rstring \<Rightarrow> u64 \<Rightarrow> bool \<Rightarrow> wallet_error + 'addr" where
  "validate_recipient L net address amount send_all =
     res_then (map_err invalid_address (from_base58 L address)) (\<lambda>addr.
       if addr_network L addr \<noteq> net then
         Inl (invalid_address (lit ''address network ('' @ network_text L (addr_network L addr) @
           lit '') does not match the configured network ('' @ network_text L net @ lit '')''))
       else if amount = 0 \<and> \<not> send_all then
         Inl (wallet (lit ''Amount must be greater than zero''))
       else Inr addr)"

definition validate_recipient_count :: "usize \<Rightarrow> bool \<Rightarrow> wallet_error + unit" where
  "validate_recipient_count count send_all =
     (if count = 0 then Inl (wallet (lit ''At least one recipient is required''))
      else if send_all \<and> count \<noteq> 1 then
        Inl (wallet (lit ''A send-all pays exactly one recipient''))
      else Inr ())"

text \<open>
  Exactly when a payee is accepted, and which error is reported first
  otherwise: the address parses, it is on the network of the send, and the amount is not
  zero unless it is a send-all.
\<close>

theorem validate_recipient_accepts:
  "(validate_recipient L net address amount send_all = Inr addr \<longleftrightarrow>
      from_base58 L address = Inr addr \<and> addr_network L addr = net \<and> (amount \<noteq> 0 \<or> send_all)) \<and>
   (\<forall>e. from_base58 L address = Inl e \<longrightarrow>
      validate_recipient L net address amount send_all = Inl (InvalidAddress e)) \<and>
   (\<forall>a. from_base58 L address = Inr a \<longrightarrow> addr_network L a \<noteq> net \<longrightarrow>
      (\<exists>d. validate_recipient L net address amount send_all = Inl (InvalidAddress d))) \<and>
   (\<forall>a. from_base58 L address = Inr a \<longrightarrow> addr_network L a = net \<longrightarrow> amount = 0 \<longrightarrow> \<not> send_all \<longrightarrow>
      validate_recipient L net address amount send_all =
        Inl (Wallet (lit ''Amount must be greater than zero''))) \<and>
   (validate_recipient_count count send_all = Inr () \<longleftrightarrow> (if send_all then count = 1 else count \<noteq> 0))"
  by (cases "from_base58 L address")
     (auto simp: validate_recipient_def validate_recipient_count_def)

text \<open>An address library in which an address is its network and its text.\<close>

definition example_address_lib :: "(Lib_Network \<times> rstring) address_lib" where
  "example_address_lib =
     \<lparr>from_base58 = (\<lambda>t. if t = [] then Inl (lit ''empty'') else Inr (Lib_MainNet, t)),
      addr_network = fst, to_base58 = snd, to_emoji_string = snd,
      network_text = (\<lambda>_. lit ''net'')\<rparr>"

theorem validate_recipient_accepts_witness:
  "validate_recipient example_address_lib Lib_MainNet (lit ''a'') 1 False = Inr (Lib_MainNet, lit ''a'') \<and>
   validate_recipient example_address_lib Lib_MainNet [] 1 False = Inl (InvalidAddress (lit ''empty'')) \<and>
   (\<exists>d. validate_recipient example_address_lib Lib_Igor (lit ''a'') 1 False = Inl (InvalidAddress d)) \<and>
   validate_recipient example_address_lib Lib_MainNet (lit ''a'') 0 False =
     Inl (Wallet (lit ''Amount must be greater than zero''))"
  using validate_recipient_accepts [of example_address_lib Lib_MainNet "lit ''a''" 1 False "(Lib_MainNet, lit ''a'')" 1]
    validate_recipient_accepts [of example_address_lib Lib_MainNet "[]" 1 False "(Lib_MainNet, [])" 1]
    validate_recipient_accepts [of example_address_lib Lib_Igor "lit ''a''" 1 False "(Lib_MainNet, lit ''a'')" 1]
    validate_recipient_accepts [of example_address_lib Lib_MainNet "lit ''a''" 0 False "(Lib_MainNet, lit ''a'')" 1]
  by (simp add: example_address_lib_def)

end
