(* ===== verification/Transactions.thy ===== *)
theory Transactions
  imports Session_Laws Utils Validation
begin

text \<open>
  Transactions and balances as Dart sees them (\<open>src/api/transactions.rs\<close>,
  \<open>src/api/balance.rs\<close>): minotari's values, the DTOs they become, and the two queries.
\<close>

section \<open>minotari's values\<close>

text \<open>
  The fields the code reads. \<open>'i\<close> is a transaction id, \<open>'h\<close> a payment reference's hash and
  \<open>'t\<close> a timestamp; \<open>ledger_lib\<close> has their texts and the two queries.
\<close>

datatype Lib_Direction = Lib_Incoming | Lib_Outgoing

datatype Lib_Source = Lib_Transfer | Lib_Coinbase | Lib_OneSided | Lib_Unknown

datatype Lib_Status =
  Lib_Pending | Lib_Unconfirmed | Lib_Confirmed | Lib_Cancelled | Lib_Reorganized | Lib_Rejected
  | Lib_Locked

record 't BlockchainInfo =
  bi_block_height :: u64
  bi_timestamp :: 't
  bi_confirmations :: u64

record ('i, 'h, 't, 'addr) DisplayedTransaction =
  dt_id :: 'i
  dt_direction :: Lib_Direction
  dt_source :: Lib_Source
  dt_status :: Lib_Status
  dt_amount :: u64
  dt_message :: "rstring option"
  dt_counterparty :: "'addr option"
  dt_blockchain :: "'t BlockchainInfo"
  dt_fee :: "u64 option"
  dt_sent_payrefs :: "'h list"

record AccountBalance =
  ab_total :: u64
  ab_unconfirmed :: u64
  ab_locked :: u64
  ab_available :: u64

record ('w, 'c, 'a) accounts_lib =
  get_accounts :: "'c \<Rightarrow> rstring option \<Rightarrow> 'w \<Rightarrow> rstring + 'a list"
  account_id :: "'a \<Rightarrow> i64"
  friendly_name :: "'a \<Rightarrow> rstring"

record ('w, 'c, 'a, 'i, 'h, 't, 'addr) ledger_lib = "('w, 'c, 'a) accounts_lib" +
  get_displayed_transactions_paginated ::
    "'c \<Rightarrow> i64 \<Rightarrow> i64 \<Rightarrow> i64 \<Rightarrow> 'w \<Rightarrow> rstring + ('i, 'h, 't, 'addr) DisplayedTransaction list"
  get_wallet_balance :: "'c \<Rightarrow> i64 \<Rightarrow> 'w \<Rightarrow> rstring + AccountBalance"
  tx_id_string :: "'i \<Rightarrow> rstring"
  hash_string :: "'h \<Rightarrow> rstring"
  format_timestamp :: "'t \<Rightarrow> rstring"

section \<open>The DTOs\<close>

record FeeInfoDto =
  fee_amount :: u64
  fee_amount_display :: rstring

definition fee_info_from :: "u64 \<Rightarrow> FeeInfoDto" where
  "fee_info_from f = \<lparr>fee_amount = f, fee_amount_display = format_micro_tari f\<rparr>"

record BlockchainInfoDto =
  block_height :: u64
  block_timestamp :: rstring
  confirmations :: u64

definition blockchain_info_from ::
  "('w, 'c, 'a, 'i, 'h, 't, 'addr, 'l) ledger_lib_scheme \<Rightarrow> 't BlockchainInfo \<Rightarrow> BlockchainInfoDto" where
  "blockchain_info_from L i =
     \<lparr>block_height = bi_block_height i, block_timestamp = format_timestamp L (bi_timestamp i),
      confirmations = bi_confirmations i\<rparr>"

record CounterpartyInfoDto =
  cp_address :: rstring
  cp_address_emoji :: rstring

definition counterparty_from :: "('addr, 'l) address_lib_scheme \<Rightarrow> 'addr \<Rightarrow> CounterpartyInfoDto" where
  "counterparty_from A addr =
     \<lparr>cp_address = to_base58 A addr, cp_address_emoji = to_emoji_string A addr\<rparr>"

datatype DisplayedTransactionDirection = Incoming | Outgoing

fun direction_from :: "Lib_Direction \<Rightarrow> DisplayedTransactionDirection" where
  "direction_from Lib_Incoming = Incoming"
| "direction_from Lib_Outgoing = Outgoing"

datatype DisplayedTransactionSource = Transfer | Coinbase | OneSided | Unknown

fun source_from :: "Lib_Source \<Rightarrow> DisplayedTransactionSource" where
  "source_from Lib_Transfer = Transfer"
| "source_from Lib_Coinbase = Coinbase"
| "source_from Lib_OneSided = OneSided"
| "source_from Lib_Unknown = Unknown"

datatype DisplayedTransactionStatus =
  Pending | Unconfirmed | Confirmed | Tx_Cancelled | Reorganized | Rejected | Tx_Locked

fun status_from :: "Lib_Status \<Rightarrow> DisplayedTransactionStatus" where
  "status_from Lib_Pending = Pending"
| "status_from Lib_Unconfirmed = Unconfirmed"
| "status_from Lib_Confirmed = Confirmed"
| "status_from Lib_Cancelled = Tx_Cancelled"
| "status_from Lib_Reorganized = Reorganized"
| "status_from Lib_Rejected = Rejected"
| "status_from Lib_Locked = Tx_Locked"

record DisplayedTransactionDto =
  tx_id :: rstring
  tx_direction :: DisplayedTransactionDirection
  tx_source :: DisplayedTransactionSource
  tx_status :: DisplayedTransactionStatus
  tx_amount :: u64
  tx_amount_display :: rstring
  tx_message :: "rstring option"
  tx_counterparty :: "CounterpartyInfoDto option"
  tx_blockchain :: BlockchainInfoDto
  tx_fee :: "FeeInfoDto option"
  tx_payrefs :: "rstring list"

definition displayed_transaction_from ::
  "('addr, 'm) address_lib_scheme \<Rightarrow> ('w, 'c, 'a, 'i, 'h, 't, 'addr, 'l) ledger_lib_scheme \<Rightarrow>
     ('i, 'h, 't, 'addr) DisplayedTransaction \<Rightarrow> DisplayedTransactionDto" where
  "displayed_transaction_from A L t =
     \<lparr>tx_id = tx_id_string L (dt_id t),
      tx_direction = direction_from (dt_direction t),
      tx_source = source_from (dt_source t),
      tx_status = status_from (dt_status t),
      tx_amount = dt_amount t,
      tx_amount_display = format_micro_tari (dt_amount t),
      tx_message = dt_message t,
      tx_counterparty = map_option (counterparty_from A) (dt_counterparty t),
      tx_blockchain = blockchain_info_from L (dt_blockchain t),
      tx_fee = map_option fee_info_from (dt_fee t),
      tx_payrefs = map (hash_string L) (dt_sent_payrefs t)\<rparr>"

record AccountBalanceDto =
  bal_total :: u64
  bal_unconfirmed :: u64
  bal_locked :: u64
  bal_available :: u64

definition account_balance_from :: "AccountBalance \<Rightarrow> AccountBalanceDto" where
  "account_balance_from b =
     \<lparr>bal_total = ab_total b, bal_unconfirmed = ab_unconfirmed b, bal_locked = ab_locked b,
      bal_available = ab_available b\<rparr>"

section \<open>The queries\<close>

definition read_world :: "('w \<Rightarrow> rstring + 'r) \<Rightarrow> ('w, 'p, 'r) bridge_api" where
  "read_world f s = (map_err Upstream (f (world s)), s)"

definition first_account ::
  "('w, 'c, 'a, 'l) accounts_lib_scheme \<Rightarrow> 'c \<Rightarrow> rstring \<Rightarrow> ('w, 'p, 'a) bridge_api" where
  "first_account L conn wallet_name =
     and_then (read_world (get_accounts L conn (Some wallet_name))) (\<lambda>accounts.
       lift_res (ok_or (Wallet_Err NoAccounts)
         (case accounts of [] \<Rightarrow> None | account # _ \<Rightarrow> Some account)))"

definition get_transactions ::
  "('addr, 'k) address_lib_scheme \<Rightarrow> ('w, 'c, 'a, 'i, 'h, 't, 'addr, 'l) ledger_lib_scheme \<Rightarrow>
     ('w, 'p, 'c, 'a, 'm) minotari_scheme \<Rightarrow> rstring \<Rightarrow> i64 \<Rightarrow> i64 \<Rightarrow>
     ('w, 'p, DisplayedTransactionDto list) bridge_api" where
  "get_transactions A L M wallet_name limit offset =
     and_then (get_db_connection M) (\<lambda>conn.
     and_then (first_account L conn wallet_name) (\<lambda>account.
     and_then (read_world (get_displayed_transactions_paginated L conn (account_id L account) limit offset))
       (\<lambda>transactions. ret (map (displayed_transaction_from A L) transactions))))"

definition get_balance ::
  "('w, 'c, 'a, 'i, 'h, 't, 'addr, 'l) ledger_lib_scheme \<Rightarrow>
     ('w, 'p, 'c, 'a, 'm) minotari_scheme \<Rightarrow> rstring \<Rightarrow> ('w, 'p, AccountBalanceDto) bridge_api" where
  "get_balance L M wallet_name =
     and_then (get_db_connection M) (\<lambda>conn.
     and_then (first_account L conn wallet_name) (\<lambda>account.
     and_then (read_world (get_wallet_balance L conn (account_id L account))) (\<lambda>agg_result.
     ret (account_balance_from agg_result))))"

section \<open>Results\<close>

lemma read_world_eval [proc_simps]: "read_world f s = (map_err Upstream (f (world s)), s)"
  by (simp add: read_world_def)

lemma world_only_read_world [world_only_intros]: "world_only (read_world f)"
  by (simp add: world_only_def read_world_def)

lemma world_only_first_account [world_only_intros]: "world_only (first_account L conn w)"
  unfolding first_account_def by (intro world_only_intros)

lemma queries_world_only [world_only_intros]:
  "world_only (get_transactions A L M w l i)" "world_only (get_balance L M w)"
  unfolding get_transactions_def get_balance_def by (intro world_only_intros)+

lemma first_account_Ok:
  assumes "first_account L conn w s = (Inr account, t)"
  shows "t = s \<and> (\<exists>rest. get_accounts L conn (Some w) (world s) = Inr (account # rest))"
  using assms
  by (auto simp: first_account_def proc_simps map_err_def split: sum.splits list.splits)

text \<open>
  A page of transactions is minotari's page of the wallet's first account, in
  its order and with none dropped or added; in each, the amount and the fee shown as text
  are the amounts in microTari, and message, status, counterparty and payment references
  are passed through. The call changes nothing of the bridge's state.
\<close>

theorem get_transactions_page:
  assumes "get_transactions A L M w limit offset s = (Inr page, t)"
  shows "\<exists>conn account rest txs.
     get_accounts L conn (Some w) (world t) = Inr (account # rest) \<and>
     get_displayed_transactions_paginated L conn (account_id L account) limit offset (world t) = Inr txs \<and>
     length page = length txs \<and> same_globals s t \<and>
     (\<forall>i < length txs.
        tx_amount (page ! i) = dt_amount (txs ! i) \<and>
        parse_base 10 (filter is_digit (tx_amount_display (page ! i))) = unat (dt_amount (txs ! i)) \<and>
        map_option fee_amount (tx_fee (page ! i)) = dt_fee (txs ! i) \<and>
        (\<forall>f. tx_fee (page ! i) = Some f \<longrightarrow>
           parse_base 10 (filter is_digit (fee_amount_display f)) = unat (fee_amount f)) \<and>
        tx_status (page ! i) = status_from (dt_status (txs ! i)) \<and>
        tx_message (page ! i) = dt_message (txs ! i) \<and>
        tx_payrefs (page ! i) = map (hash_string L) (dt_sent_payrefs (txs ! i)))"
proof -
  have "same_globals s t" by (rule world_onlyD [OF queries_world_only(1) assms])
  obtain conn account s1 txs where run: "get_db_connection M s = (Inr conn, s1)"
      "first_account L conn w s1 = (Inr account, t)"
      "get_displayed_transactions_paginated L conn (account_id L account) limit offset (world t) = Inr txs"
      "page = map (displayed_transaction_from A L) txs"
    using assms unfolding get_transactions_def
    by (elim and_then_OkE) (auto simp: proc_simps dest!: map_err_eq_InrE)
  moreover have "t = s1" "\<exists>rest. get_accounts L conn (Some w) (world t) = Inr (account # rest)"
    using first_account_Ok [OF run(2)] by auto
  moreover have digits: "parse_base 10 (filter is_digit (format_micro_tari m)) = unat m" for m
    by (rule format_micro_tari_digits)
  moreover have "map_option fee_amount (map_option fee_info_from f) = f" for f
    by (cases f) (simp_all add: fee_info_from_def)
  ultimately show ?thesis
    using \<open>same_globals s t\<close>
    by (auto simp: displayed_transaction_from_def fee_info_from_def option.map_comp intro!: exI [of _ conn] exI [of _ account])
qed

text \<open>A ledger with one account and one transaction.\<close>

definition example_ledger ::
  "(rstring set, unit, unit, unit, unit, unit, Lib_Network \<times> rstring) ledger_lib" where
  "example_ledger =
     \<lparr>get_accounts = (\<lambda>_ _ _. Inr [()]), account_id = (\<lambda>_. 1), friendly_name = (\<lambda>_. lit ''w''),
      get_displayed_transactions_paginated = (\<lambda>_ _ _ _ _. Inr
        [\<lparr>dt_id = (), dt_direction = Lib_Incoming, dt_source = Lib_Transfer, dt_status = Lib_Confirmed,
          dt_amount = 1234567890, dt_message = None, dt_counterparty = None,
          dt_blockchain = \<lparr>bi_block_height = 7, bi_timestamp = (), bi_confirmations = 1\<rparr>,
          dt_fee = Some 5, dt_sent_payrefs = []\<rparr>]),
      get_wallet_balance = (\<lambda>_ _ _. Inl []), tx_id_string = (\<lambda>_. lit ''1''),
      hash_string = (\<lambda>_. []), format_timestamp = (\<lambda>_. [])\<rparr>"

definition example_pathed :: "(rstring set, unit) bridge" where
  "example_pathed = upd_db (\<lambda>d. d\<lparr>db_path := Some (lit ''db'')\<rparr>) example_start"

lemma example_pathed_connection:
  "get_db_connection example_minotari example_pathed = (Inr (), example_pathed)"
  by (simp add: get_db_connection_def get_db_pool_def init_pool_def get_conn_def on_world_def
      example_pathed_def upd_db_def init_bridge_def init_DbState_def proc_simps)

theorem get_transactions_page_witness:
  "\<exists>page conn account rest txs.
     get_transactions example_address_lib example_ledger example_minotari (lit ''w'') 10 0 example_pathed =
       (Inr page, example_pathed) \<and>
     get_accounts example_ledger conn (Some (lit ''w'')) (world example_pathed) = Inr (account # rest) \<and>
     get_displayed_transactions_paginated example_ledger conn (account_id example_ledger account) 10 0
       (world example_pathed) = Inr txs \<and>
     length page = length txs \<and> length page = 1"
proof -
  obtain page where run: "get_transactions example_address_lib example_ledger example_minotari
      (lit ''w'') 10 0 example_pathed = (Inr page, example_pathed)" "length page = 1"
    by (simp add: get_transactions_def first_account_def proc_simps example_pathed_connection
        example_ledger_def)
  from get_transactions_page [OF run(1)] run show ?thesis by blast
qed

end
