(* ===== verification/Signing.thy ===== *)
theory Signing
  imports Transactions
begin

text \<open>
  Signing and verifying messages (\<open>src/api/signing.rs\<close>). minotari's \<open>SigningError\<close>, with the
  text its \<open>Display\<close> gives, and its two functions are parameters of the definitions.
  Signing draws a random nonce, so it also gives the world it leaves.
\<close>

datatype SigningError =
    SE_InvalidAddress rstring
  | SE_InvalidSeedWords rstring
  | SE_Db wallet_db_error
  | SE_KeyManager rstring
  | SE_ViewOnlyWallet rstring
  | SE_MalformedSignature rstring
  | SE_InvalidSignatureComponent rstring
  | SE_InvalidPublicNonce rstring

text \<open>\<open>map_signing_error\<close>; the last four carry the text of their \<open>Display\<close>.\<close>

fun map_signing_error :: "SigningError \<Rightarrow> wallet_error" where
  "map_signing_error (SE_InvalidAddress details) = invalid_address details"
| "map_signing_error (SE_InvalidSeedWords details) = invalid_seed_words details"
| "map_signing_error (SE_Db e) =
     (case db_kind e of
        DbDecryptionFailed \<Rightarrow> InvalidPassphrase
      | DbNotUnlocked \<Rightarrow> Locked
      | _ \<Rightarrow> database (db_text e))"
| "map_signing_error (SE_KeyManager details) = signing details"
| "map_signing_error (SE_ViewOnlyWallet t) = signing t"
| "map_signing_error (SE_MalformedSignature t) = signing t"
| "map_signing_error (SE_InvalidSignatureComponent t) = signing t"
| "map_signing_error (SE_InvalidPublicNonce t) = signing t"

definition verify_message ::
  "('addr, 'k) address_lib_scheme \<Rightarrow> ('addr \<Rightarrow> rstring \<Rightarrow> rstring \<Rightarrow> SigningError + bool) \<Rightarrow>
     rstring \<Rightarrow> rstring \<Rightarrow> rstring \<Rightarrow> api_error + bool" where
  "verify_message A lib_verify message signature address =
     res_then (map_err (\<lambda>e. Wallet_Err (invalid_address e)) (from_base58 A address)) (\<lambda>addr.
       map_err (\<lambda>e. Wallet_Err (map_signing_error e)) (lib_verify addr message signature))"

definition sign_message ::
  "('w, 'p, 'c, 'a, 'm) minotari_scheme \<Rightarrow> ('a \<Rightarrow> rstring \<Rightarrow> 'w \<Rightarrow> (SigningError + rstring) \<times> 'w) \<Rightarrow>
     rstring \<Rightarrow> rstring \<Rightarrow> ('w, 'p, rstring) bridge_api" where
  "sign_message M sign_message_unlocked wallet_name message =
     and_then (get_db_connection M) (\<lambda>conn.
     and_then (unlocked_account M conn wallet_name) (\<lambda>account.
       map_err_proc (\<lambda>e. Wallet_Err (map_signing_error e))
         (on_world (sign_message_unlocked account message))))"

section \<open>Result\<close>

lemma unlocked_account_Ok:
  assumes "session_laws M has" "unlocked_account M conn w s = (Inr account, t)"
  shows "t = s \<and> has (world s) w \<and> get_account_by_name M conn w (world s) = Inr (Some account)"
  using assms(2) laws_is_unlocked [OF assms(1)]
  by (auto simp: unlocked_account_def is_unlocked_def proc_simps map_err_def
      split: sum.splits option.splits if_splits)

text \<open>
  A message is signed only with an open key session, with the account the
  wallet's name names, and the signature is minotari's. When the session is gone during the
  call the error is \<open>Wallet is locked\<close>, not a decryption failure of the empty passphrase.
\<close>

theorem sign_needs_session:
  assumes "session_laws M has" and "sign_message M lib_sign w message s = (r, t)"
  shows "(\<forall>signature. r = Inr signature \<longrightarrow>
      (\<exists>account conn wd. has wd w \<and> get_account_by_name M conn w wd = Inr (Some account) \<and>
        lib_sign account message wd = (Inr signature, world t))) \<and>
    (\<forall>account conn s' e. get_db_connection M s = (Inr conn, s') \<longrightarrow>
      unlocked_account M conn w s' = (Inr account, s') \<longrightarrow>
      fst (lib_sign account message (world s')) = Inl (SE_Db e) \<longrightarrow> db_kind e = DbNotUnlocked \<longrightarrow>
      r = Inl (Wallet_Err Locked))"
proof (intro conjI allI impI)
  fix signature
  assume "r = Inr signature"
  with assms(2) obtain conn s1 account s2 where
    run: "get_db_connection M s = (Inr conn, s1)" "unlocked_account M conn w s1 = (Inr account, s2)"
      "map_err_proc (\<lambda>e. Wallet_Err (map_signing_error e)) (on_world (lib_sign account message)) s2 =
        (Inr signature, t)"
    unfolding sign_message_def by (auto elim!: and_then_OkE)
  from run(3) have "lib_sign account message (world s2) = (Inr signature, world t)"
    by (auto simp: map_err_proc_Ok on_world_def split: prod.splits)
  with unlocked_account_Ok [OF assms(1) run(2)]
  show "\<exists>account conn wd. has wd w \<and> get_account_by_name M conn w wd = Inr (Some account) \<and>
      lib_sign account message wd = (Inr signature, world t)"
    by blast
next
  fix account conn s' e
  assume "get_db_connection M s = (Inr conn, s')" "unlocked_account M conn w s' = (Inr account, s')"
    "fst (lib_sign account message (world s')) = Inl (SE_Db e)" "db_kind e = DbNotUnlocked"
  with assms(2) show "r = Inl (Wallet_Err Locked)"
    by (auto simp: sign_message_def proc_simps on_world_def split: prod.splits)
qed

theorem sign_needs_session_witness:
  "sign_message example_minotari (\<lambda>_ m wd. (Inr m, wd)) (lit ''w'') (lit ''hi'') example_unlocked =
      (Inr (lit ''hi''), example_unlocked) \<and> lit ''w'' \<in> world example_unlocked"
proof -
  have run: "sign_message example_minotari (\<lambda>_ m wd. (Inr m, wd)) (lit ''w'') (lit ''hi'') example_unlocked =
      (Inr (lit ''hi''), example_unlocked)"
    by (simp add: sign_message_def get_db_connection_def get_db_pool_def get_conn_def unlocked_account_def
        is_unlocked_def example_unlocked_def init_bridge_def on_world_def proc_simps)
  with sign_needs_session [OF example_session_laws run] show ?thesis by (simp add: example_unlocked_def init_bridge_def)
qed

end
