(* ===== verification/Scan_Keys.thy ===== *)
theory Scan_Keys
  imports Signing Scan_Interleaving "HOL-Library.Multiset"
begin

text \<open>
  Key sessions and scans together (\<open>src/api/db.rs\<close> and \<open>src/api/scanner.rs\<close>). A scan reads keys
  through its wallet's session, which any other call may close. The system is that of
  \<open>Scan_Interleaving\<close>, with the check of the session that a run does before it takes its slot, and
  with the calls that open and close sessions. Closing has two parts that other steps can fall
  between: the session goes, then the wallet's scans are cancelled.
\<close>

section \<open>The steps\<close>

text \<open>
  \<open>checked\<close> are the runs whose \<open>unlocked_account\<close> succeeded, \<open>closing\<close> the wallets of calls that
  closed a session and have not cancelled the scans yet.
\<close>

record ('w, 'p) key_system =
  scans :: "('w, 'p) scan_system"
  checked :: "nat set"
  closing :: "rstring multiset"

abbreviation bridge_of :: "('w, 'p) key_system \<Rightarrow> ('w, 'p) bridge" where
  "bridge_of x \<equiv> sglob (scans x)"

abbreviation runs_of :: "('w, 'p) key_system \<Rightarrow> all_runs" where
  "runs_of x \<equiv> sruns (scans x)"

definition with_bridge :: "('w, 'p) bridge \<Rightarrow> ('w, 'p) key_system \<Rightarrow> ('w, 'p) key_system" where
  "with_bridge s x = x\<lparr>scans := (scans x)\<lparr>sglob := s\<rparr>\<rparr>"

text \<open>The two parts of \<open>lock_and_cancel\<close>: this one, then \<open>cancel_wallet_scans\<close>.\<close>

definition close_session ::
  "('w, 'p, 'c, 'a, 'm) minotari_scheme \<Rightarrow> rstring \<Rightarrow> ('w, 'p) bridge \<Rightarrow> ('w, 'p) bridge" where
  "close_session M w s = s\<lparr>world := session_lock M w (world s)\<rparr>"

lemma lock_and_cancel_parts:
  "lock_and_cancel M w s = and_then (cancel_wallet_scans w) (\<lambda>_. ret True) (close_session M w s)"
  by (simp add: lock_and_cancel_def close_session_def proc_simps)

text \<open>
  A step of the scans leaves the sessions alone, and only a checked run goes on to its slot;
  \<open>dropped\<close> is a delete or rename, which can drop the session in minotari before its second
  \<open>lock_wallet_everywhere\<close> cancels the scans.
\<close>

inductive key_step ::
  "('w, 'p, 'c, 'a, 'm) minotari_scheme \<Rightarrow> ('w \<Rightarrow> rstring \<Rightarrow> bool) \<Rightarrow>
     ('w, 'p) key_system \<Rightarrow> ('w, 'p) key_system \<Rightarrow> bool" for M has where
  scan: "scan_step (scans x) y \<Longrightarrow> has (world (sglob y)) = has (world (bridge_of x)) \<Longrightarrow>
    \<not> scan_poisoned (sglob y) \<Longrightarrow>
    (\<forall>r run run'. runs_of x r = Some run \<longrightarrow> run_phase run = Starting \<longrightarrow> sruns y r = Some run' \<longrightarrow>
       run_phase run' = Entering \<longrightarrow> r \<in> checked x) \<Longrightarrow>
    key_step M has x (x\<lparr>scans := y\<rparr>)"
| check: "runs_of x r = Some run \<Longrightarrow> run_phase run = Starting \<Longrightarrow>
    unlocked_account M conn (run_wallet run) (bridge_of x) = (Inr account, s) \<Longrightarrow>
    key_step M has x (with_bridge s (x\<lparr>checked := insert r (checked x)\<rparr>))"
| opened: "unlock_session M conn w pw (bridge_of x) = (res, s) \<Longrightarrow> key_step M has x (with_bridge s x)"
| close: "key_step M has x (with_bridge (close_session M w (bridge_of x)) (x\<lparr>closing := add_mset w (closing x)\<rparr>))"
| dropped: "(\<forall>v. v \<noteq> w \<longrightarrow> has wd v = has (world (bridge_of x)) v) \<Longrightarrow>
    key_step M has x (with_bridge ((bridge_of x)\<lparr>world := wd\<rparr>) (x\<lparr>closing := add_mset w (closing x)\<rparr>))"
| cancel: "w \<in># closing x \<Longrightarrow> cancel_wallet_scans w (bridge_of x) = (res, s) \<Longrightarrow>
    key_step M has x (with_bridge s (x\<lparr>closing := closing x - {#w#}\<rparr>))"

definition key_start :: "'w \<Rightarrow> ('w, 'p) key_system" where
  "key_start wd = \<lparr>scans = scan_start wd, checked = {}, closing = {#}\<rparr>"

section \<open>What a step of the scans does to a run\<close>

definition waiting :: "ScanState \<Rightarrow> scan_run \<Rightarrow> bool" where
  "waiting st run \<longleftrightarrow> fmlookup (starting st) (run_sid run) \<noteq> None"

text \<open>A scan that is neither in its slot nor cancelled is not live.\<close>

definition cancelled_or_current :: "('w, 'p) scan_system \<Rightarrow> bool" where
  "cancelled_or_current y \<longleftrightarrow> (\<forall>r run. sruns y r = Some run \<longrightarrow> is_live (run_phase run) \<longrightarrow>
     fmlookup (running (SCAN_STATE (sglob y))) (run_wallet run) = Some (controller_of r run) \<or>
     Token r \<in> cells (sglob y))"

text \<open>The wallet a starting scan is recorded for is its own.\<close>

definition own_starting :: "('w, 'p) scan_system \<Rightarrow> bool" where
  "own_starting y \<longleftrightarrow> (\<forall>r run v. sruns y r = Some run \<longrightarrow>
     fmlookup (starting (SCAN_STATE (sglob y))) (run_sid run) = Some v \<longrightarrow> v = run_wallet run)"

text \<open>
  What the keys need of a step: cancelled stays cancelled, and where a run after the step was
  before it.
\<close>

definition run_before :: "('w, 'p) scan_system \<Rightarrow> ('w, 'p) scan_system \<Rightarrow> nat \<Rightarrow> scan_run \<Rightarrow> bool" where
  "run_before y z r run' \<longleftrightarrow>
     (sruns y r = None \<and> run_phase run' = Starting) \<or>
     (\<exists>run. sruns y r = Some run \<and> run_wallet run' = run_wallet run \<and> run_sid run' = run_sid run \<and>
        (waiting (SCAN_STATE (sglob z)) run' \<longrightarrow> waiting (SCAN_STATE (sglob y)) run) \<and>
        (run_phase run' = Starting \<longrightarrow> run_phase run = Starting) \<and>
        (run_phase run' = Entering \<longrightarrow> run_phase run = Starting \<or> run_phase run = Entering) \<and>
        (is_live (run_phase run') \<longrightarrow> is_live (run_phase run) \<or>
           (run_phase run = Entering \<and> waiting (SCAN_STATE (sglob y)) run)))"

definition good_step :: "('w, 'p) scan_system \<Rightarrow> ('w, 'p) scan_system \<Rightarrow> bool" where
  "good_step y z \<longleftrightarrow> cells (sglob y) \<subseteq> cells (sglob z) \<and>
     (\<forall>r run'. sruns z r = Some run' \<longrightarrow> run_before y z r run') \<and>
     (\<forall>r. sruns y r \<noteq> None \<longrightarrow> sruns z r \<noteq> None) \<and>
     (cancelled_or_current y \<longrightarrow> cancelled_or_current z) \<and> (own_starting y \<longrightarrow> own_starting z)"

text \<open>A step that moves no run.\<close>

lemma good_glob:
  assumes "cells (sglob y) \<subseteq> cells s" "running (SCAN_STATE s) = running (SCAN_STATE (sglob y))"
    and "\<And>i v. fmlookup (starting (SCAN_STATE s)) i = Some v \<Longrightarrow>
      fmlookup (starting (SCAN_STATE (sglob y))) i = Some v"
  shows "good_step y (y\<lparr>sglob := s, maint := m\<rparr>)"
  using assms unfolding good_step_def run_before_def waiting_def cancelled_or_current_def own_starting_def
  by (auto simp: subset_iff) blast

text \<open>A step that moves one run, to a phase in which it does not come alive.\<close>

lemma good_move:
  assumes run: "sruns y r = Some run" and p: "p \<noteq> Starting"
    "p = Entering \<Longrightarrow> run_phase run = Starting" "is_live p \<Longrightarrow> is_live (run_phase run)"
    and cells: "cells (sglob y) \<subseteq> cells s"
    and starts: "\<And>i v. fmlookup (starting (SCAN_STATE s)) i = Some v \<Longrightarrow>
      fmlookup (starting (SCAN_STATE (sglob y))) i = Some v"
    and slots: "\<And>q other. sruns y q = Some other \<Longrightarrow> q \<noteq> r \<or> is_live p \<Longrightarrow>
      fmlookup (running (SCAN_STATE (sglob y))) (run_wallet other) = Some (controller_of q other) \<Longrightarrow>
      fmlookup (running (SCAN_STATE s)) (run_wallet other) = Some (controller_of q other) \<or> Token q \<in> cells s"
  shows "good_step y (move r p s y)"
  unfolding good_step_def
proof (intro conjI allI impI)
  show "cells (sglob y) \<subseteq> cells (sglob (move r p s y))" using cells by simp
  fix q
  show "sruns (move r p s y) q \<noteq> None" if "sruns y q \<noteq> None"
    using that by (cases "q = r") (auto simp: at_phase_def)
next
  fix q run'
  assume "sruns (move r p s y) q = Some run'"
  then show "run_before y (move r p s y) q run'"
    using run p starts by (auto simp: run_before_def waiting_def elim!: at_phaseE)
next
  assume old: "cancelled_or_current y"
  show "cancelled_or_current (move r p s y)"
    unfolding cancelled_or_current_def
  proof (intro allI impI)
    fix q run' assume q: "sruns (move r p s y) q = Some run'" "is_live (run_phase run')"
    then have "sruns y q = Some run' \<and> q \<noteq> r \<or> (\<exists>other. q = r \<and> sruns y q = Some other \<and>
        run' = other\<lparr>run_phase := p\<rparr> \<and> is_live p)"
      by (auto elim!: at_phaseE)
    then obtain other where other: "sruns y q = Some other" "q \<noteq> r \<or> is_live p"
      "is_live (run_phase other)" "run_wallet run' = run_wallet other" "controller_of q run' = controller_of q other"
      using run p(3) q(2) by auto
    with old have "fmlookup (running (SCAN_STATE (sglob y))) (run_wallet other) = Some (controller_of q other) \<or>
        Token q \<in> cells (sglob y)"
      by (auto simp: cancelled_or_current_def)
    with slots [OF other(1,2)] cells other(4,5)
    show "fmlookup (running (SCAN_STATE (sglob (move r p s y)))) (run_wallet run') =
        Some (controller_of q run') \<or> Token q \<in> cells (sglob (move r p s y))"
      by auto
  qed
next
  assume "own_starting y"
  then show "own_starting (move r p s y)"
    using starts by (fastforce simp: own_starting_def elim!: at_phaseE)
qed

lemma live_not_fresh: "is_live p \<Longrightarrow> p \<noteq> Starting \<and> p \<noteq> Entering"
  by (cases p) auto

section \<open>The sections\<close>

lemma sections_starting:
  "create_scan_handle w s = (rh, t) \<Longrightarrow> starting (SCAN_STATE t) = starting (SCAN_STATE s)"
  "claim_handle h s = (rb, t) \<Longrightarrow> rb \<noteq> Inr False \<Longrightarrow> starting (SCAN_STATE t) = starting (SCAN_STATE s)"
  "claim_handle h s = (Inr False, t) \<Longrightarrow>
     starting (SCAN_STATE t) = fmupd (handle_id h) (handle_wallet h) (starting (SCAN_STATE s)) \<and>
     handle_id h \<in> issued (SCAN_STATE s)"
  by (auto simp: scan_sections proc_simps Let_def split: scan_splits)

lemma sections_starting_shrinks:
  "stop_scan_begin h s = (rc, t) \<Longrightarrow> fmlookup (starting (SCAN_STATE t)) i = Some v \<Longrightarrow>
     fmlookup (starting (SCAN_STATE s)) i = Some v"
  "cancel_wallet_scans w s = (rc, t) \<Longrightarrow> fmlookup (starting (SCAN_STATE t)) i = Some v \<Longrightarrow>
     fmlookup (starting (SCAN_STATE s)) i = Some v"
  "enter_slot j w c s = (ro, t) \<Longrightarrow> fmlookup (starting (SCAN_STATE t)) i = Some v \<Longrightarrow>
     fmlookup (starting (SCAN_STATE s)) i = Some v"
  "fmlookup (starting (SCAN_STATE (leave_starting j s))) i = Some v \<Longrightarrow>
     fmlookup (starting (SCAN_STATE s)) i = Some v"
  "starting (SCAN_STATE (clear_scan_if_current w j s)) = starting (SCAN_STATE s)"
  by (auto simp: scan_sections proc_simps Let_def split: scan_splits)

lemma enter_slot_effects:
  assumes "enter_slot i w c s = (Inr (Some v), t)"
  shows "fmlookup (starting (SCAN_STATE s)) i \<noteq> None" "running (SCAN_STATE t) = fmupd w c (running (SCAN_STATE s))"
    "cells s \<subseteq> cells t" "fmlookup (running (SCAN_STATE s)) w = Some old \<Longrightarrow> ctl_token old \<in> cells t"
  using assms by (auto simp: enter_slot_def take_slot_def proc_simps Let_def is_set_def split: scan_splits)

text \<open>Taking the slot needs the record among the starting scans, and cancels who was in it.\<close>

lemma good_enter:
  assumes run: "sruns y r = Some run" "run_phase run = Entering"
    and enter: "enter_slot (run_sid run) (run_wallet run) (controller_of r run) (sglob y) = (Inr (Some v), s)"
  shows "good_step y (move r (Replacing k v) (end_maintenance w s) (y\<lparr>turns := m\<rparr>))"
proof -
  let ?z = "move r (Replacing k v) (end_maintenance w s) (y\<lparr>turns := m\<rparr>)"
  note E = enter_slot_effects [OF enter] and starts = sections_starting_shrinks(3) [OF enter]
  have "run_before y ?z q run'" if "sruns ?z q = Some run'" for q run'
    using that run E(1) starts by (auto simp: run_before_def waiting_def elim!: at_phaseE)
  moreover have "cancelled_or_current ?z" if old: "cancelled_or_current y"
    unfolding cancelled_or_current_def
  proof (intro allI impI)
    fix q run' assume q: "sruns ?z q = Some run'" "is_live (run_phase run')"
    then show "fmlookup (running (SCAN_STATE (sglob ?z))) (run_wallet run') = Some (controller_of q run') \<or>
        Token q \<in> cells (sglob ?z)"
    proof (cases "q = r")
      case True
      from q(1) have "run' = run\<lparr>run_phase := Replacing k v\<rparr>"
        unfolding True move_frame by (rule at_phaseE) (use run in auto)
      then show ?thesis using E(2) True by simp
    next
      case False
      with q old have "fmlookup (running (SCAN_STATE (sglob y))) (run_wallet run') = Some (controller_of q run') \<or>
          Token q \<in> cells (sglob y)"
        by (auto simp: cancelled_or_current_def)
      then show ?thesis using E(2,3) E(4) [of "controller_of q run'"] by auto
    qed
  qed
  moreover have "own_starting ?z" if "own_starting y"
    using that starts by (fastforce simp: own_starting_def elim!: at_phaseE)
  moreover have "sruns ?z q \<noteq> None" if "sruns y q \<noteq> None" for q
    using that by (cases "q = r") (auto simp: at_phase_def)
  ultimately show ?thesis using E(3) unfolding good_step_def by simp
qed

text \<open>A new run has a handle no other run has.\<close>

lemma good_begin:
  assumes safe: "scans_safe n y" and new: "sruns y r = None"
    and claim: "claim_handle h ((sglob y)\<lparr>next_run := i\<rparr>) = (Inr False, s)"
  shows "good_step y (y\<lparr>sglob := s, sruns := (sruns y)(r \<mapsto>
    \<lparr>run_wallet = handle_wallet h, run_sid = handle_id h, run_priority = p, run_phase = Starting\<rparr>)\<rparr>)"
proof -
  let ?z = "y\<lparr>sglob := s, sruns := (sruns y)(r \<mapsto>
    \<lparr>run_wallet = handle_wallet h, run_sid = handle_id h, run_priority = p, run_phase = Starting\<rparr>)\<rparr>"
  note E = sections_starting(3) [OF claim] section_effects(2) [OF claim]
  have other: "run_sid run \<noteq> handle_id h" if "sruns y q = Some run" for q run
  proof -
    have "run_sid run \<notin> issued (SCAN_STATE (sglob y))"
      using that scans_safeD(1) [OF safe] unfolding handles_used_def spent_def by blast
    with E(1) show ?thesis by auto
  qed
  have starts: "fmlookup (starting (SCAN_STATE s)) (run_sid run) = fmlookup (starting (SCAN_STATE (sglob y))) (run_sid run)"
    if "sruns y q = Some run" for q run
    using other [OF that] E by simp
  have "run_before y ?z q run'" if "sruns ?z q = Some run'" for q run'
    using that new starts [of q run'] E by (auto simp: run_before_def waiting_def split: if_splits) metis
  moreover have "cancelled_or_current ?z" if "cancelled_or_current y"
    using that new E by (auto simp: cancelled_or_current_def)
  moreover have "own_starting ?z" if "own_starting y"
    using that new starts E by (auto simp: own_starting_def split: if_splits)
  ultimately show ?thesis using E unfolding good_step_def by auto
qed

lemma good_clear:
  assumes safe: "scans_safe n y" and run: "sruns y r = Some run" "run_phase run = Scanning k"
  shows "good_step y (move r (Ending (Some k))
    (clear_scan_if_current (run_wallet run) (run_sid run) (sglob y)) y)"
proof (rule good_move [OF run(1)])
  fix q other
  assume q: "sruns y q = Some other" "q \<noteq> r \<or> is_live (Ending (Some k))"
    "fmlookup (running (SCAN_STATE (sglob y))) (run_wallet other) = Some (controller_of q other)"
  then have "run_sid other \<noteq> run_sid run"
    using scans_safeD(1) [OF safe] run(1) unfolding handles_used_def by auto
  with q(3) show "fmlookup (running (SCAN_STATE (clear_scan_if_current (run_wallet run) (run_sid run) (sglob y))))
      (run_wallet other) = Some (controller_of q other) \<or>
      Token q \<in> cells (clear_scan_if_current (run_wallet run) (run_sid run) (sglob y))"
    by (auto simp: clear_scan_if_current_def split: option.splits)
qed (simp_all add: sections_stop_free(2) sections_starting_shrinks(5))

lemma good_scan_step:
  assumes "scan_step y z" "scans_safe n y"
  shows "good_step y z"
  using assms(1)
proof cases
  case (begin_run h s p)
  then show ?thesis using good_begin [OF assms(2)] by simp
next
  case (not_begun h rb s)
  then show ?thesis
    using good_glob [of y s "maint y"] sections_starting(2) [OF not_begun(2,3)] section_effects(2) [OF not_begun(2)]
    by simp
next
  case (give_up r run)
  then show ?thesis by (auto intro: good_move)
next
  case (lock r run)
  then show ?thesis by (auto intro!: good_move)
next
  case (refused r run res s)
  note E = enter_slot_refused [OF refused(4,5)] sections_starting_shrinks(3) [OF refused(4)]
  show ?thesis unfolding refused(1) by (rule good_move [OF refused(2)]) (use E in auto)
next
  case (enter r run previous s)
  then show ?thesis using good_enter by simp
next
  case (wait r run k previous)
  then show ?thesis by (auto intro!: good_move)
next
  case (clear r run k)
  then show ?thesis using good_clear [OF assms(2)] by simp
next
  case (lost r run k)
  then show ?thesis by (auto intro!: good_move)
next
  case (finish r run ko)
  show ?thesis unfolding finish(1)
    by (rule good_move [OF finish(2)]) (use sections_starting_shrinks(4) in \<open>auto simp: sections_stop_free(4,5)\<close>)
next
  case (create w rh s)
  then show ?thesis
    using good_glob [of y s "maint y"] sections_starting(1) [OF create(2)] section_effects(1) [OF create(2)] by simp
next
  case (stop h rc s)
  then show ?thesis
    using good_glob [of y s "maint y"] sections_starting_shrinks(1) [OF stop(2)] section_effects(3) [OF stop(2)] by simp
next
  case (cancel w rc s)
  then show ?thesis
    using good_glob [of y s "maint y"] sections_starting_shrinks(2) [OF cancel(2)] section_effects(4) [OF cancel(2)] by simp
next
  case poison
  then show ?thesis using good_glob [of y "(sglob y)\<lparr>scan_poisoned := True\<rparr>" "maint y"] by simp
next
  case (maintain w)
  then show ?thesis
    using good_glob [of y "(sglob y)\<lparr>MAINT_HELD := insert w (MAINT_HELD (sglob y))\<rparr>"] by simp
next
  case (stop_all w stopped s)
  then show ?thesis
    using good_glob [of y s] sections_starting_shrinks(2) [OF stop_all(3)] section_effects(4) [OF stop_all(3)] by simp
next
  case (stopped w c)
  then show ?thesis using good_glob [of y "sglob y"] by simp
next
  case (release w m)
  then show ?thesis using good_glob [of y "end_maintenance w (sglob y)"] by simp
next
  case (outside s)
  then show ?thesis using good_glob [of y s "maint y"] by simp
qed

section \<open>The invariant\<close>

text \<open>
  The wallet has a session, or the call that closed it is still to cancel the scans; a run that
  has passed its check and is recorded as starting goes on to its slot.
\<close>

definition keyed :: "('w \<Rightarrow> rstring \<Rightarrow> bool) \<Rightarrow> ('w, 'p) key_system \<Rightarrow> rstring \<Rightarrow> bool" where
  "keyed has x w \<longleftrightarrow> has (world (bridge_of x)) w \<or> w \<in># closing x"

definition on_its_way :: "('w, 'p) key_system \<Rightarrow> nat \<Rightarrow> scan_run \<Rightarrow> bool" where
  "on_its_way x r run \<longleftrightarrow> waiting (SCAN_STATE (bridge_of x)) run \<and>
     (run_phase run = Starting \<and> r \<in> checked x \<or> run_phase run = Entering)"

definition uncancelled :: "('w, 'p) key_system \<Rightarrow> nat \<Rightarrow> scan_run \<Rightarrow> bool" where
  "uncancelled x r run \<longleftrightarrow> is_live (run_phase run) \<and> Token r \<notin> cells (bridge_of x)"

definition keys_ok :: "('w \<Rightarrow> rstring \<Rightarrow> bool) \<Rightarrow> ('w, 'p) key_system \<Rightarrow> bool" where
  "keys_ok has x \<longleftrightarrow> (\<forall>r run. runs_of x r = Some run \<longrightarrow> uncancelled x r run \<or> on_its_way x r run \<longrightarrow>
     keyed has x (run_wallet run))"

definition keys_safe :: "('w \<Rightarrow> rstring \<Rightarrow> bool) \<Rightarrow> nat \<Rightarrow> ('w, 'p) key_system \<Rightarrow> bool" where
  "keys_safe has n x \<longleftrightarrow> scans_safe n (scans x) \<and> \<not> scan_poisoned (bridge_of x) \<and>
     cancelled_or_current (scans x) \<and> own_starting (scans x) \<and>
     (\<forall>r \<in> checked x. runs_of x r \<noteq> None) \<and> keys_ok has x"

lemma keys_safeD:
  assumes "keys_safe has n x"
  shows "scans_safe n (scans x)" "\<not> scan_poisoned (bridge_of x)" "cancelled_or_current (scans x)"
    "own_starting (scans x)" "r \<in> checked x \<Longrightarrow> runs_of x r \<noteq> None" "keys_ok has x"
  using assms by (auto simp: keys_safe_def)

lemma with_bridge_frame [simp]:
  "bridge_of (with_bridge s x) = s" "runs_of (with_bridge s x) = runs_of x"
  "checked (with_bridge s x) = checked x" "closing (with_bridge s x) = closing x"
  "scans (with_bridge s x) = (scans x)\<lparr>sglob := s\<rparr>"
  by (simp_all add: with_bridge_def)

lemma keys_safe_scan:
  assumes safe: "keys_safe has n x" "Suc n < 2 ^ 64" and step: "scan_step (scans x) y"
    and same: "has (world (sglob y)) = has (world (bridge_of x))" "\<not> scan_poisoned (sglob y)"
    and enters: "\<forall>r run run'. runs_of x r = Some run \<longrightarrow> run_phase run = Starting \<longrightarrow> sruns y r = Some run' \<longrightarrow>
       run_phase run' = Entering \<longrightarrow> r \<in> checked x"
  shows "keys_safe has (Suc n) (x\<lparr>scans := y\<rparr>)"
proof -
  note S = keys_safeD [OF safe(1)]
  note G = good_scan_step [OF step S(1), unfolded good_step_def]
  have "keyed has x (run_wallet run')"
    if r: "sruns y r = Some run'" and u: "uncancelled (x\<lparr>scans := y\<rparr>) r run' \<or> on_its_way (x\<lparr>scans := y\<rparr>) r run'"
    for r run'
  proof -
    from G r have "run_before (scans x) y r run'" by blast
    moreover have False if "runs_of x r = None" "run_phase run' = Starting"
      using that u S(5) [of r] by (auto simp: uncancelled_def on_its_way_def)
    ultimately obtain run where run: "runs_of x r = Some run" "run_wallet run' = run_wallet run"
      and before: "waiting (SCAN_STATE (sglob y)) run' \<longrightarrow> waiting (SCAN_STATE (bridge_of x)) run"
        "run_phase run' = Starting \<longrightarrow> run_phase run = Starting"
        "run_phase run' = Entering \<longrightarrow> run_phase run = Starting \<or> run_phase run = Entering"
        "is_live (run_phase run') \<longrightarrow> is_live (run_phase run) \<or>
           run_phase run = Entering \<and> waiting (SCAN_STATE (bridge_of x)) run"
      unfolding run_before_def by blast
    have "uncancelled x r run \<or> on_its_way x r run"
      using u before G enters run(1) r by (auto simp: uncancelled_def on_its_way_def)
    then show ?thesis using S(6) run unfolding keys_ok_def by metis
  qed
  then have "keys_ok has (x\<lparr>scans := y\<rparr>)"
    using same(1) by (auto simp: keys_ok_def keyed_def)
  then show ?thesis
    using scans_safe_step [OF step S(1) safe(2)] G S(3,4,5) same(2) by (auto simp: keys_safe_def)
qed

text \<open>A change of the world outside the scans.\<close>

lemma keys_safe_world:
  assumes safe: "keys_safe has n x" "Suc n < 2 ^ 64"
    and keys: "\<And>w. keyed has x w \<Longrightarrow> has wd w \<or> w \<in># c"
  shows "keys_safe has (Suc n) (with_bridge ((bridge_of x)\<lparr>world := wd\<rparr>) (x\<lparr>closing := c\<rparr>))"
proof -
  note S = keys_safeD [OF safe(1)]
  let ?y = "(scans x)\<lparr>sglob := (bridge_of x)\<lparr>world := wd\<rparr>\<rparr>"
  have step: "scan_step (scans x) ?y" by (rule scan_step.outside) simp_all
  have "keys_ok has (with_bridge ((bridge_of x)\<lparr>world := wd\<rparr>) (x\<lparr>closing := c\<rparr>))"
    using S(6) keys by (auto simp: keys_ok_def keyed_def uncancelled_def on_its_way_def)
  then show ?thesis
    using scans_safe_step [OF step S(1) safe(2)] good_scan_step [OF step S(1)] S(2-5)
    by (auto simp: keys_safe_def good_step_def)
qed

text \<open>The second part of closing: whatever runs for the wallet is cancelled now.\<close>

lemma keys_safe_cancel:
  assumes safe: "keys_safe has n x" "Suc n < 2 ^ 64" and cancel: "cancel_wallet_scans w (bridge_of x) = (res, s)"
  shows "keys_safe has (Suc n) (with_bridge s (x\<lparr>closing := closing x - {#w#}\<rparr>))"
proof -
  note S = keys_safeD [OF safe(1)]
  let ?x = "with_bridge s (x\<lparr>closing := closing x - {#w#}\<rparr>)"
  have step: "scan_step (scans x) ((scans x)\<lparr>sglob := s\<rparr>)" by (rule scan_step.cancel [OF cancel])
  note G = good_scan_step [OF step S(1), unfolded good_step_def]
  obtain t where t: "cancel_wallet_scans w (bridge_of x) = (Inr (map_option ctl_stopped
      (fmlookup (running (SCAN_STATE (bridge_of x))) w)), t)"
    "cells t = cells (bridge_of x) \<union> ctl_token ` {c. fmlookup (running (SCAN_STATE (bridge_of x))) w = Some c}"
    "running (SCAN_STATE t) = running (SCAN_STATE (bridge_of x))"
    "\<forall>i. fmlookup (starting (SCAN_STATE t)) i = (if fmlookup (starting (SCAN_STATE (bridge_of x))) i = Some w
       then None else fmlookup (starting (SCAN_STATE (bridge_of x))) i)"
    "world t = world (bridge_of x)" "scan_poisoned t = scan_poisoned (bridge_of x)"
    using cancel_wallet_scans_eval [OF S(2), of w] by blast
  with cancel have s: "s = t" by simp
  have "keyed has ?x (run_wallet run)"
    if r: "runs_of x r = Some run" and u: "uncancelled ?x r run \<or> on_its_way ?x r run" for r run
  proof -
    have other: "run_wallet run \<noteq> w"
      using u
    proof
      assume live: "uncancelled ?x r run"
      then have "fmlookup (running (SCAN_STATE (bridge_of x))) (run_wallet run) = Some (controller_of r run)"
        using S(3) r t(2) s by (auto simp: uncancelled_def cancelled_or_current_def)
      then show ?thesis using live t(2) s by (force simp: uncancelled_def)
    next
      assume "on_its_way ?x r run"
      then obtain v where v: "fmlookup (starting (SCAN_STATE s)) (run_sid run) = Some v"
        by (auto simp: on_its_way_def waiting_def)
      then have "v \<noteq> w" "fmlookup (starting (SCAN_STATE (bridge_of x))) (run_sid run) = Some v"
        using t(4) s by (auto split: if_splits)
      with S(4) r show ?thesis by (auto simp: own_starting_def)
    qed
    have "uncancelled x r run \<or> on_its_way x r run"
      using u t(2,4) s by (auto simp: uncancelled_def on_its_way_def waiting_def split: if_splits)
    then have "keyed has x (run_wallet run)" using S(6) r unfolding keys_ok_def by blast
    with other show ?thesis using t(5) s by (auto simp: keyed_def in_diff_count)
  qed
  then have "keys_ok has ?x" by (simp add: keys_ok_def)
  then show ?thesis
    using scans_safe_step [OF step S(1) safe(2)] G S(2-5) t(6) s by (auto simp: keys_safe_def)
qed

lemma unlock_keeps_keys:
  assumes "session_laws M has" "unlock_session M conn w pw s = (res, t)"
  shows "t = s\<lparr>world := world t\<rparr>" "has (world s) v \<Longrightarrow> has (world t) v"
proof -
  obtain r wd where u: "session_unlock M conn w pw (world s) = (r, wd)" by (cases "session_unlock M conn w pw (world s)")
  with assms(2) show t: "t = s\<lparr>world := world t\<rparr>"
    by (auto simp: unlock_session_def on_world_def proc_simps split: sum.splits prod.splits)
  from u assms(2) have wd: "world t = wd"
    by (auto simp: unlock_session_def on_world_def proc_simps split: sum.splits prod.splits)
  assume old: "has (world s) v"
  show "has (world t) v"
  proof (cases r)
    case (Inl e)
    then show ?thesis using laws_unlock_err [OF assms(1)] u old wd by metis
  next
    case (Inr x)
    then show ?thesis
      using laws_unlock_ok [OF assms(1)] laws_unlock_other [OF assms(1) _ u] u old wd by (cases "v = w") auto
  qed
qed

lemma keys_safe_step:
  assumes "session_laws M has" "Suc n < 2 ^ 64" and safe: "keys_safe has n x" and step: "key_step M has x z"
  shows "keys_safe has (Suc n) z"
  using step
proof cases
  case (scan y)
  then show ?thesis using keys_safe_scan [OF safe assms(2)] by simp
next
  case (check r run conn account s)
  have "s = bridge_of x" "has (world (bridge_of x)) (run_wallet run)"
    using unlocked_account_Ok [OF assms(1) check(4)] by auto
  with check keys_safe_world [OF safe assms(2), of "world (bridge_of x)" "closing x"]
  show ?thesis
    by (auto simp: keys_safe_def keys_ok_def keyed_def uncancelled_def on_its_way_def)
next
  case (opened conn w pw res s)
  then show ?thesis
    using keys_safe_world [OF safe assms(2), of "world s" "closing x"] unlock_keeps_keys [OF assms(1) opened(2)]
    by (auto simp: keyed_def)
next
  case (close w)
  then show ?thesis
    using keys_safe_world [OF safe assms(2), of "session_lock M w (world (bridge_of x))" "add_mset w (closing x)"]
      laws_lock [OF assms(1)]
    by (auto simp: keyed_def close_session_def)
next
  case (dropped w wd)
  then show ?thesis
    using keys_safe_world [OF safe assms(2), of wd "add_mset w (closing x)"] by (auto simp: keyed_def)
next
  case (cancel w res s)
  then show ?thesis using keys_safe_cancel [OF safe assms(2)] by simp
qed

interpretation key_system:
  bounded_invariant "key_step M has" "\<lambda>n x. session_laws M has \<longrightarrow> keys_safe has n x" "2 ^ 64"
  for M has
  by unfold_locales (blast intro: keys_safe_step)

lemma keys_safe_start: "keys_safe has 0 (key_start wd)"
  using scans_safe_start [of wd]
  by (simp add: keys_safe_def key_start_def keys_ok_def cancelled_or_current_def own_starting_def
      scan_start_def init_bridge_def)

section \<open>A scan that runs has the keys\<close>

text \<open>
  C10 (safety): no scan goes on with keys that were locked away. However scans, unlocks and locks
  interleave, at every state: a scan that is in its slot (waiting for the one it replaced, or
  scanning) and has not been told to stop has its wallet's key session, unless the call that
  closed the session is just about to cancel the wallet's scans. So once the locks of a wallet
  have returned, while nothing unlocks it, every scan of it has been told to stop. (Fewer than \<open>2 ^ 64\<close> steps,
  and no thread panicked while it held the scan state.)
\<close>

theorem running_scan_has_keys:
  assumes "session_laws M has" "steps (key_step M has) n (key_start wd) x" "n < 2 ^ 64"
    and "sruns (scans x) r = Some run" "is_live (run_phase run)" "\<not> is_set (Token r) (sglob (scans x))"
    and "run_wallet run \<notin># closing x"
  shows "has (world (sglob (scans x))) (run_wallet run)"
proof -
  have "keys_safe has n x"
    using key_system.from_start [OF assms(2) _ assms(3)] assms(1) by (simp add: keys_safe_start)
  from keys_safeD(6) [OF this] assms(4-7) show ?thesis
    by (auto simp: keys_ok_def keyed_def uncancelled_def is_set_def)
qed

text \<open>Wallet \<open>w\<close> is open; its scan is claimed, checked, and takes the slot.\<close>

definition key_example ::
  "u64 set \<Rightarrow> (u64, rstring) fmap \<Rightarrow> (rstring, ScanController) fmap \<Rightarrow> nat \<Rightarrow> rstring set \<Rightarrow>
     phase option \<Rightarrow> nat \<Rightarrow> nat set \<Rightarrow> (rstring set, unit) key_system" where
  "key_example iss st slots run held p k chk =
     \<lparr>scans = \<lparr>sglob = (init_bridge {lit ''w''})\<lparr>SCAN_STATE := \<lparr>issued = iss, stopped_before_start = {},
          starting = st, running = slots\<rparr>, SCAN_ID := 1, next_run := run, MAINT_HELD := held\<rparr>,
        sruns = (case p of None \<Rightarrow> (\<lambda>_. None) | Some p \<Rightarrow> (\<lambda>_. None)(0 \<mapsto> example_first\<lparr>run_phase := p\<rparr>)),
        turns = k, maint = (\<lambda>_. None)\<rparr>,
      checked = chk, closing = {#}\<rparr>"

lemma scan_then:
  assumes "steps (key_step M has) n s x" "scan_step (scans x) y"
    and "has (world (sglob y)) = has (world (bridge_of x))" "\<not> scan_poisoned (sglob y)"
    and "\<And>r run run'. runs_of x r = Some run \<Longrightarrow> run_phase run = Starting \<Longrightarrow> sruns y r = Some run' \<Longrightarrow>
       run_phase run' = Entering \<Longrightarrow> r \<in> checked x"
    and "x\<lparr>scans := y\<rparr> = z"
  shows "steps (key_step M has) (Suc n) s z"
  using steps_Suc [OF assms(1) key_step.scan [OF assms(2-4)]] assms(5,6) by blast

lemma check_then:
  assumes "steps (key_step M has) n s x" "runs_of x r = Some run" "run_phase run = Starting"
    and "unlocked_account M conn (run_wallet run) (bridge_of x) = (Inr account, t)"
    and "with_bridge t (x\<lparr>checked := insert r (checked x)\<rparr>) = z"
  shows "steps (key_step M has) (Suc n) s z"
  using steps_Suc [OF assms(1) key_step.check [OF assms(2-4)]] assms(5) by simp

lemmas key_example_eval = example_eval key_example_def with_bridge_def init_ScanState_def

lemma key_example_checked:
  "steps (key_step example_minotari (\<lambda>wd w. w \<in> wd)) 3 (key_start {lit ''w''})
     (key_example {} (fmupd 0 (lit ''w'') fmempty) fmempty 1 {} (Some Starting) 0 {0})"
proof -
  let ?R = "key_step example_minotari (\<lambda>wd w. w \<in> wd)" and ?w = "lit ''w''"
  have "steps ?R (Suc 0) (key_start {?w}) (key_example {0} fmempty fmempty 0 {} None 0 {})"
    by (rule scan_then [OF steps_0 scan_step.create [of ?w, OF surjective_pairing]])
      (auto simp: key_start_def scan_start_def key_example_eval)
  then have "steps ?R (Suc (Suc 0)) (key_start {?w})
      (key_example {} (fmupd 0 ?w fmempty) fmempty 1 {} (Some Starting) 0 {})"
    by (rule scan_then [OF _ scan_step.begin_run
          [where h = "\<lparr>handle_wallet = ?w, handle_id = 0\<rparr>" and p = Background, OF _ prod_eqI]])
      (auto simp: key_example_eval)
  then have "steps ?R (Suc (Suc (Suc 0))) (key_start {?w})
      (key_example {} (fmupd 0 ?w fmempty) fmempty 1 {} (Some Starting) 0 {0})"
    by (rule check_then [where r = 0 and run = example_first and conn = "()" and account = "()"])
      (auto simp: key_example_eval unlocked_account_def is_unlocked_def map_err_def)
  then show ?thesis by (simp add: eval_nat_numeral)
qed

lemma key_example_running:
  "steps (key_step example_minotari (\<lambda>wd w. w \<in> wd)) 5 (key_start {lit ''w''})
     (key_example {} fmempty (fmupd (lit ''w'') (controller_of 0 example_first) fmempty) 1 {}
        (Some (Replacing 0 None)) 1 {0})"
proof -
  let ?R = "key_step example_minotari (\<lambda>wd w. w \<in> wd)" and ?w = "lit ''w''"
  have "steps ?R (Suc 3) (key_start {?w})
      (key_example {} (fmupd 0 ?w fmempty) fmempty 1 {?w} (Some Entering) 0 {0})"
    by (rule scan_then [OF key_example_checked scan_step.lock [where r = 0 and run = example_first]])
      (auto simp: key_example_eval split: if_splits)
  then have "steps ?R (Suc (Suc 3)) (key_start {?w})
      (key_example {} fmempty (fmupd ?w (controller_of 0 example_first) fmempty) 1 {} (Some (Replacing 0 None)) 1 {0})"
    by (rule scan_then [OF _ scan_step.enter [where r = 0 and run = "example_first\<lparr>run_phase := Entering\<rparr>"
          and previous = None, OF _ _ prod_eqI]])
      (auto simp: key_example_eval split: if_splits)
  then show ?thesis by (simp add: eval_nat_numeral)
qed

theorem running_scan_has_keys_witness:
  "\<exists>x. steps (key_step example_minotari (\<lambda>wd w. w \<in> wd)) 5 (key_start {lit ''w''}) x \<and>
     map_option run_phase (sruns (scans x) 0) = Some (Replacing 0 None) \<and>
     \<not> is_set (Token 0) (sglob (scans x)) \<and> lit ''w'' \<in> world (sglob (scans x))"
proof -
  let ?x = "key_example {} fmempty (fmupd (lit ''w'') (controller_of 0 example_first) fmempty) 1 {}
        (Some (Replacing 0 None)) 1 {0}"
  have run: "sruns (scans ?x) 0 = Some (example_first\<lparr>run_phase := Replacing 0 None\<rparr>)"
    "\<not> is_set (Token 0) (sglob (scans ?x))" "closing ?x = {#}"
    by (simp_all add: key_example_def is_set_def init_bridge_def)
  have "lit ''w'' \<in> world (sglob (scans ?x))"
    using running_scan_has_keys [OF example_session_laws key_example_running _ run(1) _ run(2)] run(3)
    by (simp add: example_first_def)
  with key_example_running run show ?thesis by (intro exI [of _ ?x]) simp
qed

end
