(* ===== verification/Text.thy ===== *)
theory Text
  imports Prelude
begin

text \<open>
  Cleaning node-supplied text (\<open>src/domain/text.rs\<close>) and what the result promises: no
  Unicode format character, separator, filler or variation selector is left, everything
  else is kept in order, and cleaning twice changes nothing more.
\<close>

section \<open>The filter\<close>

definition is_format_char :: "rchar \<Rightarrow> bool" where
  "is_format_char c \<longleftrightarrow>
     c = 0x00AD \<or> c = 0x034F \<or> 0x0600 \<le> c \<and> c \<le> 0x0605 \<or> c = 0x061C \<or> c = 0x06DD \<or>
     c = 0x070F \<or> 0x0890 \<le> c \<and> c \<le> 0x0891 \<or> c = 0x08E2 \<or> 0x115F \<le> c \<and> c \<le> 0x1160 \<or>
     0x180B \<le> c \<and> c \<le> 0x180F \<or> 0x200B \<le> c \<and> c \<le> 0x200F \<or> 0x2028 \<le> c \<and> c \<le> 0x202E \<or>
     0x2060 \<le> c \<and> c \<le> 0x2064 \<or> 0x2066 \<le> c \<and> c \<le> 0x206F \<or> c = 0x3164 \<or>
     0xFE00 \<le> c \<and> c \<le> 0xFE0F \<or> c = 0xFEFF \<or> c = 0xFFA0 \<or> 0xFFF9 \<le> c \<and> c \<le> 0xFFFB \<or>
     c = 0x110BD \<or> c = 0x110CD \<or> 0x13430 \<le> c \<and> c \<le> 0x1343F \<or>
     0x1BCA0 \<le> c \<and> c \<le> 0x1BCA3 \<or> 0x1D173 \<le> c \<and> c \<le> 0x1D17A \<or> c = 0xE0001 \<or>
     0xE0020 \<le> c \<and> c \<le> 0xE007F \<or> 0xE0100 \<le> c \<and> c \<le> 0xE01EF"

definition strip_format_chars :: "rstring \<Rightarrow> rstring" where
  "strip_format_chars t = filter (\<lambda>c. \<not> is_format_char c) t"

section \<open>What Unicode says\<close>

text \<open>
  The characters that could disguise a text, from the Unicode character database: general
  category Cf, the line and paragraph separators, the Hangul fillers, the combining
  grapheme joiner, and the variation selectors (Mongolian ones included).
\<close>

definition unicode_Cf :: "rchar set" where
  "unicode_Cf =
     {0x00AD, 0x061C, 0x06DD, 0x070F, 0x08E2, 0x180E, 0xFEFF, 0x110BD, 0x110CD, 0xE0001} \<union>
     {0x0600..0x0605} \<union> {0x0890..0x0891} \<union> {0x200B..0x200F} \<union> {0x202A..0x202E} \<union>
     {0x2060..0x2064} \<union> {0x2066..0x206F} \<union> {0xFFF9..0xFFFB} \<union> {0x13430..0x1343F} \<union>
     {0x1BCA0..0x1BCA3} \<union> {0x1D173..0x1D17A} \<union> {0xE0020..0xE007F}"

definition separators :: "rchar set" where
  "separators = {0x2028, 0x2029}"

definition fillers :: "rchar set" where
  "fillers = {0x034F, 0x115F, 0x1160, 0x3164, 0xFFA0}"

definition variation_selectors :: "rchar set" where
  "variation_selectors = {0x180B, 0x180C, 0x180D, 0x180F} \<union> {0xFE00..0xFE0F} \<union> {0xE0100..0xE01EF}"

lemma is_format_char_covers:
  "c \<in> unicode_Cf \<union> separators \<union> fillers \<union> variation_selectors \<longleftrightarrow> is_format_char c"
  unfolding unicode_Cf_def separators_def fillers_def variation_selectors_def is_format_char_def
  by (simp only: Un_iff insert_iff atLeastAtMost_iff empty_iff) presburger

lemma strip_format_chars_set:
  "set (strip_format_chars t) = set t - unicode_Cf - separators - fillers - variation_selectors"
  using is_format_char_covers by (auto simp: strip_format_chars_def)

lemma strip_append: "strip_format_chars (s @ t) = strip_format_chars s @ strip_format_chars t"
  by (simp add: strip_format_chars_def)

lemma strip_idem [simp]: "strip_format_chars (strip_format_chars t) = strip_format_chars t"
  by (simp add: strip_format_chars_def)

lemma strip_ascii: "\<forall>c \<in> set t. c < 0x80 \<Longrightarrow> strip_format_chars t = t"
  by (induction t) (auto simp: strip_format_chars_def is_format_char_def)

section \<open>Result\<close>

text \<open>
  The cleaned text is the text without its format characters (Unicode category
  Cf), separators, fillers and variation selectors, and with exactly everything else: a text
  splits at any point and its parts clean on their own, so the order is kept, and cleaning is
  idempotent.
\<close>

theorem strip_format_chars_clean:
  "set (strip_format_chars t) = set t - unicode_Cf - separators - fillers - variation_selectors \<and>
   strip_format_chars (s @ t) = strip_format_chars s @ strip_format_chars t \<and>
   strip_format_chars (strip_format_chars t) = strip_format_chars t \<and>
   length (strip_format_chars t) =
     length t - length (filter (\<lambda>c. c \<in> unicode_Cf \<union> separators \<union> fillers \<union> variation_selectors) t)"
proof -
  have "length (strip_format_chars t) = length t - length (filter is_format_char t)"
    using sum_length_filter_compl [of is_format_char t] by (simp add: strip_format_chars_def)
  then show ?thesis
    using is_format_char_covers strip_format_chars_set strip_append by simp
qed

end
