(* ===== verification/Scanner.thy ===== *)
theory Scanner
  imports Session_Laws Transactions Text
begin

text \<open>
  Running a scan (\<open>src/api/scanner.rs\<close>): the events and their DTOs, the forwarder, and the
  path of one scan from its handle to its one terminal event. The slots and handles are in
  \<open>Scan_State\<close>; how scans interleave is in \<open>Scan_Interleaving\<close>.
\<close>

section \<open>Events\<close>

text \<open>minotari's scanner events, by the variants the code's exhaustive matches name.\<close>

record Duration =
  dur_secs :: u64
  dur_nanos :: u32

datatype ScanStatusEvent =
    SE_Started i64 u64
  | SE_Progress i64 u64 u64 u64
  | SE_Completed i64 u64 u64
  | SE_Waiting i64 Duration
  | SE_MoreBlocksAvailable i64 u64
  | SE_Cancelled i64
  | SE_BudgetExhausted i64 u64 u64
  | SE_FastSyncPhaseStarted i64
  | SE_FastSyncPhaseCompleted i64

record ('i, 'h, 't, 'addr) DisplayedTransactionsEvent =
  te_account_id :: i64
  te_transactions :: "('i, 'h, 't, 'addr) DisplayedTransaction list"
  te_block_height :: "u64 option"
  te_is_initial_sync :: bool

record ('i, 'h, 't, 'addr) TransactionsUpdatedEvent =
  ue_account_id :: i64
  ue_updated_transactions :: "('i, 'h, 't, 'addr) DisplayedTransaction list"

record ('i, 'h, 't, 'addr) ReorgDetectedEvent =
  re_account_id :: i64
  re_reorg_from_height :: u64
  re_new_height :: u64
  re_blocks_rolled_back :: u64
  re_cancelled_transaction_ids :: "rstring list"
  re_reorganized :: "('i, 'h, 't, 'addr) DisplayedTransaction list"

datatype ('i, 'h, 't, 'addr) ProcessingEvent =
    ScanStatus ScanStatusEvent
  | PE_TransactionsReady "('i, 'h, 't, 'addr) DisplayedTransactionsEvent"
  | PE_TransactionsUpdated "('i, 'h, 't, 'addr) TransactionsUpdatedEvent"
  | PE_ReorgDetected "('i, 'h, 't, 'addr) ReorgDetectedEvent"
  | PE_BlockProcessed u64

record TransactionsReadyDto =
  tr_account_id :: i64
  tr_transactions :: "DisplayedTransactionDto list"
  tr_block_height :: "u64 option"
  tr_is_initial_sync :: bool

record TransactionsUpdatedDto =
  tu_account_id :: i64
  tu_updated_transactions :: "DisplayedTransactionDto list"

record ReorgDetectedDto =
  rd_account_id :: i64
  rd_reorg_from_height :: u64
  rd_new_height :: u64
  rd_blocks_rolled_back :: u64
  rd_cancelled_transaction_ids :: "rstring list"
  rd_reorganized_transactions :: "DisplayedTransactionDto list"

datatype ScanEventDto =
    Started i64 u64
  | Progress i64 u64 u64 u64
  | Completed i64 u64 u64
  | Waiting_Event i64 u64
  | MoreBlocksAvailable i64 u64
  | TransactionsReady TransactionsReadyDto
  | TransactionsUpdated TransactionsUpdatedDto
  | ReorgDetected ReorgDetectedDto
  | Cancelled
  | Superseded
  | BudgetExhausted i64 u64 u64
  | Error rstring

text \<open>How transactions become DTOs, fixed once for the conversions that follow.\<close>

type_synonym ('i, 'h, 't, 'addr) tx_map =
  "('i, 'h, 't, 'addr) DisplayedTransaction \<Rightarrow> DisplayedTransactionDto"

definition reorg_detected_from ::
  "('i, 'h, 't, 'addr) tx_map \<Rightarrow> ('i, 'h, 't, 'addr) ReorgDetectedEvent \<Rightarrow> ReorgDetectedDto" where
  "reorg_detected_from tx e =
     \<lparr>rd_account_id = re_account_id e,
      rd_reorg_from_height = re_reorg_from_height e,
      rd_new_height = re_new_height e,
      rd_blocks_rolled_back = re_blocks_rolled_back e,
      rd_cancelled_transaction_ids = re_cancelled_transaction_ids e,
      rd_reorganized_transactions = map tx (re_reorganized e)\<rparr>"

definition transactions_ready_from ::
  "('i, 'h, 't, 'addr) tx_map \<Rightarrow> ('i, 'h, 't, 'addr) DisplayedTransactionsEvent \<Rightarrow> TransactionsReadyDto" where
  "transactions_ready_from tx e =
     \<lparr>tr_account_id = te_account_id e, tr_transactions = map tx (te_transactions e),
      tr_block_height = te_block_height e, tr_is_initial_sync = te_is_initial_sync e\<rparr>"

definition transactions_updated_from ::
  "('i, 'h, 't, 'addr) tx_map \<Rightarrow> ('i, 'h, 't, 'addr) TransactionsUpdatedEvent \<Rightarrow> TransactionsUpdatedDto" where
  "transactions_updated_from tx e =
     \<lparr>tu_account_id = ue_account_id e, tu_updated_transactions = map tx (ue_updated_transactions e)\<rparr>"

fun map_status_event :: "ScanStatusEvent \<Rightarrow> ScanEventDto option" where
  "map_status_event (SE_FastSyncPhaseStarted _) = None"
| "map_status_event (SE_FastSyncPhaseCompleted _) = None"
| "map_status_event (SE_Started acc h) = Some (Started acc h)"
| "map_status_event (SE_Progress acc h tip n) = Some (Progress acc h tip n)"
| "map_status_event (SE_Completed acc h n) = Some (Completed acc h n)"
| "map_status_event (SE_Waiting acc d) = Some (Waiting_Event acc (dur_secs d))"
| "map_status_event (SE_MoreBlocksAvailable acc h) = Some (MoreBlocksAvailable acc h)"
| "map_status_event (SE_Cancelled _) = Some Cancelled"
| "map_status_event (SE_BudgetExhausted acc h tip) = Some (BudgetExhausted acc h tip)"

fun map_processing_event ::
  "('i, 'h, 't, 'addr) tx_map \<Rightarrow> ('i, 'h, 't, 'addr) ProcessingEvent \<Rightarrow> ScanEventDto option" where
  "map_processing_event tx (PE_TransactionsReady e) = Some (TransactionsReady (transactions_ready_from tx e))"
| "map_processing_event tx (PE_TransactionsUpdated e) =
     Some (TransactionsUpdated (transactions_updated_from tx e))"
| "map_processing_event tx (PE_ReorgDetected e) = Some (ReorgDetected (reorg_detected_from tx e))"
| "map_processing_event tx (PE_BlockProcessed _) = None"
| "map_processing_event tx (ScanStatus status) = map_status_event status"

fun is_terminal :: "ScanEventDto \<Rightarrow> bool" where
  "is_terminal (Completed _ _ _) = True"
| "is_terminal Cancelled = True"
| "is_terminal Superseded = True"
| "is_terminal (BudgetExhausted _ _ _) = True"
| "is_terminal (Error _) = True"
| "is_terminal _ = False"

section \<open>The forwarder\<close>

text \<open>
  The callback's answer may depend on what it was given before: \<open>accepts before dto\<close> is whether
  the call with \<open>dto\<close> returns \<open>Ok\<close>. The loop's state: its two variables, the calls made, and
  whether it cancelled the scan.
\<close>

type_synonym sink = "ScanEventDto list \<Rightarrow> ScanEventDto \<Rightarrow> bool"

record forwarder =
  fw_terminal :: "ScanEventDto option"
  fw_sink_open :: bool
  fw_calls :: "ScanEventDto list"
  fw_cancelled :: bool

definition forward_event ::
  "('i, 'h, 't, 'addr) tx_map \<Rightarrow> sink \<Rightarrow> ('i, 'h, 't, 'addr) ProcessingEvent \<Rightarrow> forwarder \<Rightarrow> forwarder" where
  "forward_event tx accepts event f =
     (case map_processing_event tx event of
        None \<Rightarrow> f
      | Some dto \<Rightarrow>
          if is_terminal dto then f\<lparr>fw_terminal := Some dto\<rparr>
          else if fw_sink_open f then
            let ok = accepts (fw_calls f) dto; f = f\<lparr>fw_calls := fw_calls f @ [dto]\<rparr> in
            if ok then f else f\<lparr>fw_sink_open := False, fw_cancelled := True\<rparr>
          else f)"

text \<open>\<open>run_forwarder\<close>: over all events the scanner sent before it dropped its sender.\<close>

definition run_forwarder ::
  "('i, 'h, 't, 'addr) tx_map \<Rightarrow> sink \<Rightarrow> ('i, 'h, 't, 'addr) ProcessingEvent list \<Rightarrow> forwarder" where
  "run_forwarder tx accepts events =
     fold (forward_event tx accepts) events
       \<lparr>fw_terminal = None, fw_sink_open = True, fw_calls = [], fw_cancelled = False\<rparr>"

section \<open>The scanner's configuration\<close>

record ScanConfiguration =
  cfg_wallet_name :: rstring
  cfg_base_url :: rstring
  cfg_batch_size :: u64
  cfg_continuous :: bool
  cfg_poll_interval_seconds :: u64
  cfg_required_confirmations :: u64
  cfg_priority :: ScanPriority
  cfg_processing_threads :: "u32 option"
  cfg_event_buffer :: "u32 option"
  cfg_deadline_seconds :: "u64 option"
  cfg_max_blocks :: "u64 option"

datatype ScanMode = Continuous u64 | Partial u64 | Full

record 'd Scanner_Settings =
  sc_passphrase :: rstring
  sc_base_url :: rstring
  sc_db_path :: rstring
  sc_batch_size :: u64
  sc_required_confirmations :: u64
  sc_mode :: ScanMode
  sc_account :: rstring
  sc_cancel_token :: cell
  sc_processing_threads :: "usize option"
  sc_event_buffer :: "usize option"
  sc_deadline :: "'d option"

text \<open>
  minotari's scanner and the system calls: \<open>run_with_events\<close> gives the events it sent and its
  result, \<open>deadline_in\<close> is \<open>Instant::now().checked_add\<close>, and the \<open>tx_\<close> fields are the rollback's
  write transaction (dropped uncommitted, it changes nothing).
\<close>

record ('w, 'c, 'a, 'ev, 'd, 'tx) scanner_lib =
  run_with_events :: "'d Scanner_Settings \<Rightarrow> 'w \<Rightarrow> ('ev list \<times> (rstring + unit)) \<times> 'w"
  deadline_in :: "u64 \<Rightarrow> 'd option"
  available_parallelism :: "usize option"
  tx_begin_immediate :: "'c \<Rightarrow> 'w \<Rightarrow> rstring + 'tx"
  tx_get_account_by_name :: "'tx \<Rightarrow> rstring \<Rightarrow> wallet_db_error + 'a option"
  tx_rollback_from_height :: "'tx \<Rightarrow> i64 \<Rightarrow> u64 \<Rightarrow> rstring + 'tx"
  tx_commit :: "'tx \<Rightarrow> 'w \<Rightarrow> (rstring + unit) \<times> 'w"

definition capped_threads :: "usize option \<Rightarrow> u32 \<Rightarrow> usize" where
  "capped_threads parallelism requested =
     (let mx = (case parallelism of None \<Rightarrow> 1 | Some n \<Rightarrow> n) in
      max 1 (min (ucast requested) mx))"

definition build_scanner ::
  "('w, 'c, 'a, 'ev, 'd, 'tx, 'z) scanner_lib_scheme \<Rightarrow> ScanConfiguration \<Rightarrow> rstring \<Rightarrow> cell \<Rightarrow>
     'd Scanner_Settings" where
  "build_scanner S config path token =
     \<lparr>sc_passphrase = [], sc_base_url = cfg_base_url config, sc_db_path = path,
      sc_batch_size = cfg_batch_size config,
      sc_required_confirmations = cfg_required_confirmations config,
      sc_mode = (if cfg_continuous config then Continuous (cfg_poll_interval_seconds config)
                 else (case cfg_max_blocks config of Some n \<Rightarrow> Partial n | None \<Rightarrow> Full)),
      sc_account = cfg_wallet_name config, sc_cancel_token = token,
      sc_processing_threads =
        map_option (capped_threads (available_parallelism S)) (cfg_processing_threads config),
      sc_event_buffer = map_option ucast (cfg_event_buffer config),
      sc_deadline = (case cfg_deadline_seconds config of
          None \<Rightarrow> None | Some seconds \<Rightarrow> deadline_in S seconds)\<rparr>"

definition check_rescan_height :: "u64 \<Rightarrow> api_error + unit" where
  "check_rescan_height from_height =
     (if unat from_height \<ge> 2 ^ 63
      then Inl (Wallet_Err (database (lit ''Rescan height '' @ format_dec (unat from_height) @
        lit '' is out of range'')))
      else Inr ())"

section \<open>The rollback of a rescan\<close>

text \<open>The blocking part: one write transaction, committed at its end.\<close>

definition rollback_in_transaction ::
  "('w, 'c, 'a, 'ev, 'd, 'tx, 'z) scanner_lib_scheme \<Rightarrow> ('w, 'c, 'a, 'b) accounts_lib_scheme \<Rightarrow>
     'c \<Rightarrow> rstring \<Rightarrow> u64 \<Rightarrow> ('w, 'p, unit) bridge_api" where
  "rollback_in_transaction S L conn wallet_name from_height =
     and_then (\<lambda>s. (map_err (\<lambda>e. Wallet_Err (database e)) (tx_begin_immediate S conn (world s)), s)) (\<lambda>tx.
     and_then (lift_res (map_err (\<lambda>e. Wallet_Err (database (db_text e)))
         (tx_get_account_by_name S tx wallet_name))) (\<lambda>row.
     and_then (lift_res (ok_or (Wallet_Err NoAccounts) row)) (\<lambda>account.
     and_then (lift_res (map_err (\<lambda>e. Wallet_Err (database (lit ''Rollback failed: '' @ e)))
         (tx_rollback_from_height S tx (account_id L account) from_height))) (\<lambda>tx.
     map_err_proc (\<lambda>e. Wallet_Err (database e)) (on_world (tx_commit S tx))))))"

definition rollback_account ::
  "('w, 'p) environment \<Rightarrow> ('w, 'c, 'a, 'ev, 'd, 'tx, 'z) scanner_lib_scheme \<Rightarrow>
     ('w, 'c, 'a, 'b) accounts_lib_scheme \<Rightarrow> ('w, 'p, 'c, 'a, 'm) minotari_scheme \<Rightarrow>
     rstring \<Rightarrow> u64 \<Rightarrow> ('w, 'p, unit) bridge_api" where
  "rollback_account env S L M wallet_name from_height =
     and_then (lift_res (check_rescan_height from_height)) (\<lambda>_.
     and_then (get_db_connection M) (\<lambda>conn.
     and_then (await env Await_Blocking) (\<lambda>_ s.
       case join_error env s of
         Some e \<Rightarrow> err (internal (lit ''Rollback task failed: '' @ e)) s
       | None \<Rightarrow> rollback_in_transaction S L conn wallet_name from_height s)))"

section \<open>One scan\<close>

text \<open>
  A scan has called the callback with some events whatever it returns, so its definitions
  give both: the calls made, and the terminal event or the error. \<open>before_events m f\<close> is \<open>?\<close>
  on a step before the first event.
\<close>

type_synonym ('w, 'p) scan_proc =
  "('w, 'p) bridge \<Rightarrow> (ScanEventDto list \<times> (api_error + ScanEventDto)) \<times> ('w, 'p) bridge"

definition before_events :: "('w, 'p, 'r) bridge_api \<Rightarrow> ('r \<Rightarrow> ('w, 'p) scan_proc) \<Rightarrow> ('w, 'p) scan_proc" where
  "before_events m f s =
     (case m s of (Inl e, s') \<Rightarrow> (([], Inl e), s') | (Inr x, s') \<Rightarrow> f x s')"

definition end_scan :: "api_error + ScanEventDto \<Rightarrow> ('w, 'p) scan_proc" where
  "end_scan r s = (([], r), s)"

definition stopped_event :: "bool \<Rightarrow> ScanEventDto" where
  "stopped_event superseded = (if superseded then Superseded else Cancelled)"

text \<open>
  The last part of \<open>scan_in_slot\<close>: the scanner runs while other tasks do, the forwarder
  delivers; if the forwarder's task failed, there is no terminal event of its own.
\<close>

definition run_scanner ::
  "('w, 'p) environment \<Rightarrow>
     ('w, 'c, 'a, ('i, 'h, 't, 'addr) ProcessingEvent, 'd, 'tx, 'z) scanner_lib_scheme \<Rightarrow>
     ('i, 'h, 't, 'addr) tx_map \<Rightarrow> sink \<Rightarrow> ScanConfiguration \<Rightarrow> rstring \<Rightarrow> cell \<Rightarrow> cell \<Rightarrow>
     ('w, 'p) scan_proc" where
  "run_scanner env S tx accepts config path token superseded s =
     (case on_world (run_with_events S (build_scanner S config path token)) s of
        ((events, result), s) \<Rightarrow>
          let s = env_run env Await_Scanner s;
              lost = join_error env s \<noteq> None;
              f = run_forwarder tx accepts (if lost then [] else events);
              s = (if fw_cancelled f then set_cell token s else s)
          in ((fw_calls f,
               case result of
                 Inl e \<Rightarrow> Inl (Anyhow e)
               | Inr _ \<Rightarrow>
                   if is_set superseded s then Inr Superseded
                   else Inr (case fw_terminal f of Some terminal \<Rightarrow> terminal | None \<Rightarrow> Cancelled)),
              s))"

definition scan_in_slot ::
  "('w, 'p) environment \<Rightarrow>
     ('w, 'c, 'a, ('i, 'h, 't, 'addr) ProcessingEvent, 'd, 'tx, 'z) scanner_lib_scheme \<Rightarrow>
     ('w, 'c, 'a, 'b) accounts_lib_scheme \<Rightarrow> ('w, 'p, 'c, 'a, 'm) minotari_scheme \<Rightarrow>
     ('i, 'h, 't, 'addr) tx_map \<Rightarrow> sink \<Rightarrow> ScanConfiguration \<Rightarrow> rstring \<Rightarrow> u64 option \<Rightarrow> cell \<Rightarrow> cell \<Rightarrow>
     ('w, 'p) scan_proc" where
  "scan_in_slot env S L M tx accepts config path rescan_from token superseded s =
     (if is_set token s then end_scan (Inr (stopped_event (is_set superseded s))) s
      else
        let s = (case get_db_connection M s of
                   (Inr conn, s) \<Rightarrow> release_expired_reservations M conn s
                 | (Inl _, s) \<Rightarrow> s);
            run = run_scanner env S tx accepts config path token superseded
        in (case rescan_from of
              None \<Rightarrow> run s
            | Some from_height \<Rightarrow>
                before_events (rollback_account env S L M (cfg_wallet_name config) from_height) (\<lambda>_ s.
                  if is_set token s then end_scan (Inr (stopped_event (is_set superseded s))) s
                  else run s) s))"

definition scan ::
  "('w, 'p) environment \<Rightarrow>
     ('w, 'c, 'a, ('i, 'h, 't, 'addr) ProcessingEvent, 'd, 'tx, 'z) scanner_lib_scheme \<Rightarrow>
     ('w, 'c, 'a, 'b) accounts_lib_scheme \<Rightarrow> ('w, 'p, 'c, 'a, 'm) minotari_scheme \<Rightarrow>
     ('i, 'h, 't, 'addr) tx_map \<Rightarrow> sink \<Rightarrow> nat \<Rightarrow> u64 \<Rightarrow> ScanConfiguration \<Rightarrow> u64 option \<Rightarrow>
     ('w, 'p) scan_proc" where
  "scan env S L M tx accepts run sid config rescan_from =
     before_events get_db_path (\<lambda>path.
     before_events (get_db_connection M) (\<lambda>conn.
     before_events (unlocked_account M conn (cfg_wallet_name config)) (\<lambda>_.
     before_events (lift_res (case rescan_from of
         None \<Rightarrow> Inr () | Some from_height \<Rightarrow> check_rescan_height from_height)) (\<lambda>_.
     before_events (with_maintenance env (cfg_wallet_name config)
         (enter_slot sid (cfg_wallet_name config)
           \<lparr>ctl_id = sid, ctl_priority = cfg_priority config, ctl_token = Token run,
            ctl_superseded = Superseded_Flag run, ctl_stopped = Stopped_Token run\<rparr>)) (\<lambda>entered.
       case entered of
         None \<Rightarrow> end_scan (Inr Cancelled)
       | Some previous \<Rightarrow>
           before_events (case previous of
               None \<Rightarrow> ret () | Some p \<Rightarrow> await env (Await_Cell (ctl_stopped p))) (\<lambda>_ s.
             case scan_in_slot env S L M tx accepts config path rescan_from (Token run)
                 (Superseded_Flag run) s of
               ((calls, outcome), s) \<Rightarrow>
                 let s = clear_scan_if_current (cfg_wallet_name config) sid s in
                 (case outcome of
                    Inr terminal \<Rightarrow> ((calls, Inr terminal), s)
                  | Inl e \<Rightarrow>
                      (case session_gone M (cfg_wallet_name config) s of
                         (gone, s) \<Rightarrow> ((calls, Inl (if gone then Wallet_Err Locked else e)), s)))))))))"

definition claim_and_scan ::
  "('w, 'p) environment \<Rightarrow>
     ('w, 'c, 'a, ('i, 'h, 't, 'addr) ProcessingEvent, 'd, 'tx, 'z) scanner_lib_scheme \<Rightarrow>
     ('w, 'c, 'a, 'b) accounts_lib_scheme \<Rightarrow> ('w, 'p, 'c, 'a, 'm) minotari_scheme \<Rightarrow>
     ('i, 'h, 't, 'addr) tx_map \<Rightarrow> sink \<Rightarrow> nat \<Rightarrow> ScanHandle \<Rightarrow> ScanConfiguration \<Rightarrow> u64 option \<Rightarrow>
     ('w, 'p) scan_proc" where
  "claim_and_scan env S L M tx accepts run handle config rescan_from =
     (if handle_wallet handle \<noteq> cfg_wallet_name config then
        end_scan (Inl (Wallet_Err (wallet (lit ''The scan handle belongs to another wallet''))))
      else
        before_events (claim_handle handle) (\<lambda>stopped_before.
          if stopped_before then end_scan (Inr Cancelled)
          else (\<lambda>s. case scan env S L M tx accepts run (handle_id handle) config rescan_from s of
                  (result, s) \<Rightarrow> (result, leave_starting (handle_id handle) s))))"

text \<open>
  \<open>scan_failure\<close>: \<open>debug\<close> is anyhow's \<open>{:?}\<close> rendering of an error with its causes.
\<close>

definition scan_failure :: "(api_error \<Rightarrow> rstring) \<Rightarrow> api_error \<Rightarrow> rstring \<times> api_error" where
  "scan_failure debug e =
     (strip_format_chars (to_string e), Anyhow (strip_format_chars (debug e)))"

text \<open>
  \<open>run_scan\<close>: the run's stopped token fires when it returns, after the terminal event. The
  result is the calls of the callback, in order, and what the function returns.
\<close>

definition run_scan ::
  "('w, 'p) environment \<Rightarrow>
     ('w, 'c, 'a, ('i, 'h, 't, 'addr) ProcessingEvent, 'd, 'tx, 'z) scanner_lib_scheme \<Rightarrow>
     ('w, 'c, 'a, 'b) accounts_lib_scheme \<Rightarrow> ('w, 'p, 'c, 'a, 'm) minotari_scheme \<Rightarrow>
     ('i, 'h, 't, 'addr) tx_map \<Rightarrow> (api_error \<Rightarrow> rstring) \<Rightarrow> ScanHandle \<Rightarrow> ScanConfiguration \<Rightarrow>
     u64 option \<Rightarrow> sink \<Rightarrow> ('w, 'p) bridge \<Rightarrow>
     (ScanEventDto list \<times> (api_error + unit)) \<times> ('w, 'p) bridge" where
  "run_scan env S L M tx debug handle config rescan_from accepts s =
     (let run = next_run s in
      case claim_and_scan env S L M tx accepts run handle config rescan_from (s\<lparr>next_run := run + 1\<rparr>) of
        ((calls, outcome), s) \<Rightarrow>
          let s = set_cell (Stopped_Token run) s in
          (case outcome of
             Inr terminal \<Rightarrow> ((calls @ [terminal], Inr ()), s)
           | Inl e \<Rightarrow>
               (case scan_failure debug e of
                  (message, error) \<Rightarrow> ((calls @ [Error message], Inl error), s))))"

definition start_scan_with_handler ::
  "('w, 'p) environment \<Rightarrow>
     ('w, 'c, 'a, ('i, 'h, 't, 'addr) ProcessingEvent, 'd, 'tx, 'z) scanner_lib_scheme \<Rightarrow>
     ('w, 'c, 'a, 'b) accounts_lib_scheme \<Rightarrow> ('w, 'p, 'c, 'a, 'm) minotari_scheme \<Rightarrow>
     ('i, 'h, 't, 'addr) tx_map \<Rightarrow> (api_error \<Rightarrow> rstring) \<Rightarrow> ScanHandle \<Rightarrow> ScanConfiguration \<Rightarrow>
     sink \<Rightarrow> ('w, 'p) bridge \<Rightarrow> (ScanEventDto list \<times> (api_error + unit)) \<times> ('w, 'p) bridge" where
  "start_scan_with_handler env S L M tx debug handle config event_callback =
     run_scan env S L M tx debug handle config None event_callback"

definition rescan_with_handler ::
  "('w, 'p) environment \<Rightarrow>
     ('w, 'c, 'a, ('i, 'h, 't, 'addr) ProcessingEvent, 'd, 'tx, 'z) scanner_lib_scheme \<Rightarrow>
     ('w, 'c, 'a, 'b) accounts_lib_scheme \<Rightarrow> ('w, 'p, 'c, 'a, 'm) minotari_scheme \<Rightarrow>
     ('i, 'h, 't, 'addr) tx_map \<Rightarrow> (api_error \<Rightarrow> rstring) \<Rightarrow> ScanHandle \<Rightarrow> u64 \<Rightarrow> ScanConfiguration \<Rightarrow>
     sink \<Rightarrow> ('w, 'p) bridge \<Rightarrow> (ScanEventDto list \<times> (api_error + unit)) \<times> ('w, 'p) bridge" where
  "rescan_with_handler env S L M tx debug handle from_height config event_callback =
     run_scan env S L M tx debug handle config (Some from_height) event_callback"

text \<open>
  The two functions Dart calls: the callback adds to the Dart stream, \<open>sink_add\<close>, whose error
  only tells the forwarder that the stream is closed.
\<close>

definition stream_callback :: "(ScanEventDto list \<Rightarrow> ScanEventDto \<Rightarrow> rstring + unit) \<Rightarrow> sink" where
  "stream_callback sink_add before event =
     is_ok (map_err (\<lambda>e. Wallet_Err (scan_error e)) (sink_add before event))"

definition start_scan ::
  "('w, 'p) environment \<Rightarrow>
     ('w, 'c, 'a, ('i, 'h, 't, 'addr) ProcessingEvent, 'd, 'tx, 'z) scanner_lib_scheme \<Rightarrow>
     ('w, 'c, 'a, 'b) accounts_lib_scheme \<Rightarrow> ('w, 'p, 'c, 'a, 'm) minotari_scheme \<Rightarrow>
     ('i, 'h, 't, 'addr) tx_map \<Rightarrow> (api_error \<Rightarrow> rstring) \<Rightarrow>
     (ScanEventDto list \<Rightarrow> ScanEventDto \<Rightarrow> rstring + unit) \<Rightarrow> ScanHandle \<Rightarrow> ScanConfiguration \<Rightarrow>
     ('w, 'p) bridge \<Rightarrow> (ScanEventDto list \<times> (api_error + unit)) \<times> ('w, 'p) bridge" where
  "start_scan env S L M tx debug sink_add handle config =
     start_scan_with_handler env S L M tx debug handle config (stream_callback sink_add)"

definition rescan ::
  "('w, 'p) environment \<Rightarrow>
     ('w, 'c, 'a, ('i, 'h, 't, 'addr) ProcessingEvent, 'd, 'tx, 'z) scanner_lib_scheme \<Rightarrow>
     ('w, 'c, 'a, 'b) accounts_lib_scheme \<Rightarrow> ('w, 'p, 'c, 'a, 'm) minotari_scheme \<Rightarrow>
     ('i, 'h, 't, 'addr) tx_map \<Rightarrow> (api_error \<Rightarrow> rstring) \<Rightarrow>
     (ScanEventDto list \<Rightarrow> ScanEventDto \<Rightarrow> rstring + unit) \<Rightarrow> ScanHandle \<Rightarrow> u64 \<Rightarrow> ScanConfiguration \<Rightarrow>
     ('w, 'p) bridge \<Rightarrow> (ScanEventDto list \<times> (api_error + unit)) \<times> ('w, 'p) bridge" where
  "rescan env S L M tx debug sink_add handle from_height config =
     rescan_with_handler env S L M tx debug handle from_height config (stream_callback sink_add)"

section \<open>The forwarder delivers in order\<close>

text \<open>
  The specification: give the events to the sink one by one until it refuses one; whether it
  did.
\<close>

fun deliver :: "sink \<Rightarrow> ScanEventDto list \<Rightarrow> ScanEventDto list \<Rightarrow> ScanEventDto list \<times> bool" where
  "deliver accepts before [] = (before, False)"
| "deliver accepts before (e # es) =
     (if accepts before e then deliver accepts (before @ [e]) es else (before @ [e], True))"

definition last_opt :: "'x list \<Rightarrow> 'x option" where
  "last_opt xs = (if xs = [] then None else Some (last xs))"

lemma forward_events:
  fixes tx :: "('i, 'h, 't, 'addr) tx_map"
  defines "dtos \<equiv> \<lambda>events. List.map_filter (map_processing_event tx) events"
  shows "fold (forward_event tx accepts) events f =
    (let plain = filter (\<lambda>e. \<not> is_terminal e) (dtos events);
         ended = filter is_terminal (dtos events);
         out = (if fw_sink_open f then deliver accepts (fw_calls f) plain else (fw_calls f, False))
     in f\<lparr>fw_terminal := (if ended = [] then fw_terminal f else Some (last ended)),
          fw_sink_open := fw_sink_open f \<and> \<not> snd out,
          fw_calls := fst out, fw_cancelled := fw_cancelled f \<or> snd out\<rparr>)"
proof (induction events arbitrary: f)
  case Nil
  then show ?case by (simp add: dtos_def map_filter_simps)
next
  case (Cons event events)
  show ?case
  proof (cases "map_processing_event tx event")
    case None
    with Cons [of f] show ?thesis by (simp add: dtos_def map_filter_simps forward_event_def)
  next
    case (Some dto)
    show ?thesis
    proof (cases "is_terminal dto")
      case True
      with Cons [of "f\<lparr>fw_terminal := Some dto\<rparr>"] Some show ?thesis
        by (simp add: dtos_def map_filter_simps forward_event_def Let_def)
    next
      case False
      with Cons [of "forward_event tx accepts event f"] Some show ?thesis
        by (simp add: dtos_def map_filter_simps forward_event_def Let_def)
    qed
  qed
qed

lemma run_forwarder_eq:
  "run_forwarder tx accepts events =
    (let dtos = List.map_filter (map_processing_event tx) events;
         out = deliver accepts [] (filter (\<lambda>e. \<not> is_terminal e) dtos)
     in \<lparr>fw_terminal = last_opt (filter is_terminal dtos), fw_sink_open = \<not> snd out,
         fw_calls = fst out, fw_cancelled = snd out\<rparr>)"
  by (simp add: run_forwarder_def forward_events Let_def last_opt_def)

lemma deliver_prefix: "\<exists>rest. before @ es = fst (deliver accepts before es) @ rest"
  by (induction accepts before es rule: deliver.induct) auto

lemma map_status_not_error:
  "map_status_event status = Some dto \<Longrightarrow> dto \<noteq> Error m \<and> dto \<noteq> Superseded"
  by (cases status) auto

lemma map_event_not_error:
  "map_processing_event tx event = Some dto \<Longrightarrow> dto \<noteq> Error m \<and> dto \<noteq> Superseded"
  using map_status_not_error by (cases event) auto

lemma forwarder_calls_plain: "filter is_terminal (fw_calls (run_forwarder tx accepts events)) = []"
proof -
  let ?plain = "filter (\<lambda>e. \<not> is_terminal e) (List.map_filter (map_processing_event tx) events)"
  obtain rest where "?plain = fst (deliver accepts [] ?plain) @ rest"
    using deliver_prefix [of "[]" ?plain accepts] by auto
  moreover have "filter is_terminal ?plain = []" by simp
  ultimately have "filter is_terminal (fst (deliver accepts [] ?plain) @ rest) = []" by metis
  then show ?thesis by (simp add: run_forwarder_eq Let_def)
qed

lemma forwarder_terminal:
  assumes "fw_terminal (run_forwarder tx accepts events) = Some t"
  shows "is_terminal t" "t \<noteq> Error m" "t \<noteq> Superseded"
proof -
  from assms have t: "t \<in> set (filter is_terminal (List.map_filter (map_processing_event tx) events))"
    by (auto simp only: run_forwarder_eq Let_def last_opt_def forwarder.select_convs
        split: if_splits intro: last_in_set)
  then show "is_terminal t" by simp
  from t obtain event where "map_processing_event tx event = Some t"
    by (auto simp: List.map_filter_def)
  from map_event_not_error [OF this] show "t \<noteq> Error m" "t \<noteq> Superseded" by simp_all
qed

section \<open>Every stream ends with one terminal event\<close>

fun well_ended :: "ScanEventDto list \<times> (api_error + ScanEventDto) \<Rightarrow> bool" where
  "well_ended (calls, Inl e) \<longleftrightarrow> filter is_terminal calls = []"
| "well_ended (calls, Inr t) \<longleftrightarrow> filter is_terminal calls = [] \<and> is_terminal t \<and> (\<forall>m. t \<noteq> Error m)"

definition well_run :: "('w, 'p) scan_proc \<Rightarrow> bool" where
  "well_run f \<longleftrightarrow> (\<forall>s. well_ended (fst (f s)))"

named_theorems well_run_intros \<open>rules for \<open>well_run\<close>\<close>

lemma well_runI: "(\<And>s r t. f s = (r, t) \<Longrightarrow> well_ended r) \<Longrightarrow> well_run f"
  unfolding well_run_def by (metis prod.collapse)

lemma well_runD: "well_run f \<Longrightarrow> f s = (r, t) \<Longrightarrow> well_ended r"
  unfolding well_run_def by (metis fst_conv)

lemma well_run_before_events [well_run_intros]:
  assumes "\<And>x. well_run (f x)"
  shows "well_run (before_events m f)"
proof (rule well_runI)
  fix s r t
  assume "before_events m f s = (r, t)"
  then show "well_ended r"
    using assms by (auto simp: before_events_def split: prod.splits sum.splits dest: well_runD)
qed

lemma well_ended_stopped [simp]: "well_ended (fst (end_scan (Inr (stopped_event b)) s))"
  by (simp add: end_scan_def stopped_event_def)

lemma well_run_end_scan [well_run_intros]:
  "well_run (end_scan (Inl e))" "well_run (end_scan (Inr Cancelled))"
  "well_run (end_scan (Inr (stopped_event b)))"
  by (simp_all add: well_run_def end_scan_def stopped_event_def)

lemma forwarder_well_ended:
  fixes accepts :: sink and tx :: "('i, 'h, 't, 'addr) tx_map"
    and events :: "('i, 'h, 't, 'addr) ProcessingEvent list"
  defines "f \<equiv> run_forwarder tx accepts events"
  shows "well_ended (fw_calls f, Inl e)" "well_ended (fw_calls f, Inr Superseded)"
    "well_ended (fw_calls f, Inr (case fw_terminal f of Some terminal \<Rightarrow> terminal | None \<Rightarrow> Cancelled))"
  using forwarder_calls_plain [of tx accepts events] forwarder_terminal(1,2) [of tx accepts events]
  by (auto simp: f_def split: option.split)

lemma well_run_run_scanner [well_run_intros]:
  "well_run (run_scanner env S tx accepts config path token superseded)"
proof (rule well_runI)
  fix s r t
  assume run: "run_scanner env S tx accepts config path token superseded s = (r, t)"
  obtain events result u where
    "on_world (run_with_events S (build_scanner S config path token)) s = ((events, result), u)"
    by (metis prod.collapse)
  then have "\<exists>evs. \<exists>outcome \<in> {Inl e | e. True} \<union> {Inr Superseded, Inr (case fw_terminal
      (run_forwarder tx accepts evs) of Some terminal \<Rightarrow> terminal | None \<Rightarrow> Cancelled)}.
      r = (fw_calls (run_forwarder tx accepts evs), outcome)"
    using run by (cases result) (auto simp: run_scanner_def Let_def split: if_splits)
  then obtain evs where "\<exists>e. r = (fw_calls (run_forwarder tx accepts evs), Inl e) \<or>
      r = (fw_calls (run_forwarder tx accepts evs), Inr Superseded) \<or>
      r = (fw_calls (run_forwarder tx accepts evs), Inr (case fw_terminal
        (run_forwarder tx accepts evs) of Some terminal \<Rightarrow> terminal | None \<Rightarrow> Cancelled))"
    by blast
  then show "well_ended r"
    using forwarder_well_ended [where accepts = accepts and tx = tx and events = evs]
    by (elim exE disjE) simp_all
qed

lemma well_run_if [well_run_intros]:
  "(\<And>s. well_run (f s)) \<Longrightarrow> (\<And>s. well_run (g s)) \<Longrightarrow> well_run (\<lambda>s. if b s then f s s else g s s)"
  by (simp add: well_run_def)

lemma well_run_scan_in_slot [well_run_intros]:
  "well_run (scan_in_slot env S L M tx accepts config path rescan_from token superseded)"
proof -
  note scanner = well_run_run_scanner [of env S tx accepts config path token superseded]
  have "well_run (before_events (rollback_account env S L M w h) (\<lambda>_ s.
      if is_set token s then end_scan (Inr (stopped_event (is_set superseded s))) s
      else run_scanner env S tx accepts config path token superseded s))" for w h
    by (intro well_run_intros)
  then have after: "well_ended (fst (before_events (rollback_account env S L M w h) (\<lambda>_ s.
      if is_set token s then end_scan (Inr (stopped_event (is_set superseded s))) s
      else run_scanner env S tx accepts config path token superseded s) s))" for w h s
    by (simp add: well_run_def)
  show ?thesis
    unfolding well_run_def scan_in_slot_def Let_def
    using after scanner by (auto simp: well_run_def split: option.split)
qed

text \<open>How \<open>scan\<close> leaves its slot and reports a lost session.\<close>

lemma well_run_leave:
  assumes "well_run f"
  shows "well_run (\<lambda>s. case f s of
      ((calls, outcome), s) \<Rightarrow>
        let s = g s in
        (case outcome of
           Inr terminal \<Rightarrow> ((calls, Inr terminal), s)
         | Inl e \<Rightarrow> (case h s of (gone, s) \<Rightarrow> ((calls, Inl (if gone then e' else e)), s))))"
proof (rule well_runI)
  fix s r t
  obtain calls outcome u where f: "f s = ((calls, outcome), u)" by (metis prod.collapse)
  have "well_ended (calls, outcome)" by (rule well_runD [OF assms f])
  moreover assume "(case f s of ((calls, outcome), s) \<Rightarrow>
        let s = g s in
        (case outcome of
           Inr terminal \<Rightarrow> ((calls, Inr terminal), s)
         | Inl e \<Rightarrow> (case h s of (gone, s) \<Rightarrow> ((calls, Inl (if gone then e' else e)), s)))) = (r, t)"
  ultimately show "well_ended r"
    using f by (cases outcome; cases "h (g u)") auto
qed

lemma well_run_case_option [well_run_intros]:
  "well_run f \<Longrightarrow> (\<And>y. well_run (g y)) \<Longrightarrow> well_run (case x of None \<Rightarrow> f | Some y \<Rightarrow> g y)"
  by (cases x) auto

lemma well_run_scan [well_run_intros]: "well_run (scan env S L M tx accepts run sid config rescan_from)"
  unfolding scan_def by (intro well_run_intros well_run_leave)

lemma well_run_claim_and_scan [well_run_intros]:
  "well_run (claim_and_scan env S L M tx accepts run handle config rescan_from)"
proof -
  note scan = well_run_scan [of env S L M tx accepts run "handle_id handle" config rescan_from]
  have "well_run (\<lambda>s. case scan env S L M tx accepts run (handle_id handle) config rescan_from s of
                  (result, s) \<Rightarrow> (result, leave_starting (handle_id handle) s))"
  proof (rule well_runI)
    fix s r t
    assume "(case scan env S L M tx accepts run (handle_id handle) config rescan_from s of
        (result, s) \<Rightarrow> (result, leave_starting (handle_id handle) s)) = (r, t)"
    then show "well_ended r" by (auto split: prod.splits dest: well_runD [OF scan])
  qed
  then show ?thesis
    unfolding claim_and_scan_def by (auto intro!: well_run_intros)
qed

lemma run_scan_one_terminal:
  "\<exists>calls terminal r t.
     run_scan env S L M tx debug handle config rescan_from accepts s = ((calls @ [terminal], r), t) \<and>
     is_terminal terminal \<and> filter is_terminal calls = [] \<and>
     ((\<exists>m. terminal = Error m) \<longleftrightarrow> \<not> is_ok r)"
proof -
  obtain calls outcome u where run: "claim_and_scan env S L M tx accepts (next_run s) handle config
      rescan_from (s\<lparr>next_run := next_run s + 1\<rparr>) = ((calls, outcome), u)"
    by (metis prod.collapse)
  have "well_ended (calls, outcome)" by (rule well_runD [OF well_run_claim_and_scan run])
  then show ?thesis
    using run by (cases outcome) (auto simp: run_scan_def Let_def scan_failure_def)
qed

text \<open>
  C12 (safety): every stream ends with exactly one terminal event. Whatever the handle, the
  configuration, the scanner, the sink and the other tasks do: the last call of the callback
  is a terminal event, no call before it is, and it is \<open>Error\<close> exactly when the function
  returns an error.
\<close>

theorem scan_stream_one_terminal:
  "\<exists>calls terminal r t.
     run_scan env S L M tx debug handle config rescan_from accepts s = ((calls @ [terminal], r), t) \<and>
     is_terminal terminal \<and> filter is_terminal calls = [] \<and>
     ((\<exists>m. terminal = Error m) \<longleftrightarrow> \<not> is_ok r)"
  by (rule run_scan_one_terminal)

text \<open>
  C13 (equivalence): the forwarder is the one-by-one delivery of the scanner's non-terminal
  events, in order, until the sink refuses one; it cancels the scan exactly when that
  happens; and it reads on, so it returns the last terminal event the scanner sent even
  then.
\<close>

theorem forwarder_delivers_in_order:
  "let f = run_forwarder tx accepts events;
       dtos = List.map_filter (map_processing_event tx) events
   in (fw_calls f, fw_cancelled f) = deliver accepts [] (filter (\<lambda>e. \<not> is_terminal e) dtos) \<and>
      fw_terminal f = last_opt (filter is_terminal dtos)"
  by (simp add: run_forwarder_eq Let_def)

section \<open>Superseded scans say so\<close>

text \<open>
  A scan whose slot was taken reports \<open>Superseded\<close>, and only such a scan does:
  wherever it was stopped (waiting for the scan it replaced, after its rollback, or while
  the scanner ran), a scan that ends without an error ends with \<open>Superseded\<close> exactly when the
  newer scan had set its flag.
\<close>

theorem superseded_reported:
  assumes "scan_in_slot env S L M tx accepts config path rescan_from (Token run) (Superseded_Flag run) s =
    ((calls, Inr terminal), t)"
  shows "terminal = Superseded \<longleftrightarrow> is_set (Superseded_Flag run) t"
proof -
  have stopped: "terminal = Superseded \<longleftrightarrow> is_set (Superseded_Flag run) t"
    if "end_scan (Inr (stopped_event (is_set (Superseded_Flag run) u))) u = ((calls, Inr terminal), t)" for u
    using that by (auto simp: end_scan_def stopped_event_def split: if_splits)
  have scanner: "terminal = Superseded \<longleftrightarrow> is_set (Superseded_Flag run) t"
    if r: "run_scanner env S tx accepts config path (Token run) (Superseded_Flag run) u =
      ((calls, Inr terminal), t)" for u
  proof -
    obtain events result v where
      on: "on_world (run_with_events S (build_scanner S config path (Token run))) u = ((events, result), v)"
      by (metis prod.collapse)
    have plain: "(case fw_terminal (run_forwarder tx accepts evs) of Some x \<Rightarrow> x | None \<Rightarrow> Cancelled)
        \<noteq> Superseded" for evs
      using forwarder_terminal(3) [of tx accepts evs] by (auto split: option.split)
    show ?thesis
      using r on plain
      by (cases result) (auto simp: run_scanner_def Let_def is_set_def split: if_splits)
  qed
  have "(\<exists>u. end_scan (Inr (stopped_event (is_set (Superseded_Flag run) u))) u = ((calls, Inr terminal), t)) \<or>
      (\<exists>u. run_scanner env S tx accepts config path (Token run) (Superseded_Flag run) u =
        ((calls, Inr terminal), t))"
    using assms unfolding scan_in_slot_def Let_def before_events_def
    by (auto split: if_splits option.splits prod.splits sum.splits)
  then show ?thesis using stopped scanner by blast
qed

section \<open>A refused scan leaves the current one alone\<close>

lemma get_db_connection_has:
  assumes "session_laws M has" "get_db_connection M s = (r, t)"
  shows "has (world t) = has (world s)"
  using assms(2) laws_other_calls(1) [OF assms(1)]
  by (auto simp: get_db_connection_def get_db_pool_def init_pool_def get_conn_def on_world_def
      proc_simps split: option.splits sum.splits prod.splits if_splits) (metis snd_conv)+

text \<open>The reasons for which a scan is refused before it takes the slot.\<close>

definition scan_refused ::
  "('w \<Rightarrow> rstring \<Rightarrow> bool) \<Rightarrow> ScanConfiguration \<Rightarrow> u64 option \<Rightarrow> ('w, 'p) bridge \<Rightarrow> bool" where
  "scan_refused has config rescan_from s \<longleftrightarrow>
     \<not> has (world s) (cfg_wallet_name config) \<or>
     (case rescan_from of None \<Rightarrow> False | Some h \<Rightarrow> 2 ^ 63 \<le> unat h)"

lemma refused_scan_fails:
  assumes "session_laws M has" "scan_refused has config rescan_from s"
  shows "\<exists>e t. scan env S L M tx accepts run sid config rescan_from s = (([], Inl e), t) \<and> same_globals s t"
proof -
  obtain r1 s1 where path: "get_db_path s = (r1, s1)" by (cases "get_db_path s")
  have "world_only (get_db_path :: ('a, 'b, rstring) bridge_api)" by (intro world_only_intros)
  from world_onlyD [OF this path] have same1: "same_globals s s1" .
  have w1: "world s1 = world s"
    using path by (auto simp: get_db_path_def proc_simps split: if_splits option.splits)
  obtain r2 s2 where conn: "get_db_connection M s1 = (r2, s2)" by (cases "get_db_connection M s1")
  have "world_only (get_db_connection M)" by (intro world_only_intros)
  from world_onlyD [OF this conn] same1 have same2: "same_globals s s2" by (metis same_globals_trans)
  have has2: "has (world s2) = has (world s)"
    using get_db_connection_has [OF assms(1) conn] w1 by simp
  show ?thesis
  proof (cases r1)
    case (Inl e)
    with path same1 show ?thesis by (simp add: scan_def before_events_def)
  next
    case (Inr p)
    note r1 = this
    show ?thesis
    proof (cases r2)
      case (Inl e)
      with path conn r1 same2 show ?thesis by (simp add: scan_def before_events_def)
    next
      case (Inr c)
      obtain r3 s3 where acc: "unlocked_account M c (cfg_wallet_name config) s2 = (r3, s3)"
        by (cases "unlocked_account M c (cfg_wallet_name config) s2")
      have s3: "s3 = s2"
        using acc by (auto simp: unlocked_account_def is_unlocked_def proc_simps split: sum.splits if_splits)
      show ?thesis
      proof (cases r3)
        case (Inl e)
        with path conn r1 Inr acc s3 same2 show ?thesis by (simp add: scan_def before_events_def)
      next
        case (Inr account)
        have "has (world s2) (cfg_wallet_name config)"
          using acc Inr laws_is_unlocked [OF assms(1)]
          by (auto simp: unlocked_account_def is_unlocked_def proc_simps map_err_def
              split: sum.splits option.splits if_splits)
        with has2 assms(2) obtain h where "rescan_from = Some h" "2 ^ 63 \<le> unat h"
          by (auto simp: scan_refused_def split: option.splits)
        then show ?thesis
          using path conn r1 \<open>r2 = Inr c\<close> acc Inr s3 same2
          by (simp add: scan_def before_events_def check_rescan_height_def proc_simps)
      qed
    qed
  qed
qed

lemma claim_handle_frame:
  assumes "claim_handle h s = (r, t)"
  shows "running (SCAN_STATE t) = running (SCAN_STATE s) \<and> cells t = cells s \<and> world t = world s \<and>
    next_run t = next_run s"
  using assms by (auto simp: claim_handle_def proc_simps Let_def split: if_splits)

lemma refused_scan_quiet:
  assumes "session_laws M has" and "scan_refused has config rescan_from s"
    and "run_scan env S L M tx debug handle config rescan_from accepts s = ((events, r), t)"
  shows "length events = 1 \<and> running (SCAN_STATE t) = running (SCAN_STATE s) \<and>
    cells t = insert (Stopped_Token (next_run s)) (cells s) \<and> (is_ok r \<longrightarrow> events = [Cancelled])"
proof -
  let ?s = "s\<lparr>next_run := next_run s + 1\<rparr>"
  have "\<exists>outc u. claim_and_scan env S L M tx accepts (next_run s) handle config rescan_from ?s = (([], outc), u) \<and>
      (is_ok outc \<longrightarrow> outc = Inr Cancelled) \<and>
      running (SCAN_STATE u) = running (SCAN_STATE s) \<and> cells u = cells s"
  proof (cases "handle_wallet handle \<noteq> cfg_wallet_name config")
    case True
    then show ?thesis by (simp add: claim_and_scan_def end_scan_def)
  next
    case False
    obtain rc s1 where claim: "claim_handle handle ?s = (rc, s1)" by (cases "claim_handle handle ?s")
    note frame = claim_handle_frame [OF claim]
    show ?thesis
    proof (cases rc)
      case (Inl e)
      with False claim frame show ?thesis by (simp add: claim_and_scan_def before_events_def)
    next
      case (Inr stopped)
      have "scan_refused has config rescan_from s1"
        using assms(2) frame by (simp add: scan_refused_def)
      from refused_scan_fails [OF assms(1) this]
      obtain e u where u: "scan env S L M tx accepts (next_run s) (handle_id handle) config rescan_from s1 =
          (([], Inl e), u)" "same_globals s1 u"
        by blast
      show ?thesis
      proof (cases stopped)
        case True
        with False claim Inr frame show ?thesis
          by (simp add: claim_and_scan_def before_events_def end_scan_def)
      next
        case nstop: False
        have "running (SCAN_STATE (leave_starting (handle_id handle) u)) = running (SCAN_STATE s)"
          "cells (leave_starting (handle_id handle) u) = cells s"
          using same_globalsD [OF u(2)] frame by (simp_all add: leave_starting_def)
        with False claim Inr nstop u show ?thesis
          by (simp add: claim_and_scan_def before_events_def)
      qed
    qed
  qed
  then obtain outc u where "claim_and_scan env S L M tx accepts (next_run s) handle config rescan_from ?s =
      (([], outc), u)" "is_ok outc \<longrightarrow> outc = Inr Cancelled"
      "running (SCAN_STATE u) = running (SCAN_STATE s)" "cells u = cells s"
    by blast
  with assms(3) show ?thesis
    by (cases outc) (auto simp: run_scan_def Let_def scan_failure_def)
qed

text \<open>
  A scan that is refused leaves the running scan alone. When the wallet is
  locked or the rescan height is above \<open>i64::MAX\<close>, the stream gets one event, no slot changes,
  no token is cancelled or flag set (only the refused run's own stopped token), and it is an
  error, unless the handle had been stopped before, which ends as \<open>Cancelled\<close>.
\<close>

theorem refused_scan_leaves_slots:
  assumes "session_laws M has" and "scan_refused has config rescan_from s"
    and "run_scan env S L M tx debug handle config rescan_from accepts s = ((events, r), t)"
  shows "length events = 1 \<and> running (SCAN_STATE t) = running (SCAN_STATE s) \<and>
    cells t = insert (Stopped_Token (next_run s)) (cells s) \<and> (is_ok r \<longrightarrow> events = [Cancelled])"
  using assms by (rule refused_scan_quiet)

section \<open>An example\<close>

text \<open>A scanner that sends two events and ends well, and a configuration for wallet \<open>w\<close>.\<close>

definition example_scanner ::
  "(rstring set, unit, unit, (unit, unit, unit, Lib_Network \<times> rstring) ProcessingEvent, nat, unit) scanner_lib" where
  "example_scanner =
     \<lparr>run_with_events = (\<lambda>_ wd. (([ScanStatus (SE_Started 1 5), ScanStatus (SE_Completed 1 9 4)], Inr ()), wd)),
      deadline_in = (\<lambda>_. None), available_parallelism = Some 4,
      tx_begin_immediate = (\<lambda>_ _. Inr ()), tx_get_account_by_name = (\<lambda>_ _. Inr (Some ())),
      tx_rollback_from_height = (\<lambda>_ _ _. Inr ()), tx_commit = (\<lambda>_ wd. (Inr (), wd))\<rparr>"

definition example_config :: ScanConfiguration where
  "example_config =
     \<lparr>cfg_wallet_name = lit ''w'', cfg_base_url = [], cfg_batch_size = 10, cfg_continuous = False,
      cfg_poll_interval_seconds = 1, cfg_required_confirmations = 3, cfg_priority = Foreground,
      cfg_processing_threads = None, cfg_event_buffer = None, cfg_deadline_seconds = None,
      cfg_max_blocks = None\<rparr>"

abbreviation example_tx ::
  "(unit, unit, unit, Lib_Network \<times> rstring) DisplayedTransaction \<Rightarrow> DisplayedTransactionDto" where
  "example_tx \<equiv> displayed_transaction_from example_address_lib example_ledger"

lemma example_unlocked_connection:
  "get_db_connection example_minotari example_unlocked = (Inr (), example_unlocked)"
  by (simp add: get_db_connection_def get_db_pool_def get_conn_def example_unlocked_def
      init_bridge_def proc_simps)

theorem superseded_reported_witness:
  "\<exists>t. scan_in_slot alone example_scanner example_ledger example_minotari example_tx (\<lambda>_ _. True)
      example_config (lit ''db'') None (Token 0) (Superseded_Flag 0) example_unlocked =
      (([Started 1 5], Inr (Completed 1 9 4)), t) \<and> \<not> is_set (Superseded_Flag 0) t"
proof -
  obtain t where run: "scan_in_slot alone example_scanner example_ledger example_minotari example_tx
      (\<lambda>_ _. True) example_config (lit ''db'') None (Token 0) (Superseded_Flag 0) example_unlocked =
      (([Started 1 5], Inr (Completed 1 9 4)), t)"
  proof -
    have "\<not> is_set (Token 0) example_unlocked" "\<not> is_set (Superseded_Flag 0) example_unlocked"
      by (simp_all add: example_unlocked_def init_bridge_def is_set_def)
    then show thesis
      using that
      by (simp add: scan_in_slot_def example_unlocked_connection release_expired_reservations_def
          run_scanner_def example_scanner_def on_world_def run_forwarder_def forward_event_def
          is_set_def Let_def)
  qed
  from superseded_reported [OF run] run show ?thesis by auto
qed

theorem refused_scan_leaves_slots_witness:
  "\<exists>events r t. run_scan alone example_scanner example_ledger example_minotari example_tx to_string
      \<lparr>handle_wallet = lit ''w'', handle_id = 0\<rparr> example_config (Some 9223372036854775808) (\<lambda>_ _. True) example_unlocked =
      ((events, r), t) \<and> length events = 1 \<and>
    running (SCAN_STATE t) = running (SCAN_STATE example_unlocked) \<and>
    cells t = {Stopped_Token 0}"
proof -
  obtain events r t where run: "run_scan alone example_scanner example_ledger example_minotari example_tx
      to_string \<lparr>handle_wallet = lit ''w'', handle_id = 0\<rparr> example_config (Some 9223372036854775808) (\<lambda>_ _. True)
      example_unlocked = ((events, r), t)"
    by (metis prod.collapse)
  have "scan_refused (\<lambda>wd w. w \<in> wd) example_config (Some 9223372036854775808) example_unlocked"
    by (simp add: scan_refused_def)
  from refused_scan_leaves_slots [OF example_session_laws this run] run show ?thesis
    by (auto simp: example_unlocked_def init_bridge_def)
qed

end
