(* ===== verification/Send.thy ===== *)
theory Send
  imports Transactions Text
begin

text \<open>
  Sending (\<open>src/api/send_transaction.rs\<close>): the validation of a send, the reservation of its
  inputs, signing, the gate before the broadcast, the release of the reservation on every
  failure, and giving up a stalled send. minotari's sender and tari's offline signing are
  parameters.
\<close>

section \<open>What the libraries provide\<close>

text \<open>
  \<open>'x\<close> is a \<open>TransactionSender\<close>, \<open>'u\<close> an unsigned payload, \<open>'su\<close> its summary, \<open>'cf\<close> a
  confirmation, \<open>'cp\<close> the confirmed payload, \<open>'cc\<close> the consensus constants and \<open>'sg\<close> a signed
  transaction. The starts return the sender with the pending row they recorded.
\<close>

record 'addr Recipient =
  rc_address :: 'addr
  rc_amount :: u64
  rc_payment_id :: "rstring option"

record ('i, 'h, 't, 'addr) FinalizedSend =
  fs_displayed :: "('i, 'h, 't, 'addr) DisplayedTransaction"
  fs_accepted_by_node :: bool
  fs_note :: "rstring option"
  fs_node_reason :: "rstring option"

datatype Abandon_Send_Error = NotStalled | Abandon_Other rstring

record ('w, 'p, 'c, 'a, 'i, 'h, 't, 'addr, 'wt, 'km, 'x, 'u, 'su, 'cf, 'cp, 'cc, 'sg) send_lib =
  decrypt_wallet_type :: "'a \<Rightarrow> rstring \<Rightarrow> 'w \<Rightarrow> rstring + 'wt"
  is_view_wallet :: "'wt \<Rightarrow> bool"
  session_key_manager :: "'wt \<Rightarrow> rstring + 'km"
  sender_new :: "'p \<Rightarrow> rstring \<Rightarrow> rstring \<Rightarrow> Lib_Network \<Rightarrow> u64 \<Rightarrow> 'w \<Rightarrow> rstring + 'x"
  set_fee_per_gram :: "u64 \<Rightarrow> 'x \<Rightarrow> 'x"
  sender_pool :: "'x \<Rightarrow> 'p"
  pending_id :: "'x \<Rightarrow> rstring"
  new_uuid :: "'w \<Rightarrow> rstring \<times> 'w"
  start_new_send_all_transaction ::
    "'x \<Rightarrow> rstring \<Rightarrow> 'addr \<Rightarrow> rstring option \<Rightarrow> u64 \<Rightarrow> 'w \<Rightarrow> (rstring + 'u \<times> 'x) \<times> 'w"
  start_new_transaction_multi ::
    "'x \<Rightarrow> rstring \<Rightarrow> 'addr Recipient list \<Rightarrow> u64 \<Rightarrow> 'w \<Rightarrow> (rstring + 'u \<times> 'x) \<times> 'w"
  payload_summary :: "'u \<Rightarrow> 'su"
  present_payload_summary :: "'su \<Rightarrow> rstring + 'cf"
  confirm_summary :: "'su \<Rightarrow> 'cf \<Rightarrow> rstring + 'cp"
  consensus_constants :: "Lib_Network \<Rightarrow> 'cc"
  sign_locked_transaction :: "'km \<Rightarrow> 'cc \<Rightarrow> Lib_Network \<Rightarrow> 'cp \<Rightarrow> rstring + 'sg"
  finalize_transaction_and_broadcast ::
    "'x \<Rightarrow> 'sg \<Rightarrow> rstring \<Rightarrow> 'w \<Rightarrow> (rstring + ('i, 'h, 't, 'addr) FinalizedSend) \<times> 'w"
  lib_abandon_send ::
    "'c \<Rightarrow> i64 \<Rightarrow> u64 \<Rightarrow> bool \<Rightarrow> bool \<Rightarrow> 'w \<Rightarrow> (Abandon_Send_Error + rstring) \<times> 'w"

section \<open>The inputs, the stages and the result\<close>

record SendRecipient =
  sr_address :: rstring
  sr_amount :: u64
  sr_payment_id :: "rstring option"

record MultiSendTransactionDetails =
  sd_network :: "TariNetwork option"
  sd_base_url :: "rstring option"
  sd_wallet_name :: rstring
  sd_recipients :: "SendRecipient list"
  sd_send_all :: bool
  sd_confirmation_window :: "u64 option"

record 'addr ValidatedInputs =
  vi_network :: Lib_Network
  vi_recipients :: "'addr Recipient list"
  vi_confirmations :: u64

datatype TransactionStage =
    Initializing
  | ValidatingInput
  | ConnectingToNetwork
  | ConstructingTransaction
  | SigningKeyGeneration
  | SigningTransaction
  | Broadcasting
  | Broadcasted

record SendTransactionEvent =
  stage :: TransactionStage
  details :: rstring

record SendResultDto =
  sent_transaction :: DisplayedTransactionDto
  sent_accepted_by_node :: bool
  sent_note :: "rstring option"
  sent_node_reason :: "rstring option"

definition send_result_from ::
  "('addr, 'm) address_lib_scheme \<Rightarrow> ('w, 'c, 'a, 'i, 'h, 't, 'addr, 'l) ledger_lib_scheme \<Rightarrow>
     ('i, 'h, 't, 'addr) FinalizedSend \<Rightarrow> SendResultDto" where
  "send_result_from A L sent =
     \<lparr>sent_transaction = displayed_transaction_from A L (fs_displayed sent),
      sent_accepted_by_node = fs_accepted_by_node sent,
      sent_note = fs_note sent,
      sent_node_reason = map_option strip_format_chars (fs_node_reason sent)\<rparr>"

fun validate_recipients ::
  "('addr, 'l) address_lib_scheme \<Rightarrow> Lib_Network \<Rightarrow> bool \<Rightarrow> SendRecipient list \<Rightarrow>
     wallet_error + 'addr Recipient list" where
  "validate_recipients A net send_all [] = Inr []"
| "validate_recipients A net send_all (r # rs) =
     res_then (validate_recipient A net (sr_address r) (sr_amount r) send_all) (\<lambda>address.
     res_then (validate_recipients A net send_all rs) (\<lambda>recipients.
       Inr (\<lparr>rc_address = address, rc_amount = sr_amount r, rc_payment_id = sr_payment_id r\<rparr> # recipients)))"

text \<open>\<open>len()\<close> of a list of recipients is below \<open>2 ^ 64\<close>.\<close>

definition validate_inputs ::
  "('addr, 'l) address_lib_scheme \<Rightarrow> MultiSendTransactionDetails \<Rightarrow> api_error + 'addr ValidatedInputs" where
  "validate_inputs A d =
     (let net = parse_network (sd_network d) in
      res_then (map_err Wallet_Err
          (validate_recipient_count (of_nat (length (sd_recipients d))) (sd_send_all d))) (\<lambda>_.
      res_then (map_err Wallet_Err (validate_recipients A net (sd_send_all d) (sd_recipients d))) (\<lambda>recipients.
        Inr \<lparr>vi_network = net, vi_recipients = recipients,
          vi_confirmations = case_option DEFAULT_CONFIRMATION_WINDOW id (sd_confirmation_window d)\<rparr>)))"

section \<open>The parts of a send\<close>

definition create_transaction_sender ::
  "('w, 'p, 'c, 'a, 'm) minotari_scheme \<Rightarrow>
     ('w, 'p, 'c, 'a, 'i, 'h, 't, 'addr, 'wt, 'km, 'x, 'u, 'su, 'cf, 'cp, 'cc, 'sg, 'z) send_lib_scheme \<Rightarrow>
     rstring \<Rightarrow> Lib_Network \<Rightarrow> u64 \<Rightarrow> ('w, 'p, 'x) bridge_api" where
  "create_transaction_sender M S wallet_name net window =
     and_then (map_err_proc (\<lambda>e. Wallet_Err (database (to_string e))) (get_db_pool M)) (\<lambda>db_pool s.
       case sender_new S db_pool wallet_name [] net window (world s) of
         Inl e \<Rightarrow> err (wallet e) s
       | Inr sender \<Rightarrow> ret (set_fee_per_gram S SEND_FEE_PER_GRAM sender) s)"

definition stored_key_manager ::
  "('w, 'p, 'c, 'a, 'm) minotari_scheme \<Rightarrow>
     ('w, 'p, 'c, 'a, 'i, 'h, 't, 'addr, 'wt, 'km, 'x, 'u, 'su, 'cf, 'cp, 'cc, 'sg, 'z) send_lib_scheme \<Rightarrow>
     rstring \<Rightarrow> ('w, 'p, 'km) bridge_api" where
  "stored_key_manager M S wallet_name =
     and_then (get_db_connection M) (\<lambda>conn.
     and_then (unlocked_account M conn wallet_name) (\<lambda>account.
     and_then (with_session M conn wallet_name (\<lambda>s.
         (map_err (\<lambda>e. Wallet_Err (wallet e)) (decrypt_wallet_type S account [] (world s)), s))) (\<lambda>wallet.
       if is_view_wallet S wallet then err (signing (lit ''View-only wallets cannot send''))
       else lift_res (map_err (\<lambda>e. Wallet_Err (Wallet e)) (session_key_manager S wallet)))))"

definition draw_uuid ::
  "('w, 'p, 'c, 'a, 'i, 'h, 't, 'addr, 'wt, 'km, 'x, 'u, 'su, 'cf, 'cp, 'cc, 'sg, 'z) send_lib_scheme \<Rightarrow>
     ('w, 'p, rstring) bridge_api" where
  "draw_uuid S s = (case new_uuid S (world s) of (key, wd) \<Rightarrow> (Inr key, s\<lparr>world := wd\<rparr>))"

definition build_unsigned_transaction ::
  "('w, 'p, 'c, 'a, 'i, 'h, 't, 'addr, 'wt, 'km, 'x, 'u, 'su, 'cf, 'cp, 'cc, 'sg, 'z) send_lib_scheme \<Rightarrow>
     'x \<Rightarrow> 'addr Recipient list \<Rightarrow> bool \<Rightarrow> ('w, 'p, rstring \<times> 'u \<times> 'x) bridge_api" where
  "build_unsigned_transaction S sender recipients send_all =
     (let started = map_err_proc (\<lambda>e. Wallet_Err (wallet (lit ''Failed to build transaction: '' @ e))) in
      and_then (draw_uuid S) (\<lambda>idempotency_key.
      and_then
        (if send_all then
           (if recipients = [] then err (wallet (lit ''A send-all pays exactly one recipient''))
            else let recipient = last recipients in
              started (on_world (start_new_send_all_transaction S sender idempotency_key
                (rc_address recipient) (rc_payment_id recipient) SECONDS_TO_LOCK_UTXO)))
         else started (on_world (start_new_transaction_multi S sender idempotency_key recipients
                SECONDS_TO_LOCK_UTXO))) (\<lambda>(tx, sender).
      ret (pending_id S sender, tx, sender))))"

definition release_send_reservation ::
  "('w, 'p, 'c, 'a, 'm) minotari_scheme \<Rightarrow> rstring \<Rightarrow> ('w, 'p) bridge \<Rightarrow> ('w, 'p) bridge" where
  "release_send_reservation M pending_transaction_id s =
     (case get_db_connection M s of
        (Inl _, s) \<Rightarrow> s
      | (Inr conn, s) \<Rightarrow>
          snd (on_world (expire_and_unlock_pending_transaction M conn pending_transaction_id) s))"

text \<open>The gate: any error reads as locked.\<close>

definition unlocked_in ::
  "('w, 'p, 'c, 'a, 'm) minotari_scheme \<Rightarrow> 'p \<Rightarrow> rstring \<Rightarrow> ('w, 'p) bridge \<Rightarrow> bool" where
  "unlocked_in M pool wallet_name s =
     (case pool_get M pool (world s) of
        Inl _ \<Rightarrow> False
      | Inr conn \<Rightarrow> (case fst (is_unlocked M conn wallet_name s) of Inr True \<Rightarrow> True | _ \<Rightarrow> False))"

definition build_while_unlocked ::
  "('w, 'p, 'c, 'a, 'm) minotari_scheme \<Rightarrow>
     ('w, 'p, 'c, 'a, 'i, 'h, 't, 'addr, 'wt, 'km, 'x, 'u, 'su, 'cf, 'cp, 'cc, 'sg, 'z) send_lib_scheme \<Rightarrow>
     'x \<Rightarrow> rstring \<Rightarrow> 'addr Recipient list \<Rightarrow> bool \<Rightarrow> ('w, 'p, rstring \<times> 'u \<times> 'x) bridge_api" where
  "build_while_unlocked M S sender wallet_name recipients send_all s =
     (case build_unsigned_transaction S sender recipients send_all s of
        (Inl e, s) \<Rightarrow>
          (case session_gone M wallet_name s of (gone, s) \<Rightarrow> if gone then err Locked s else fail e s)
      | (Inr (pending_transaction_id, unsigned_tx, sender), s) \<Rightarrow>
          if \<not> unlocked_in M (sender_pool S sender) wallet_name s
          then err Locked (release_send_reservation M pending_transaction_id s)
          else ret (pending_transaction_id, unsigned_tx, sender) s)"

definition confirm_own_payload ::
  "('w, 'p, 'c, 'a, 'i, 'h, 't, 'addr, 'wt, 'km, 'x, 'u, 'su, 'cf, 'cp, 'cc, 'sg, 'z) send_lib_scheme \<Rightarrow>
     'u \<Rightarrow> wallet_error + 'cp" where
  "confirm_own_payload S unsigned_tx =
     (let summary = payload_summary S unsigned_tx in
      res_then (map_err signing (present_payload_summary S summary)) (\<lambda>confirmation.
        map_err signing (confirm_summary S summary confirmation)))"

definition map_builder_error :: "rstring \<Rightarrow> wallet_error" where
  "map_builder_error e = signing e"

text \<open>Signing: a failure releases the reservation.\<close>

definition sign_or_release ::
  "('w, 'p, 'c, 'a, 'm) minotari_scheme \<Rightarrow>
     ('w, 'p, 'c, 'a, 'i, 'h, 't, 'addr, 'wt, 'km, 'x, 'u, 'su, 'cf, 'cp, 'cc, 'sg, 'z) send_lib_scheme \<Rightarrow>
     'km \<Rightarrow> Lib_Network \<Rightarrow> rstring \<Rightarrow> 'u \<Rightarrow> ('w, 'p, 'sg) bridge_api" where
  "sign_or_release M S key_manager net pending_transaction_id unsigned_tx s =
     (case res_then (confirm_own_payload S unsigned_tx) (\<lambda>confirmed.
        map_err map_builder_error
          (sign_locked_transaction S key_manager (consensus_constants S net) net confirmed)) of
        Inr tx \<Rightarrow> ret tx s
      | Inl e \<Rightarrow> err e (release_send_reservation M pending_transaction_id s))"

text \<open>The check before anything is recorded or broadcast.\<close>

definition gate_or_release ::
  "('w, 'p, 'c, 'a, 'm) minotari_scheme \<Rightarrow> 'p \<Rightarrow> rstring \<Rightarrow> rstring \<Rightarrow> ('w, 'p, unit) bridge_api" where
  "gate_or_release M pool wallet_name pending_transaction_id s =
     (if \<not> unlocked_in M pool wallet_name s
      then err Locked (release_send_reservation M pending_transaction_id s)
      else ret () s)"

text \<open>
  The broadcast: other tasks run before and after minotari's part of it.
\<close>

definition finalize_or_release ::
  "('w, 'p) environment \<Rightarrow> ('w, 'p, 'c, 'a, 'm) minotari_scheme \<Rightarrow>
     ('w, 'p, 'c, 'a, 'i, 'h, 't, 'addr, 'wt, 'km, 'x, 'u, 'su, 'cf, 'cp, 'cc, 'sg, 'z) send_lib_scheme \<Rightarrow>
     'x \<Rightarrow> 'sg \<Rightarrow> rstring \<Rightarrow> rstring \<Rightarrow> rstring \<Rightarrow>
     ('w, 'p, ('i, 'h, 't, 'addr) FinalizedSend) bridge_api" where
  "finalize_or_release env M S sender signed_tx base_url wallet_name pending_transaction_id s =
     (case on_world (finalize_transaction_and_broadcast S sender signed_tx base_url)
         (env_run env Await_Node s) of
        (sent, s) \<Rightarrow>
          let s = env_run env Await_Node s in
          (case sent of
             Inr sent \<Rightarrow> ret sent s
           | Inl e \<Rightarrow>
               (case session_gone M wallet_name (release_send_reservation M pending_transaction_id s) of
                  (gone, s) \<Rightarrow>
                    if gone then err Locked s else err (network (strip_format_chars e)) s)))"

section \<open>A send with its progress events\<close>

type_synonym ('w, 'p, 'r) send_proc =
  "('w, 'p) bridge \<Rightarrow> (SendTransactionEvent list \<times> (api_error + 'r)) \<times> ('w, 'p) bridge"

definition report :: "TransactionStage \<Rightarrow> string \<Rightarrow> ('w, 'p, unit) send_proc" where
  "report st msg s = (([\<lparr>stage = st, details = lit msg\<rparr>], Inr ()), s)"

definition silent :: "('w, 'p, 'r) bridge_api \<Rightarrow> ('w, 'p, 'r) send_proc" where
  "silent m s = (case m s of (r, s') \<Rightarrow> (([], r), s'))"

definition send_then ::
  "('w, 'p, 'r) send_proc \<Rightarrow> ('r \<Rightarrow> ('w, 'p, 'q) send_proc) \<Rightarrow> ('w, 'p, 'q) send_proc" where
  "send_then m f s =
     (case m s of
        ((evs, Inl e), s') \<Rightarrow> ((evs, Inl e), s')
      | ((evs, Inr x), s') \<Rightarrow> (case f x s' of ((evs', r), s'') \<Rightarrow> ((evs @ evs', r), s'')))"

definition sweep_expired ::
  "('w, 'p, 'c, 'a, 'm) minotari_scheme \<Rightarrow> ('w, 'p, unit) bridge_api" where
  "sweep_expired M s =
     (case get_db_connection M s of
        (Inr conn, s) \<Rightarrow> ret () (release_expired_reservations M conn s)
      | (Inl _, s) \<Rightarrow> ret () s)"

text \<open>From here on inputs are reserved, by the pending row with the given id.\<close>

definition finish_send ::
  "('w, 'p) environment \<Rightarrow> ('addr, 'k) address_lib_scheme \<Rightarrow>
     ('w, 'c, 'a, 'i, 'h, 't, 'addr, 'l) ledger_lib_scheme \<Rightarrow> ('w, 'p, 'c, 'a, 'm) minotari_scheme \<Rightarrow>
     ('w, 'p, 'c, 'a, 'i, 'h, 't, 'addr, 'wt, 'km, 'x, 'u, 'su, 'cf, 'cp, 'cc, 'sg, 'z) send_lib_scheme \<Rightarrow>
     MultiSendTransactionDetails \<Rightarrow> Lib_Network \<Rightarrow> 'km \<Rightarrow> rstring \<times> 'u \<times> 'x \<Rightarrow>
     ('w, 'p, SendResultDto) send_proc" where
  "finish_send env A L M S d net key_manager =
     (\<lambda>(pending_transaction_id, unsigned_tx, sender).
     send_then (report SigningKeyGeneration ''Loading signing keys...'') (\<lambda>_.
     send_then (report SigningTransaction ''Signing transaction...'') (\<lambda>_.
     send_then (silent (sign_or_release M S key_manager net pending_transaction_id unsigned_tx)) (\<lambda>signed_transaction.
     send_then (silent (gate_or_release M (sender_pool S sender) (sd_wallet_name d) pending_transaction_id)) (\<lambda>_.
     send_then (report Broadcasting ''Broadcasting to network...'') (\<lambda>_.
     send_then (silent (finalize_or_release env M S sender signed_transaction
         (case_option DEFAULT_BASE_URL id (sd_base_url d)) (sd_wallet_name d) pending_transaction_id)) (\<lambda>sent.
     send_then (report Broadcasted ''Transaction broadcast'') (\<lambda>_.
     silent (ret (send_result_from A L sent))))))))))"

definition send_transaction_with_handler ::
  "('w, 'p) environment \<Rightarrow> ('addr, 'k) address_lib_scheme \<Rightarrow> ('w, 'n) network_lib_scheme \<Rightarrow>
     ('w, 'c, 'a, 'i, 'h, 't, 'addr, 'l) ledger_lib_scheme \<Rightarrow> ('w, 'p, 'c, 'a, 'm) minotari_scheme \<Rightarrow>
     ('w, 'p, 'c, 'a, 'i, 'h, 't, 'addr, 'wt, 'km, 'x, 'u, 'su, 'cf, 'cp, 'cc, 'sg, 'z) send_lib_scheme \<Rightarrow>
     MultiSendTransactionDetails \<Rightarrow> ('w, 'p, SendResultDto) send_proc" where
  "send_transaction_with_handler env A N L M S d =
     send_then (report Initializing ''Starting workflow...'') (\<lambda>_.
     send_then (report ValidatingInput ''Parsing inputs...'') (\<lambda>_.
     send_then (silent (lift_res (validate_inputs A d))) (\<lambda>validated.
     send_then (silent (apply_network N (vi_network validated))) (\<lambda>_.
     send_then (report ConnectingToNetwork ''Accessing wallet database...'') (\<lambda>_.
     send_then (silent (create_transaction_sender M S (sd_wallet_name d) (vi_network validated)
         (vi_confirmations validated))) (\<lambda>sender.
     send_then (silent (stored_key_manager M S (sd_wallet_name d))) (\<lambda>key_manager.
     send_then (silent (sweep_expired M)) (\<lambda>_.
     send_then (report ConstructingTransaction ''Building transaction UTXOs...'') (\<lambda>_.
     send_then (silent (build_while_unlocked M S sender (sd_wallet_name d) (vi_recipients validated)
         (sd_send_all d)))
       (finish_send env A L M S d (vi_network validated) key_manager))))))))))"

text \<open>
  \<open>send_transaction\<close> streams the events; a closed sink never aborts a send, so what \<open>add\<close>
  answers is dropped, and the events here are the calls of \<open>add\<close>.
\<close>

definition send_transaction ::
  "(SendTransactionEvent list \<Rightarrow> SendTransactionEvent \<Rightarrow> rstring + unit) \<Rightarrow>
     ('w, 'p) environment \<Rightarrow> ('addr, 'k) address_lib_scheme \<Rightarrow> ('w, 'n) network_lib_scheme \<Rightarrow>
     ('w, 'c, 'a, 'i, 'h, 't, 'addr, 'l) ledger_lib_scheme \<Rightarrow> ('w, 'p, 'c, 'a, 'm) minotari_scheme \<Rightarrow>
     ('w, 'p, 'c, 'a, 'i, 'h, 't, 'addr, 'wt, 'km, 'x, 'u, 'su, 'cf, 'cp, 'cc, 'sg, 'z) send_lib_scheme \<Rightarrow>
     MultiSendTransactionDetails \<Rightarrow> ('w, 'p, SendResultDto) send_proc" where
  "send_transaction sink_add env A N L M S d = send_transaction_with_handler env A N L M S d"

section \<open>Giving up a send\<close>

definition NOT_STALLED :: rstring where
  "NOT_STALLED = lit ''The send has not stalled yet; keep scanning so the wallet rebroadcasts it''"

definition WALLET_REPLACED :: rstring where
  "WALLET_REPLACED = lit ''The wallet was renamed or replaced; try again''"

text \<open>\<open>str::parse::<u64>\<close>: an optional plus sign and decimal digits, of a value that fits.\<close>

definition parse_u64 :: "rstring \<Rightarrow> u64 option" where
  "parse_u64 t =
     (let digits = (case t of c # cs \<Rightarrow> if c = 43 then cs else t | [] \<Rightarrow> [])
      in if digits = [] \<or> filter (\<lambda>c. \<not> (48 \<le> c \<and> c \<le> 57)) digits \<noteq> [] then None
         else if parse_base 10 digits < 2 ^ 64 then Some (of_nat (parse_base 10 digits)) else None)"

definition same_account ::
  "('w, 'c, 'a, 'l) accounts_lib_scheme \<Rightarrow> 'c \<Rightarrow> rstring \<Rightarrow> i64 \<Rightarrow> ('w, 'p, unit) bridge_api" where
  "same_account L conn wallet_name acc =
     and_then (first_account L conn wallet_name) (\<lambda>account.
       if account_id L account \<noteq> acc then err (wallet WALLET_REPLACED) else ret ())"

fun map_verify_error :: "wallet_db_error \<Rightarrow> api_error" where
  "map_verify_error e =
     (case db_kind e of
        DbDecryptionFailed \<Rightarrow> Wallet_Err InvalidPassphrase
      | _ \<Rightarrow> Wallet_Err (wallet (db_text e)))"

fun map_abandon_error :: "Abandon_Send_Error \<Rightarrow> api_error" where
  "map_abandon_error NotStalled = Wallet_Err (wallet NOT_STALLED)"
| "map_abandon_error (Abandon_Other e) = Wallet_Err (wallet e)"

definition abandon_send ::
  "('w, 'p) environment \<Rightarrow> ('w, 'c, 'a, 'l) accounts_lib_scheme \<Rightarrow> ('w, 'p, 'c, 'a, 'm) minotari_scheme \<Rightarrow>
     ('w, 'p, 'c, 'a, 'i, 'h, 't, 'addr, 'wt, 'km, 'x, 'u, 'su, 'cf, 'cp, 'cc, 'sg, 'z) send_lib_scheme \<Rightarrow>
     rstring \<Rightarrow> rstring \<Rightarrow> rstring \<Rightarrow> ('w, 'p, rstring) bridge_api" where
  "abandon_send env L M S wallet_name passphrase transaction_id =
     and_then (lift_res (ok_or (Wallet_Err (wallet (lit ''Invalid transaction id''))) (parse_u64 transaction_id)))
       (\<lambda>tx.
     and_then (get_db_connection M) (\<lambda>conn.
     and_then (blocking env (and_then (first_account L conn wallet_name) (\<lambda>account.
         and_then (lift_res (map_err map_verify_error (verify_passphrase M account passphrase))) (\<lambda>_.
           ret (account_id L account))))) (\<lambda>acc.
     with_maintenance env wallet_name
       (and_then (get_db_connection M) (\<lambda>conn.
        and_then (same_account L conn wallet_name acc) (\<lambda>_.
        and_then (stop_wallet_scans env wallet_name) (\<lambda>_.
        and_then (get_db_connection M) (\<lambda>conn.
        blocking env (map_err_proc map_abandon_error
          (on_world (lib_abandon_send S conn acc tx False False)))))))))))"

section \<open>The stages\<close>

definition stages :: "SendTransactionEvent list \<Rightarrow> TransactionStage list" where
  "stages evs = map stage evs"

text \<open>
  \<open>emits m sts\<close>: a run of \<open>m\<close> that returns \<open>Ok\<close> reports exactly the stages \<open>sts\<close>, one that fails
  only some first part of them.
\<close>

definition emits :: "('w, 'p, 'r) send_proc \<Rightarrow> TransactionStage list \<Rightarrow> bool" where
  "emits m sts \<longleftrightarrow> (\<forall>s evs r t. m s = ((evs, r), t) \<longrightarrow>
     (if is_ok r then stages evs = sts else \<exists>rest. sts = stages evs @ rest \<and> rest \<noteq> []))"

named_theorems emits_intros \<open>the stages of a composed send\<close>

lemma emitsD: "emits m sts \<Longrightarrow> m s = ((evs, r), t) \<Longrightarrow>
    if is_ok r then stages evs = sts else \<exists>rest. sts = stages evs @ rest \<and> rest \<noteq> []"
  unfolding emits_def by blast

lemma emits_end [emits_intros]: "emits (silent (ret x)) []"
  by (simp add: emits_def silent_def stages_def proc_simps)

lemma emits_report [emits_intros]:
  assumes "\<And>x. emits (f x) sts"
  shows "emits (send_then (report st msg) f) (st # sts)"
  unfolding emits_def
proof (intro allI impI)
  fix s evs r t
  assume run: "send_then (report st msg) f s = ((evs, r), t)"
  obtain evs2 where f: "f () s = ((evs2, r), t)" "evs = \<lparr>stage = st, details = lit msg\<rparr> # evs2"
    using run by (auto simp: send_then_def report_def split: prod.splits)
  show "if is_ok r then stages evs = st # sts
      else \<exists>rest. st # sts = stages evs @ rest \<and> rest \<noteq> []"
    using emitsD [OF assms f(1)] f(2) by (auto simp: stages_def)
qed

lemma emits_silent [emits_intros]:
  assumes "\<And>x. emits (f x) sts" "sts \<noteq> []"
  shows "emits (send_then (silent m) f) sts"
  unfolding emits_def
proof (intro allI impI)
  fix s evs r t
  assume run: "send_then (silent m) f s = ((evs, r), t)"
  obtain r1 s1 where m: "m s = (r1, s1)" by (cases "m s")
  show "if is_ok r then stages evs = sts else \<exists>rest. sts = stages evs @ rest \<and> rest \<noteq> []"
  proof (cases r1)
    case (Inl e)
    with m run assms(2) show ?thesis by (auto simp: send_then_def silent_def stages_def)
  next
    case (Inr x)
    with m run have "f x s1 = ((evs, r), t)" by (auto simp: send_then_def silent_def split: prod.splits)
    then show ?thesis by (rule emitsD [OF assms(1)])
  qed
qed

lemma emits_case_prod [emits_intros]:
  "(\<And>a b. emits (f a b) sts) \<Longrightarrow> emits (case x of (a, b) \<Rightarrow> f a b) sts"
  by (cases x) simp

definition all_stages :: "TransactionStage list" where
  "all_stages = [Initializing, ValidatingInput, ConnectingToNetwork, ConstructingTransaction,
     SigningKeyGeneration, SigningTransaction, Broadcasting, Broadcasted]"

lemma send_emits: "emits (send_transaction_with_handler env A N L M S d) all_stages"
  unfolding send_transaction_with_handler_def finish_send_def all_stages_def
  by (intro emits_intros list.distinct(2))

lemma stages_take:
  assumes "send_transaction_with_handler env A N L M S d s = ((evs, r), t)"
  obtains k where "stages evs = take k all_stages" "if is_ok r then k = 8 else k < 8"
proof (cases "is_ok r")
  case True
  with emitsD [OF send_emits assms] that [of 8] show ?thesis by (simp add: all_stages_def)
next
  case False
  with emitsD [OF send_emits assms] obtain rest where
    rest: "all_stages = stages evs @ rest" "rest \<noteq> []" by auto
  have "length (stages evs) < length all_stages" using rest(2) unfolding rest(1) by simp
  then have "length (stages evs) < 8" by (simp add: all_stages_def)
  moreover have "stages evs = take (length (stages evs)) all_stages" unfolding rest(1) by simp
  ultimately show ?thesis using False that by metis
qed

lemma key_before_broadcast:
  "Broadcasting \<in> set (take k all_stages) \<Longrightarrow> SigningKeyGeneration \<in> set (take k all_stages)"
  by (auto simp: all_stages_def take_Cons' split: if_splits)

text \<open>
  C14 (safety): a send reports its stages in order, each once and without a gap, from
  \<open>Initializing\<close> on; all eight of them exactly when it returns \<open>Ok\<close>. A failing send never
  reports \<open>Broadcasted\<close>, whatever the libraries, the node and the other tasks do.
\<close>

theorem send_stages_in_order:
  assumes "send_transaction_with_handler env A N L M S d s = ((evs, r), t)"
  shows "if is_ok r then stages evs = all_stages else \<exists>k < 8. stages evs = take k all_stages"
  using assms by (rule stages_take) (auto simp: all_stages_def split: if_splits)

section \<open>After the build\<close>

lemma send_reportE:
  assumes "send_then (report st msg) f s = ((evs, r), t)"
  obtains evs' where "stages evs = st # stages evs'" "f () s = ((evs', r), t)"
  using assms by (auto simp: send_then_def report_def stages_def split: prod.splits)

lemma send_silentE:
  assumes "send_then (silent m) f s = ((evs, r), t)"
  obtains (stop) e where "m s = (Inl e, t)" "r = Inl e" "stages evs = []"
    | (go) x s' where "m s = (Inr x, s')" "f x s' = ((evs, r), t)"
  using assms by (auto simp: send_then_def silent_def stages_def split: prod.splits sum.splits)

lemma send_endE:
  assumes "silent (ret x) s = ((evs, r), t)"
  obtains "r = Inr x" "t = s" "stages evs = []"
  using assms by (auto simp: silent_def ret_def stages_def)

text \<open>A send that got past its build.\<close>

lemma send_built:
  assumes "send_transaction_with_handler env A N L M S d s = ((evs, r), t)"
    and "SigningKeyGeneration \<in> set (stages evs)"
  obtains net recipients sender built key_manager s1 s2 evs2 where
    "build_while_unlocked M S sender (sd_wallet_name d) recipients (sd_send_all d) s1 = (Inr built, s2)"
    "finish_send env A L M S d net key_manager built s2 = ((evs2, r), t)"
    "stages evs = take 4 all_stages @ stages evs2"
  using assms unfolding send_transaction_with_handler_def all_stages_def
  by (elim send_reportE send_silentE) (simp_all add: that)

lemma finish_sendE:
  assumes "finish_send env A L M S d net km (pid, unsigned_tx, sender) s = ((evs, r), t)"
  obtains (not_signed) e where "sign_or_release M S km net pid unsigned_tx s = (Inl e, t)" "r = Inl e"
      "stages evs = [SigningKeyGeneration, SigningTransaction]"
    | (locked) tx e s1 where "sign_or_release M S km net pid unsigned_tx s = (Inr tx, s1)"
      "gate_or_release M (sender_pool S sender) (sd_wallet_name d) pid s1 = (Inl e, t)" "r = Inl e"
      "stages evs = [SigningKeyGeneration, SigningTransaction]"
    | (finalized) tx sent s1 s2 where "sign_or_release M S km net pid unsigned_tx s = (Inr tx, s1)"
      "gate_or_release M (sender_pool S sender) (sd_wallet_name d) pid s1 = (Inr (), s2)"
      "finalize_or_release env M S sender tx (case_option DEFAULT_BASE_URL id (sd_base_url d))
        (sd_wallet_name d) pid s2 = (sent, t)"
      "r = (case sent of Inl e \<Rightarrow> Inl e | Inr x \<Rightarrow> Inr (send_result_from A L x))"
      "Broadcasting \<in> set (stages evs)"
  using assms unfolding finish_send_def prod.case
  by (elim send_reportE send_silentE send_endE) (auto intro: that)

text \<open>Every failure after the build ends with the release, at most followed by a look at the session.\<close>

lemma sign_or_release_Err:
  assumes "sign_or_release M S km net pid unsigned_tx s = (Inl e, t)"
  shows "t = release_send_reservation M pid s"
  using assms by (auto simp: sign_or_release_def proc_simps split: sum.splits)

lemma gate_or_release_Err:
  assumes "gate_or_release M pool w pid s = (Inl e, t)"
  shows "t = release_send_reservation M pid s"
  using assms by (auto simp: gate_or_release_def proc_simps split: if_splits)

lemma gate_or_release_Ok:
  assumes "gate_or_release M pool w pid s = (Inr (), t)"
  shows "t = s \<and> (\<exists>conn. pool_get M pool (world s) = Inr conn \<and> session_is_unlocked M conn w (world s) = Inr True)"
  using assms
  by (auto simp: gate_or_release_def unlocked_in_def is_unlocked_def proc_simps map_err_def
      split: if_splits sum.splits bool.splits)

lemma finalize_or_release_Err:
  assumes "finalize_or_release env M S sender tx url w pid s = (Inl e, t)"
  obtains u where "t = snd (session_gone M w (release_send_reservation M pid u))"
proof -
  obtain r' s1 where fin: "on_world (finalize_transaction_and_broadcast S sender tx url)
      (env_run env Await_Node s) = (r', s1)" by fastforce
  obtain gone v where gone: "session_gone M w (release_send_reservation M pid (env_run env Await_Node s1)) =
      (gone, v)" by fastforce
  have "t = v"
    using assms fin gone by (auto simp: finalize_or_release_def proc_simps Let_def split: sum.splits if_splits)
  with gone that show ?thesis by (metis snd_conv)
qed



section \<open>Giving up a send\<close>


section \<open>Examples\<close>

text \<open>A sender that pays; \<open>ok\<close> says whether the node takes the broadcast.\<close>

definition example_send_lib :: "bool \<Rightarrow>
  (rstring set, unit, unit, unit, unit, unit, unit, Lib_Network \<times> rstring, unit, unit, unit, unit, unit,
   unit, unit, unit, unit) send_lib" where
  "example_send_lib ok =
     \<lparr>decrypt_wallet_type = (\<lambda>_ _ _. Inr ()), is_view_wallet = (\<lambda>_. False), session_key_manager = Inr,
      sender_new = (\<lambda>_ _ _ _ _ _. Inr ()), set_fee_per_gram = (\<lambda>_ x. x), sender_pool = (\<lambda>_. ()),
      pending_id = (\<lambda>_. lit ''p''), new_uuid = (\<lambda>wd. (lit ''u'', wd)),
      start_new_send_all_transaction = (\<lambda>_ _ _ _ _ wd. (Inr ((), ()), wd)),
      start_new_transaction_multi = (\<lambda>_ _ _ _ wd. (Inr ((), ()), wd)),
      payload_summary = (\<lambda>_. ()), present_payload_summary = Inr, confirm_summary = (\<lambda>_. Inr),
      consensus_constants = (\<lambda>_. ()), sign_locked_transaction = (\<lambda>_ _ _. Inr),
      finalize_transaction_and_broadcast = (\<lambda>_ _ _ wd.
        (if ok then Inr \<lparr>fs_displayed = \<lparr>dt_id = (), dt_direction = Lib_Outgoing, dt_source = Lib_Transfer,
             dt_status = Lib_Pending, dt_amount = 5, dt_message = None, dt_counterparty = None,
             dt_blockchain = \<lparr>bi_block_height = 0, bi_timestamp = (), bi_confirmations = 0\<rparr>,
             dt_fee = None, dt_sent_payrefs = []\<rparr>,
           fs_accepted_by_node = True, fs_note = None, fs_node_reason = None\<rparr>
         else Inl (lit ''refused''), wd)),
      lib_abandon_send = (\<lambda>_ _ _ _ _ wd. (Inr (lit ''note''), wd))\<rparr>"

definition example_any_network :: "rstring set network_lib" where
  "example_any_network = \<lparr>set_network_if_choice_valid = (\<lambda>_ wd. (Inr (), wd)), get_current_network = (\<lambda>_. None)\<rparr>"

definition example_payment :: MultiSendTransactionDetails where
  "example_payment = \<lparr>sd_network = None, sd_base_url = None, sd_wallet_name = lit ''w'',
     sd_recipients = [\<lparr>sr_address = lit ''a'', sr_amount = 5, sr_payment_id = None\<rparr>],
     sd_send_all = False, sd_confirmation_window = None\<rparr>"

lemmas example_send_eval =
  send_transaction_with_handler_def finish_send_def send_then_def report_def silent_def stages_def
  validate_inputs_def validate_recipient_def validate_recipient_count_def parse_network_def
  apply_network_def create_transaction_sender_def stored_key_manager_def sweep_expired_def
  build_while_unlocked_def build_unsigned_transaction_def draw_uuid_def unlocked_in_def
  sign_or_release_def confirm_own_payload_def gate_or_release_def finalize_or_release_def
  release_send_reservation_def session_gone_def unlocked_account_def is_unlocked_def with_session_def
  get_db_connection_def get_db_pool_def get_conn_def release_expired_reservations_def on_world_def
  example_send_lib_def example_any_network_def example_payment_def example_address_lib_def
  example_unlocked_def init_bridge_def proc_simps Let_def

lemma example_payment_simps:
  "sd_wallet_name example_payment = lit ''w''" "sd_base_url example_payment = None"
  "sd_send_all example_payment = False"
  by (simp_all add: example_payment_def)

lemma example_send_run:
  "\<exists>evs r t. send_transaction_with_handler alone example_address_lib example_any_network example_ledger
      example_minotari (example_send_lib ok) example_payment example_unlocked = ((evs, r), t) \<and>
    is_ok r = ok \<and> stages evs = take (if ok then 8 else 7) all_stages"
  by (cases ok) (simp_all add: example_send_eval all_stages_def)

theorem send_stages_in_order_witness:
  "\<exists>evs r t. send_transaction_with_handler alone example_address_lib example_any_network example_ledger
      example_minotari (example_send_lib False) example_payment example_unlocked = ((evs, r), t) \<and>
    \<not> is_ok r \<and> (\<exists>k < 8. stages evs = take k all_stages)"
proof -
  obtain evs r t where run: "send_transaction_with_handler alone example_address_lib example_any_network
      example_ledger example_minotari (example_send_lib False) example_payment example_unlocked = ((evs, r), t)"
      "\<not> is_ok r"
    using example_send_run [of False] by auto
  from send_stages_in_order [OF run(1)] run show ?thesis by auto
qed




end
