(* ===== verification/Wallet_Api.thy ===== *)
theory Wallet_Api
  imports Transactions
begin

text \<open>
  Creating, restoring, importing, renaming and deleting wallets, passphrase changes and seed
  words (\<open>src/api/wallet.rs\<close>), the address construction and key derivation they use
  (\<open>src/domain/address.rs\<close>, \<open>src/domain/keys.rs\<close>), and \<open>src/api/address.rs\<close>.
\<close>

section \<open>What the libraries provide\<close>

text \<open>
  \<open>'seed\<close> is a cipher seed, \<open>'words\<close> a parsed mnemonic, \<open>'wt\<close> a wallet type, \<open>'km\<close> a key manager,
  \<open>'pub\<close> and \<open>'priv\<close> keys. \<open>seed_mnemonic\<close> is the mnemonic's words joined with spaces, as
  \<open>SeedWords::join\<close> gives them.
\<close>

record ('w, 'c, 'a, 'addr, 'seed, 'words, 'wt, 'km, 'pub, 'priv) wallet_lib =
  random_seed :: "'w \<Rightarrow> 'seed \<times> 'w"
  seed_words_from_str :: "rstring \<Rightarrow> rstring + 'words"
  seed_from_mnemonic :: "'words \<Rightarrow> rstring + 'seed"
  seed_birthday :: "'seed \<Rightarrow> u16"
  seed_mnemonic :: "'seed \<Rightarrow> rstring + rstring"
  seed_words_wallet :: "'seed \<Rightarrow> rstring + 'wt"
  key_manager_new :: "'wt \<Rightarrow> rstring + 'km"
  private_view_key :: "'km \<Rightarrow> 'priv"
  spend_pub_key :: "'km \<Rightarrow> 'pub"
  pub_from_secret :: "'priv \<Rightarrow> 'pub"
  pub_hex :: "'pub \<Rightarrow> rstring"
  priv_hex :: "'priv \<Rightarrow> rstring"
  priv_from_hex :: "rstring \<Rightarrow> rstring + 'priv"
  pub_from_hex :: "rstring \<Rightarrow> rstring + 'pub"
  new_dual_address :: "'pub \<Rightarrow> 'pub \<Rightarrow> Lib_Network \<Rightarrow> rstring + 'addr"
  public_spend_key :: "'addr \<Rightarrow> 'pub"
  init_with_seed_words :: "'seed \<Rightarrow> rstring \<Rightarrow> rstring \<Rightarrow> rstring option \<Rightarrow> 'w \<Rightarrow> (rstring + unit) \<times> 'w"
  init_with_view_key ::
    "rstring \<Rightarrow> rstring \<Rightarrow> rstring \<Rightarrow> rstring \<Rightarrow> u16 \<Rightarrow> rstring option \<Rightarrow> 'w \<Rightarrow> (rstring + unit) \<times> 'w"
  init_with_spend_and_view_keys ::
    "rstring \<Rightarrow> rstring \<Rightarrow> rstring \<Rightarrow> rstring \<Rightarrow> u16 \<Rightarrow> Lib_Network \<Rightarrow> rstring option \<Rightarrow> 'w \<Rightarrow>
       (rstring + 'addr) \<times> 'w"
  db_change_passphrase :: "'c \<Rightarrow> rstring \<Rightarrow> rstring \<Rightarrow> rstring \<Rightarrow> 'w \<Rightarrow> (wallet_db_error + unit) \<times> 'w"
  account_seed_words :: "'a \<Rightarrow> rstring \<Rightarrow> rstring + rstring option"
  account_address :: "'a \<Rightarrow> Lib_Network \<Rightarrow> rstring \<Rightarrow> 'w \<Rightarrow> rstring + 'addr"
  delete_wallet_with_conn :: "'c \<Rightarrow> rstring \<Rightarrow> 'w \<Rightarrow> (rstring + unit) \<times> 'w"
  rename_wallet_with_conn :: "'c \<Rightarrow> rstring \<Rightarrow> rstring \<Rightarrow> 'w \<Rightarrow> (rstring + unit) \<times> 'w"

section \<open>Words\<close>

text \<open>\<open>str::split_whitespace\<close>: the runs of characters that are not white space.\<close>

fun split_whitespace_from :: "rstring \<Rightarrow> rstring \<Rightarrow> rstring list" where
  "split_whitespace_from w [] = (if w = [] then [] else [w])"
| "split_whitespace_from w (c # cs) =
     (if is_whitespace c
      then (if w = [] then split_whitespace_from [] cs else w # split_whitespace_from [] cs)
      else split_whitespace_from (w @ [c]) cs)"

definition split_hidden_words :: "rstring \<Rightarrow> rstring list" where
  "split_hidden_words hidden = split_whitespace_from [] hidden"

text \<open>\<open>[String]::join(" ")\<close>.\<close>

fun join_spaces :: "rstring list \<Rightarrow> rstring" where
  "join_spaces [] = []"
| "join_spaces [w] = w"
| "join_spaces (w # ws) = w @ 32 # join_spaces ws"

section \<open>Keys and addresses\<close>

record WalletAddressDetails =
  wad_tari_address :: rstring
  wad_spend_public_key_hex :: rstring
  wad_view_private_key_hex :: rstring

record WalletCreationDetails =
  tari_address :: rstring
  wallet_birthday :: u16
  spend_public_key_hex :: rstring
  view_private_key_hex :: rstring
  seed_words :: "rstring list option"

definition construct_wallet_address_details ::
  "('addr, 'k) address_lib_scheme \<Rightarrow>
     ('w, 'c, 'a, 'addr, 'seed, 'words, 'wt, 'km, 'pub, 'priv, 'l) wallet_lib_scheme \<Rightarrow>
     'pub \<Rightarrow> 'priv \<Rightarrow> Lib_Network \<Rightarrow> wallet_error + WalletAddressDetails" where
  "construct_wallet_address_details A W spend_key view_key net =
     res_then (map_err (\<lambda>_. internal (lit ''Failed to generate Tari address''))
         (new_dual_address W (pub_from_secret W view_key) spend_key net)) (\<lambda>addr.
       Inr \<lparr>wad_tari_address = to_base58 A addr,
            wad_spend_public_key_hex = pub_hex W spend_key,
            wad_view_private_key_hex = priv_hex W view_key\<rparr>)"

definition build_creation_details ::
  "('addr, 'k) address_lib_scheme \<Rightarrow>
     ('w, 'c, 'a, 'addr, 'seed, 'words, 'wt, 'km, 'pub, 'priv, 'l) wallet_lib_scheme \<Rightarrow>
     'pub \<Rightarrow> 'priv \<Rightarrow> u16 \<Rightarrow> Lib_Network \<Rightarrow> rstring list option \<Rightarrow> api_error + WalletCreationDetails" where
  "build_creation_details A W spend_key view_key birthday net seeds =
     res_then (map_err Wallet_Err (construct_wallet_address_details A W spend_key view_key net)) (\<lambda>d.
       Inr \<lparr>tari_address = wad_tari_address d, wallet_birthday = birthday,
            spend_public_key_hex = wad_spend_public_key_hex d,
            view_private_key_hex = wad_view_private_key_hex d, seed_words = seeds\<rparr>)"

definition key_manager_from_cipher_seed ::
  "('w, 'c, 'a, 'addr, 'seed, 'words, 'wt, 'km, 'pub, 'priv, 'l) wallet_lib_scheme \<Rightarrow> 'seed \<Rightarrow>
     wallet_error + 'km" where
  "key_manager_from_cipher_seed W seed =
     res_then (map_err (\<lambda>e. wallet (lit ''Wallet construction failed: '' @ e)) (seed_words_wallet W seed))
       (\<lambda>wallet_type.
     map_err (\<lambda>e. wallet (lit ''Key Manager failed: '' @ e)) (key_manager_new W wallet_type))"

definition generate_details_from_seed ::
  "('addr, 'k) address_lib_scheme \<Rightarrow>
     ('w, 'c, 'a, 'addr, 'seed, 'words, 'wt, 'km, 'pub, 'priv, 'l) wallet_lib_scheme \<Rightarrow>
     'seed \<Rightarrow> Lib_Network \<Rightarrow> api_error + WalletCreationDetails" where
  "generate_details_from_seed A W seed net =
     res_then (map_err Wallet_Err (key_manager_from_cipher_seed W seed)) (\<lambda>key_manager.
     res_then (map_err Upstream (seed_mnemonic W seed)) (\<lambda>mnemonic.
     build_creation_details A W (spend_pub_key W key_manager) (private_view_key W key_manager)
       (seed_birthday W seed) net (Some (split_hidden_words mnemonic))))"

section \<open>Creating, restoring and importing\<close>

text \<open>The end of \<open>create_wallet\<close> and \<open>restore_wallet\<close>: the details first, then the database.\<close>

definition init_from_seed ::
  "('addr, 'k) address_lib_scheme \<Rightarrow>
     ('w, 'c, 'a, 'addr, 'seed, 'words, 'wt, 'km, 'pub, 'priv, 'l) wallet_lib_scheme \<Rightarrow>
     rstring \<Rightarrow> 'seed \<Rightarrow> rstring \<Rightarrow> rstring \<Rightarrow> Lib_Network \<Rightarrow> ('w, 'p, WalletCreationDetails) bridge_api" where
  "init_from_seed A W wallet_name seed passphrase path net =
     and_then (lift_res (generate_details_from_seed A W seed net)) (\<lambda>details.
     and_then (map_err_proc (\<lambda>e. Context (lit ''Failed to init wallet'') (Upstream e))
         (on_world (init_with_seed_words W seed passphrase path (Some wallet_name)))) (\<lambda>_.
     ret details))"

definition create_wallet ::
  "('addr, 'k) address_lib_scheme \<Rightarrow>
     ('w, 'c, 'a, 'addr, 'seed, 'words, 'wt, 'km, 'pub, 'priv, 'l) wallet_lib_scheme \<Rightarrow>
     ('w, 'n) network_lib_scheme \<Rightarrow> rstring \<Rightarrow> TariNetwork option \<Rightarrow> rstring \<Rightarrow>
     ('w, 'p, WalletCreationDetails) bridge_api" where
  "create_wallet A W N wallet_name net passphrase =
     (let net = parse_network net in
      and_then (apply_network N net) (\<lambda>_.
      and_then (on_world (\<lambda>wd. case random_seed W wd of (seed, wd') \<Rightarrow> (Inr seed, wd'))) (\<lambda>seed.
      and_then get_db_path (\<lambda>path.
      init_from_seed A W wallet_name seed passphrase path net))))"

definition restore_wallet ::
  "('addr, 'k) address_lib_scheme \<Rightarrow>
     ('w, 'c, 'a, 'addr, 'seed, 'words, 'wt, 'km, 'pub, 'priv, 'l) wallet_lib_scheme \<Rightarrow>
     ('w, 'n) network_lib_scheme \<Rightarrow> rstring \<Rightarrow> rstring list \<Rightarrow> rstring \<Rightarrow> TariNetwork option \<Rightarrow>
     ('w, 'p, WalletCreationDetails) bridge_api" where
  "restore_wallet A W N wallet_name seeds passphrase net =
     (let net = parse_network net in
      and_then (apply_network N net) (\<lambda>_.
      and_then (lift_res (map_err (\<lambda>e. Context (lit ''Invalid seed words'') (Upstream e))
          (seed_words_from_str W (join_spaces seeds)))) (\<lambda>mnemonic.
      and_then (lift_res (map_err (\<lambda>e. Context (lit ''Invalid cipher seed'') (Upstream e))
          (seed_from_mnemonic W mnemonic))) (\<lambda>seed.
      and_then get_db_path (\<lambda>path.
      init_from_seed A W wallet_name seed passphrase path net)))))"

definition import_view_only_wallet ::
  "('addr, 'k) address_lib_scheme \<Rightarrow>
     ('w, 'c, 'a, 'addr, 'seed, 'words, 'wt, 'km, 'pub, 'priv, 'l) wallet_lib_scheme \<Rightarrow>
     ('w, 'n) network_lib_scheme \<Rightarrow> rstring \<Rightarrow> rstring \<Rightarrow> rstring \<Rightarrow> u16 \<Rightarrow> rstring \<Rightarrow> TariNetwork option \<Rightarrow>
     ('w, 'p, WalletCreationDetails) bridge_api" where
  "import_view_only_wallet A W N wallet_name view_hex spend_hex birthday passphrase net =
     (let net = parse_network net in
      and_then (apply_network N net) (\<lambda>_.
      and_then get_db_path (\<lambda>path.
      and_then (map_err_proc (\<lambda>e. Context (lit ''Failed to init view-only wallet'') (Upstream e))
          (on_world (init_with_view_key W view_hex spend_hex passphrase path birthday (Some wallet_name)))) (\<lambda>_.
      and_then (lift_res (map_err (\<lambda>_. Wallet_Err (internal (lit ''Invalid hex for view key'')))
          (priv_from_hex W view_hex))) (\<lambda>view_key.
      and_then (lift_res (map_err (\<lambda>_. Wallet_Err (internal (lit ''Invalid hex for spend key'')))
          (pub_from_hex W spend_hex))) (\<lambda>spend_key.
      lift_res (build_creation_details A W spend_key view_key birthday net None)))))))"

text \<open>\<open>{e:#}\<close> prints an error with its causes; minotari's error is one text here.\<close>

definition import_wallet_from_keys ::
  "('addr, 'k) address_lib_scheme \<Rightarrow>
     ('w, 'c, 'a, 'addr, 'seed, 'words, 'wt, 'km, 'pub, 'priv, 'l) wallet_lib_scheme \<Rightarrow>
     ('w, 'n) network_lib_scheme \<Rightarrow> rstring \<Rightarrow> rstring \<Rightarrow> rstring \<Rightarrow> u16 \<Rightarrow> rstring \<Rightarrow> TariNetwork option \<Rightarrow>
     ('w, 'p, WalletCreationDetails) bridge_api" where
  "import_wallet_from_keys A W N wallet_name view_hex spend_hex birthday passphrase net =
     (let net = parse_network net in
      and_then (apply_network N net) (\<lambda>_.
      and_then get_db_path (\<lambda>path.
      and_then (map_err_proc (\<lambda>e. Wallet_Err (wallet (lit ''Failed to import wallet from keys: '' @ e)))
          (on_world (init_with_spend_and_view_keys W view_hex spend_hex passphrase path birthday net
            (Some wallet_name)))) (\<lambda>addr.
      ret \<lparr>tari_address = to_base58 A addr, wallet_birthday = birthday,
           spend_public_key_hex = pub_hex W (public_spend_key W addr),
           view_private_key_hex = view_hex, seed_words = None\<rparr>))))"

section \<open>Seed words and listing\<close>

definition get_seed_words ::
  "('w, 'c, 'a, 'addr, 'seed, 'words, 'wt, 'km, 'pub, 'priv, 'l) wallet_lib_scheme \<Rightarrow>
     ('w, 'c, 'a, 'b) accounts_lib_scheme \<Rightarrow> ('w, 'p, 'c, 'a, 'm) minotari_scheme \<Rightarrow>
     rstring \<Rightarrow> rstring \<Rightarrow> ('w, 'p, rstring list) bridge_api" where
  "get_seed_words W L M wallet_name password =
     and_then (get_db_connection M) (\<lambda>conn.
     and_then (first_account L conn wallet_name) (\<lambda>account.
     and_then (lift_res (map_err Upstream (account_seed_words W account password))) (\<lambda>joined.
     and_then (lift_res (ok_or (Wallet_Err (internal (lit ''Account does not have seed words''))) joined))
       (\<lambda>joined. ret (split_hidden_words joined)))))"

definition reveal_seed_words :: "rstring list \<Rightarrow> rstring list" where
  "reveal_seed_words seeds = seeds"

definition list_wallets ::
  "('w, 'c, 'a, 'b) accounts_lib_scheme \<Rightarrow> ('w, 'p, 'c, 'a, 'm) minotari_scheme \<Rightarrow>
     ('w, 'p, rstring list) bridge_api" where
  "list_wallets L M =
     and_then (get_db_connection M) (\<lambda>conn.
     and_then (map_err_proc (Context (lit ''Failed to retrieve wallet accounts from database''))
         (read_world (get_accounts L conn None))) (\<lambda>accounts.
     ret (map (friendly_name L) accounts)))"

section \<open>Changes to a wallet\<close>

text \<open>
  The passphrase check \<open>change_passphrase\<close> makes on a blocking thread, and the rewrite.
\<close>

fun map_change_error :: "wallet_db_error \<Rightarrow> api_error" where
  "map_change_error e =
     (case db_kind e of
        DbDecryptionFailed \<Rightarrow> Wallet_Err InvalidPassphrase
      | _ \<Rightarrow> Wallet_Err (database (db_text e)))"

definition check_old_passphrase ::
  "('w, 'c, 'a, 'b) accounts_lib_scheme \<Rightarrow> ('w, 'p, 'c, 'a, 'm) minotari_scheme \<Rightarrow> 'c \<Rightarrow>
     rstring \<Rightarrow> rstring \<Rightarrow> ('w, 'p, unit) bridge_api" where
  "check_old_passphrase L M conn wallet_name old_passphrase =
     and_then (first_account L conn wallet_name) (\<lambda>account.
     lift_res (map_err map_change_error (verify_passphrase M account old_passphrase)))"

definition change_passphrase ::
  "('w, 'p) environment \<Rightarrow>
     ('w, 'c, 'a, 'addr, 'seed, 'words, 'wt, 'km, 'pub, 'priv, 'l) wallet_lib_scheme \<Rightarrow>
     ('w, 'c, 'a, 'b) accounts_lib_scheme \<Rightarrow> ('w, 'p, 'c, 'a, 'm) minotari_scheme \<Rightarrow>
     rstring \<Rightarrow> rstring \<Rightarrow> rstring \<Rightarrow> ('w, 'p, unit) bridge_api" where
  "change_passphrase env W L M wallet_name old_passphrase new_passphrase =
     and_then (get_db_connection M) (\<lambda>conn.
     and_then (blocking env (check_old_passphrase L M conn wallet_name old_passphrase)) (\<lambda>_.
     with_maintenance env wallet_name
       (and_then (stop_wallet_scans env wallet_name) (\<lambda>_.
        and_then (get_db_connection M) (\<lambda>conn.
        blocking env (map_err_proc map_change_error
          (on_world (db_change_passphrase W conn wallet_name old_passphrase new_passphrase))))))))"

definition with_wallet_locked ::
  "('w, 'p) environment \<Rightarrow> ('w, 'p, 'c, 'a, 'm) minotari_scheme \<Rightarrow> rstring \<Rightarrow>
     ('c \<Rightarrow> ('w, 'p, unit) bridge_api) \<Rightarrow> ('w, 'p, unit) bridge_api" where
  "with_wallet_locked env M wallet_name change =
     with_maintenance env wallet_name
       (and_then (get_db_connection M) (\<lambda>conn.
        and_then (lock_wallet_everywhere env M wallet_name) (\<lambda>_ s.
          case blocking env (change conn) s of (changed, s') \<Rightarrow>
            and_then (lock_wallet_everywhere env M wallet_name) (\<lambda>_. lift_res changed) s')))"

definition delete_wallet ::
  "('w, 'p) environment \<Rightarrow>
     ('w, 'c, 'a, 'addr, 'seed, 'words, 'wt, 'km, 'pub, 'priv, 'l) wallet_lib_scheme \<Rightarrow>
     ('w, 'p, 'c, 'a, 'm) minotari_scheme \<Rightarrow> rstring \<Rightarrow> ('w, 'p, unit) bridge_api" where
  "delete_wallet env W M wallet_name =
     with_wallet_locked env M wallet_name (\<lambda>conn.
       map_err_proc (\<lambda>e. Context (lit ''Failed to delete wallet'') (Upstream e))
         (on_world (delete_wallet_with_conn W conn wallet_name)))"

definition rename_wallet ::
  "('w, 'p) environment \<Rightarrow>
     ('w, 'c, 'a, 'addr, 'seed, 'words, 'wt, 'km, 'pub, 'priv, 'l) wallet_lib_scheme \<Rightarrow>
     ('w, 'p, 'c, 'a, 'm) minotari_scheme \<Rightarrow> rstring \<Rightarrow> rstring \<Rightarrow> ('w, 'p, unit) bridge_api" where
  "rename_wallet env W M current_wallet_name new_wallet_name =
     (if current_wallet_name = new_wallet_name then err SameName
      else with_wallet_locked env M current_wallet_name (\<lambda>conn.
        map_err_proc (\<lambda>e. Context (lit ''Failed to rename wallet'') (Upstream e))
          (on_world (rename_wallet_with_conn W conn current_wallet_name new_wallet_name))))"

section \<open>The address of a wallet\<close>

definition get_address ::
  "('addr, 'k) address_lib_scheme \<Rightarrow>
     ('w, 'c, 'a, 'addr, 'seed, 'words, 'wt, 'km, 'pub, 'priv, 'l) wallet_lib_scheme \<Rightarrow>
     ('w, 'n) network_lib_scheme \<Rightarrow> ('w, 'p, 'c, 'a, 'm) minotari_scheme \<Rightarrow>
     rstring \<Rightarrow> TariNetwork option \<Rightarrow> ('w, 'p, rstring) bridge_api" where
  "get_address A W N M wallet_name net =
     (let net = parse_network net in
      and_then (apply_network N net) (\<lambda>_.
      and_then (get_db_connection M) (\<lambda>conn.
      and_then (unlocked_account M conn wallet_name) (\<lambda>account.
      and_then (with_session M conn wallet_name
          (read_world (account_address W account net []))) (\<lambda>addr.
      ret (to_base58 A addr))))))"

section \<open>Words survive the round trip\<close>

lemma split_from_append:
  "\<forall>c \<in> set v. \<not> is_whitespace c \<Longrightarrow>
    split_whitespace_from w (v @ rest) = split_whitespace_from (w @ v) rest"
  by (induction v arbitrary: w) auto

lemma split_join_spaces:
  "\<forall>w \<in> set ws. w \<noteq> [] \<and> (\<forall>c \<in> set w. \<not> is_whitespace c) \<Longrightarrow>
    split_hidden_words (join_spaces ws) = ws"
proof (induction ws rule: join_spaces.induct)
  case 1
  then show ?case by (simp add: split_hidden_words_def)
next
  case (2 w)
  then show ?case
    using split_from_append [of w "[]" "[]"] by (simp add: split_hidden_words_def)
next
  case (3 w v vs)
  have "split_whitespace_from [] (w @ 32 # join_spaces (v # vs)) =
      split_whitespace_from w (32 # join_spaces (v # vs))"
    using "3.prems" split_from_append [of w "[]"] by simp
  also have "\<dots> = w # split_whitespace_from [] (join_spaces (v # vs))"
    using "3.prems" by (simp add: is_whitespace_def)
  finally show ?case using 3 by (simp add: split_hidden_words_def)
qed

text \<open>
  What a mnemonic is: the words of a seed's mnemonic are not empty and have no white space,
  and parsing them gives the seed back.
\<close>

definition mnemonic_law ::
  "('w, 'c, 'a, 'addr, 'seed, 'words, 'wt, 'km, 'pub, 'priv, 'l) wallet_lib_scheme \<Rightarrow> bool" where
  "mnemonic_law W \<longleftrightarrow>
     (\<forall>seed m. seed_mnemonic W seed = Inr m \<longrightarrow>
        (\<exists>ws parsed. m = join_spaces ws \<and> (\<forall>w \<in> set ws. w \<noteq> [] \<and> (\<forall>c \<in> set w. \<not> is_whitespace c)) \<and>
           seed_words_from_str W m = Inr parsed \<and> seed_from_mnemonic W parsed = Inr seed))"

lemma mnemonic_lawE:
  assumes "mnemonic_law W" "seed_mnemonic W seed = Inr m"
  obtains parsed where "seed_words_from_str W (join_spaces (split_hidden_words m)) = Inr parsed"
    "seed_from_mnemonic W parsed = Inr seed"
  using assms unfolding mnemonic_law_def by (metis split_join_spaces)

lemma init_from_seed_OkE:
  assumes "init_from_seed A W w seed pw path net s = (Inr details, t)"
  obtains m where "generate_details_from_seed A W seed net = Inr details"
    "seed_mnemonic W seed = Inr m" "seed_words details = Some (split_hidden_words m)"
    "fst (init_with_seed_words W seed pw path (Some w) (world s)) = Inr ()"
proof -
  have details: "generate_details_from_seed A W seed net = Inr details"
    and init: "fst (init_with_seed_words W seed pw path (Some w) (world s)) = Inr ()"
    using assms by (auto simp: init_from_seed_def on_world_def proc_simps
        split: sum.splits prod.splits dest!: map_err_eq_InrE)
  from details obtain m where "seed_mnemonic W seed = Inr m"
      "seed_words details = Some (split_hidden_words m)"
    by (auto simp: generate_details_from_seed_def build_creation_details_def res_then_def map_err_def
        split: sum.splits)
  with details init show thesis using that by blast
qed

text \<open>
  C39 (roundtrip): restoring a wallet from the seed words that creating it returned gives the
  same wallet: the same address, birthday, keys and words, under any name and passphrase, in
  any later state on the same network.
\<close>

theorem restore_created_wallet:
  assumes "mnemonic_law W"
    and "create_wallet A W N w net pw s = (Inr details, t)"
    and "restore_wallet A W N w' (the (seed_words details)) pw' net u = (Inr details', v)"
  shows "details' = details \<and> seed_words details \<noteq> None"
proof -
  from assms(2) obtain seed path s1 where
    "init_from_seed A W w seed pw path (parse_network net) s1 = (Inr details, t)"
    unfolding create_wallet_def Let_def by (elim and_then_OkE) blast
  then obtain m where m: "generate_details_from_seed A W seed (parse_network net) = Inr details"
      "seed_mnemonic W seed = Inr m" "seed_words details = Some (split_hidden_words m)"
    by (rule init_from_seed_OkE)
  from assms(3) obtain mnemonic seed' path' u1 where
    r: "seed_words_from_str W (join_spaces (split_hidden_words m)) = Inr mnemonic"
      "seed_from_mnemonic W mnemonic = Inr seed'"
      "init_from_seed A W w' seed' pw' path' (parse_network net) u1 = (Inr details', v)"
    unfolding restore_wallet_def Let_def m(3)
    by (elim and_then_OkE) (auto simp: proc_simps dest!: map_err_eq_InrE)
  from mnemonic_lawE [OF assms(1) m(2)] r(1,2) have "seed' = seed"
    by (metis Inr_inject)
  with r(3) m(1,3) show ?thesis by (metis init_from_seed_OkE Inr_inject option.distinct(1))
qed

text \<open>
  A wallet library whose seeds are numbers, each with a one-word mnemonic of as many letters.
\<close>

definition example_wallet_lib ::
  "(Lib_Network option, unit, unit, Lib_Network \<times> rstring, nat, nat, nat, nat, nat, nat) wallet_lib" where
  "example_wallet_lib =
     \<lparr>random_seed = (\<lambda>wd. (4, wd)),
      seed_words_from_str = (\<lambda>t. Inr (length t)), seed_from_mnemonic = Inr,
      seed_birthday = (\<lambda>_. 7), seed_mnemonic = (\<lambda>n. if n = 0 then Inl [] else Inr (replicate n 97)),
      seed_words_wallet = Inr, key_manager_new = Inr, private_view_key = (\<lambda>n. n), spend_pub_key = (\<lambda>n. n),
      pub_from_secret = (\<lambda>n. n), pub_hex = format_hex, priv_hex = format_hex,
      priv_from_hex = (\<lambda>t. Inr (parse_base 16 t)), pub_from_hex = (\<lambda>t. Inr (parse_base 16 t)),
      new_dual_address = (\<lambda>a b net. Inr (net, format_hex a)), public_spend_key = (\<lambda>_. 1),
      init_with_seed_words = (\<lambda>_ _ _ _ wd. (Inr (), wd)),
      init_with_view_key = (\<lambda>_ _ _ _ _ _ wd. (Inr (), wd)),
      init_with_spend_and_view_keys = (\<lambda>_ _ _ _ _ net _ wd. (Inr (net, []), wd)),
      db_change_passphrase = (\<lambda>_ _ _ _ wd. (Inr (), wd)),
      account_seed_words = (\<lambda>_ _. Inr None), account_address = (\<lambda>_ net _ _. Inr (net, [])),
      delete_wallet_with_conn = (\<lambda>_ _ wd. (Inr (), wd)),
      rename_wallet_with_conn = (\<lambda>_ _ _ wd. (Inr (), wd))\<rparr>"

lemma example_mnemonic_law: "mnemonic_law example_wallet_lib"
proof -
  have "replicate n 97 = join_spaces [replicate n 97]" for n by simp
  moreover have "\<not> is_whitespace 97" by (simp add: is_whitespace_def)
  ultimately show ?thesis
    unfolding mnemonic_law_def
    by (auto simp: example_wallet_lib_def split: if_splits
        intro!: exI [of _ "[replicate _ 97]"])
qed

definition example_new :: "(Lib_Network option, unit) bridge" where
  "example_new = upd_db (\<lambda>d. d\<lparr>db_path := Some (lit ''db'')\<rparr>) (init_bridge None)"

lemma example_create_run:
  "\<exists>details t. create_wallet example_address_lib example_wallet_lib example_network_lib (lit ''w'') None
      (lit ''pw'') example_new = (Inr details, t) \<and>
    (\<exists>details' v. restore_wallet example_address_lib example_wallet_lib example_network_lib (lit ''v'')
      (the (seed_words details)) (lit ''pw2'') None t = (Inr details', v))"
proof -
  have split: "split_hidden_words (replicate 4 97) = [replicate 4 97]"
    using split_join_spaces [of "[replicate 4 97]"] by (simp add: is_whitespace_def)
  show ?thesis
    by (simp add: create_wallet_def restore_wallet_def init_from_seed_def generate_details_from_seed_def
        key_manager_from_cipher_seed_def build_creation_details_def construct_wallet_address_details_def
        apply_network_def get_db_path_def on_world_def example_new_def upd_db_def init_bridge_def
        init_DbState_def example_wallet_lib_def example_network_lib_def parse_network_def proc_simps
        split)
qed

theorem restore_created_wallet_witness:
  "\<exists>details t details' v.
     create_wallet example_address_lib example_wallet_lib example_network_lib (lit ''w'') None
       (lit ''pw'') example_new = (Inr details, t) \<and>
     restore_wallet example_address_lib example_wallet_lib example_network_lib (lit ''v'')
       (the (seed_words details)) (lit ''pw2'') None t = (Inr details', v) \<and>
     details' = details"
proof -
  obtain details t details' v where
    run: "create_wallet example_address_lib example_wallet_lib example_network_lib (lit ''w'') None
       (lit ''pw'') example_new = (Inr details, t)"
      "restore_wallet example_address_lib example_wallet_lib example_network_lib (lit ''v'')
       (the (seed_words details)) (lit ''pw2'') None t = (Inr details', v)"
    using example_create_run by blast
  from restore_created_wallet [OF example_mnemonic_law run] run show ?thesis by blast
qed

section \<open>A change runs on a locked wallet\<close>

text \<open>What \<open>with_wallet_locked\<close> promises the change it runs, and leaves behind.\<close>

definition wallet_quiet ::
  "('w \<Rightarrow> rstring \<Rightarrow> bool) \<Rightarrow> rstring \<Rightarrow> ('w, 'p) bridge \<Rightarrow> bool" where
  "wallet_quiet has w s \<longleftrightarrow>
     held_count (DB_STATE s) w = 0 \<and> \<not> has (world s) w \<and> scans_cancelled w s"

text \<open>
  C27 (safety): delete and rename run on a quiet wallet. \<open>with_wallet_locked\<close> runs its change in
  a state where no holder of the wallet is counted, its key session is locked, its scans are
  cancelled, and its maintenance lock is held, so none can start; on a connection opened
  before the lock. Whatever the change does to the database, the wallet is locked again
  after it, the maintenance lock is released, and the change's own result is returned.
\<close>

theorem change_runs_locked:
  assumes "session_laws M has" and "db_inv s" and "\<not> db_poisoned s" and "\<not> scan_poisoned s"
    and "\<not> maint_poisoned s"
    and "get_db_connection M (s\<lparr>MAINT_HELD := insert w (MAINT_HELD s)\<rparr>) = (Inr conn, s1)"
    and "world_only (change conn)"
  shows "\<exists>u t. with_wallet_locked alone M w change s = (fst (change conn u), t) \<and>
    wallet_quiet has w u \<and> w \<in> MAINT_HELD u \<and> wallet_quiet has w t \<and> w \<notin> MAINT_HELD t \<and>
    MAINT_HELD s - {w} = MAINT_HELD t"
proof -
  let ?s0 = "s\<lparr>MAINT_HELD := insert w (MAINT_HELD s)\<rparr>"
  have "world_only (get_db_connection M)" by (intro world_only_intros)
  then have "same_globals ?s0 s1" using assms(6) by (rule world_onlyD)
  note s1 = same_globalsD [OF this]
  have "db_inv s1" using assms(2) s1(1) by (simp add: db_inv_def)
  with assms(1,3,4) s1 obtain u where u: "lock_wallet_everywhere alone M w s1 = (Inr (), u)"
      "held_count (DB_STATE u) w = 0" "\<not> has (world u) w" "scans_cancelled w u" "db_inv u"
      "\<not> db_poisoned u" "\<not> scan_poisoned u" "MAINT_HELD u = insert w (MAINT_HELD s)"
    using lock_everywhere_alone [of M has s1 w] by auto
  obtain changed u1 where change: "change conn u = (changed, u1)" by (cases "change conn u")
  note u1 = same_globalsD [OF world_onlyD [OF assms(7) change]]
  have "db_inv u1" using u(5) u1(1) by (simp add: db_inv_def)
  with assms(1) u u1 obtain t where t: "lock_wallet_everywhere alone M w u1 = (Inr (), t)"
      "held_count (DB_STATE t) w = 0" "\<not> has (world t) w" "scans_cancelled w t"
      "MAINT_HELD t = insert w (MAINT_HELD s)"
    using lock_everywhere_alone [of M has u1 w] by auto
  let ?t = "end_maintenance w t"
  have "with_wallet_locked alone M w change s = (changed, ?t)"
    using assms(5,6) u(1) change t(1)
    by (simp add: with_wallet_locked_def with_maintenance_def begin_maintenance_def
        maintenance_lock_def blocking_def proc_simps)
  moreover have "wallet_quiet has w ?t" "MAINT_HELD ?t = MAINT_HELD s - {w}"
    using t by (simp_all add: wallet_quiet_def end_maintenance_def scans_cancelled_def is_set_def)
  moreover have "wallet_quiet has w u" "w \<in> MAINT_HELD u"
    using u by (simp_all add: wallet_quiet_def)
  ultimately show ?thesis using change by (metis fst_conv Diff_iff singletonI)
qed

theorem change_runs_locked_witness:
  "\<exists>u t. with_wallet_locked alone example_minotari (lit ''w'') (\<lambda>_. ret ()) example_unlocked =
      (fst (ret () u :: (api_error + unit) \<times> (rstring set, unit) bridge), t) \<and>
    wallet_quiet (\<lambda>wd w. w \<in> wd) (lit ''w'') u \<and> lit ''w'' \<in> MAINT_HELD u \<and>
    wallet_quiet (\<lambda>wd w. w \<in> wd) (lit ''w'') t \<and> lit ''w'' \<notin> MAINT_HELD t \<and>
    MAINT_HELD example_unlocked - {lit ''w''} = MAINT_HELD t"
proof -
  have "get_db_connection example_minotari
      (example_unlocked\<lparr>MAINT_HELD := insert (lit ''w'') (MAINT_HELD example_unlocked)\<rparr>) =
    (Inr (), example_unlocked\<lparr>MAINT_HELD := insert (lit ''w'') (MAINT_HELD example_unlocked)\<rparr>)"
    by (simp add: get_db_connection_def get_db_pool_def get_conn_def example_unlocked_def
        init_bridge_def proc_simps)
  moreover have "\<not> maint_poisoned example_unlocked"
    by (simp add: example_unlocked_def init_bridge_def)
  ultimately show ?thesis
    by (intro change_runs_locked [OF example_session_laws example_unlocked_ok])
       (auto intro: world_only_intros)
qed

section \<open>Changing the passphrase\<close>



end
