(* ===== verification/Fee.thy ===== *)
theory Fee
  imports Transactions Config
begin

text \<open>
  Fee quotes (\<open>src/api/fee.rs\<close>). minotari's \<open>FeeEstimator\<close> computes them; the bridge picks the
  estimate of the priority asked for, and quotes a send-all at the fee the send uses.
\<close>

section \<open>Priorities and estimates\<close>

datatype FeePriority = Slow | Medium | Fast

datatype Lib_FeePriority = Lib_Slow | Lib_Medium | Lib_Fast

fun fee_priority_from :: "FeePriority \<Rightarrow> Lib_FeePriority" where
  "fee_priority_from Slow = Lib_Slow"
| "fee_priority_from Medium = Lib_Medium"
| "fee_priority_from Fast = Lib_Fast"

record Lib_FeeEstimate =
  lib_priority :: Lib_FeePriority
  lib_estimated_fee :: u64
  lib_total_amount_required :: u64
  lib_fee_per_gram :: u64
  lib_input_count :: usize

record Lib_SendAllEstimate =
  lib_fee :: u64
  lib_amount_after_fee :: u64
  lib_sa_input_count :: usize
  lib_skipped_dust :: usize
  lib_skipped_over_cap :: usize

record ('w, 'p, 'addr) fee_lib =
  estimate_fees :: "'p \<Rightarrow> rstring \<Rightarrow> rstring \<Rightarrow> u64 \<Rightarrow> usize \<Rightarrow> u64 \<Rightarrow> 'w \<Rightarrow> rstring + Lib_FeeEstimate list"
  estimate_fees_send_all ::
    "'p \<Rightarrow> rstring \<Rightarrow> rstring \<Rightarrow> Lib_Network \<Rightarrow> 'addr \<Rightarrow> rstring option \<Rightarrow> u64 \<Rightarrow> u64 \<Rightarrow> 'w \<Rightarrow>
       rstring + Lib_SendAllEstimate"

record FeeEstimate =
  estimated_fee :: u64
  total_amount_required :: u64
  fee_per_gram :: u64
  input_count :: usize

record SendAllFeeEstimate =
  sa_fee :: u64
  sa_amount_after_fee :: u64
  sa_input_count :: usize
  sa_skipped_dust :: usize
  sa_skipped_over_cap :: usize

section \<open>The quotes\<close>

definition estimate_fee ::
  "('w, 'p) environment \<Rightarrow> ('w, 'p, 'addr, 'f) fee_lib_scheme \<Rightarrow> ('w, 'p, 'c, 'a, 'm) minotari_scheme \<Rightarrow>
     u64 \<Rightarrow> usize \<Rightarrow> FeePriority \<Rightarrow> rstring \<Rightarrow> rstring \<Rightarrow> ('w, 'p, FeeEstimate) bridge_api" where
  "estimate_fee env F M amount num_outputs priority base_url wallet_name =
     and_then (get_db_pool M) (\<lambda>pool.
     and_then (await env Await_Node) (\<lambda>_.
     and_then (map_err_proc (\<lambda>e. Context (lit ''Failed to estimate fees'') e)
         (read_world (estimate_fees F pool base_url wallet_name amount num_outputs
           DEFAULT_CONFIRMATION_WINDOW))) (\<lambda>estimates.
     and_then (lift_res (ok_or
         (Wallet_Err (internal (lit ''Could not find fee estimate for requested priority'')))
         (find (\<lambda>e. lib_priority e = fee_priority_from priority) estimates))) (\<lambda>selected_estimate.
     ret \<lparr>estimated_fee = lib_estimated_fee selected_estimate,
          total_amount_required = lib_total_amount_required selected_estimate,
          fee_per_gram = lib_fee_per_gram selected_estimate,
          input_count = lib_input_count selected_estimate\<rparr>))))"

definition estimate_transaction_fee ::
  "('w, 'p) environment \<Rightarrow> ('w, 'p, 'addr, 'f) fee_lib_scheme \<Rightarrow> ('w, 'p, 'c, 'a, 'm) minotari_scheme \<Rightarrow>
     u64 \<Rightarrow> FeePriority \<Rightarrow> rstring \<Rightarrow> rstring \<Rightarrow> ('w, 'p, FeeEstimate) bridge_api" where
  "estimate_transaction_fee env F M amount priority base_url wallet_name =
     estimate_fee env F M amount DEFAULT_NUM_OUTPUTS priority base_url wallet_name"

text \<open>\<open>usize::try_from\<close> of a \<open>u32\<close> cannot fail where a \<open>usize\<close> is 64 bits wide.\<close>

definition estimate_transaction_fee_for_outputs ::
  "('w, 'p) environment \<Rightarrow> ('w, 'p, 'addr, 'f) fee_lib_scheme \<Rightarrow> ('w, 'p, 'c, 'a, 'm) minotari_scheme \<Rightarrow>
     u64 \<Rightarrow> u32 \<Rightarrow> FeePriority \<Rightarrow> rstring \<Rightarrow> rstring \<Rightarrow> ('w, 'p, FeeEstimate) bridge_api" where
  "estimate_transaction_fee_for_outputs env F M amount num_outputs priority base_url wallet_name =
     estimate_fee env F M amount (ucast num_outputs) priority base_url wallet_name"

definition estimate_send_all_fee ::
  "('addr, 'k) address_lib_scheme \<Rightarrow> ('w, 'p, 'addr, 'f) fee_lib_scheme \<Rightarrow>
     ('w, 'p, 'c, 'a, 'm) minotari_scheme \<Rightarrow> rstring \<Rightarrow> rstring \<Rightarrow> rstring option \<Rightarrow>
     TariNetwork option \<Rightarrow> u64 option \<Rightarrow> ('w, 'p, SendAllFeeEstimate) bridge_api" where
  "estimate_send_all_fee A F M wallet_name recipient_address payment_id net confirmation_window =
     (let net = parse_network net in
      and_then (lift_res (map_err Wallet_Err (validate_recipient A net recipient_address 0 True))) (\<lambda>address.
      and_then (get_db_pool M) (\<lambda>pool.
      and_then (map_err_proc (\<lambda>e. Wallet_Err (wallet (to_string e)))
          (read_world (estimate_fees_send_all F pool DEFAULT_BASE_URL wallet_name net address payment_id
            SEND_FEE_PER_GRAM (case_option DEFAULT_CONFIRMATION_WINDOW id confirmation_window)))) (\<lambda>estimate.
      ret \<lparr>sa_fee = lib_fee estimate, sa_amount_after_fee = lib_amount_after_fee estimate,
           sa_input_count = lib_sa_input_count estimate, sa_skipped_dust = lib_skipped_dust estimate,
           sa_skipped_over_cap = lib_skipped_over_cap estimate\<rparr>))))"

section \<open>Result\<close>

lemma fee_priority_from_inject [simp]: "fee_priority_from p = fee_priority_from q \<longleftrightarrow> p = q"
  by (cases p; cases q) simp_all

text \<open>
  A quote is minotari's first estimate for exactly the priority asked for,
  every amount passed through, and a missing priority is an error rather than another
  priority's fee. A quote for \<open>n\<close> outputs asks minotari about \<open>n\<close> outputs, the plain quote
  about one.
\<close>

theorem fee_quote_priority:
  assumes "estimate_transaction_fee_for_outputs env F M amount n priority url w s = (Inr q, t)"
  shows "\<exists>pool before e after.
     estimate_fees F pool url w amount (ucast n) 3 (world t) = Inr (before @ e # after) \<and>
     lib_priority e = fee_priority_from priority \<and>
     filter (\<lambda>x. lib_priority x = fee_priority_from priority) before = [] \<and>
     estimated_fee q = lib_estimated_fee e \<and> total_amount_required q = lib_total_amount_required e \<and>
     fee_per_gram q = lib_fee_per_gram e \<and> input_count q = lib_input_count e \<and>
     estimate_transaction_fee env F M amount priority url w =
       estimate_transaction_fee_for_outputs env F M amount 1 priority url w"
proof -
  obtain pool s1 es e where es: "estimate_fees F pool url w amount (ucast n) 3 (world t) = Inr es"
      "find (\<lambda>e. lib_priority e = fee_priority_from priority) es = Some e"
      "q = \<lparr>estimated_fee = lib_estimated_fee e, total_amount_required = lib_total_amount_required e,
          fee_per_gram = lib_fee_per_gram e, input_count = lib_input_count e\<rparr>"
    using assms unfolding estimate_transaction_fee_for_outputs_def estimate_fee_def
      DEFAULT_CONFIRMATION_WINDOW_def
    by (elim and_then_OkE) (auto simp: proc_simps dest!: map_err_eq_InrE)
  from es(2) obtain i where i: "i < length es" "lib_priority (es ! i) = fee_priority_from priority"
      "e = es ! i" "\<forall>j < i. lib_priority (es ! j) \<noteq> fee_priority_from priority"
    by (auto simp: find_Some_iff)
  have "es = take i es @ e # drop (Suc i) es" using i(1,3) id_take_nth_drop by blast
  moreover have "filter (\<lambda>x. lib_priority x = fee_priority_from priority) (take i es) = []"
    using i(1,4) by (auto simp: filter_empty_conv in_set_conv_nth)
  moreover have "estimate_transaction_fee env F M amount priority url w =
       estimate_transaction_fee_for_outputs env F M amount 1 priority url w"
    by (simp add: estimate_transaction_fee_def estimate_transaction_fee_for_outputs_def
        DEFAULT_NUM_OUTPUTS_def)
  ultimately show ?thesis using es(1,3) i(2,3) by (metis FeeEstimate.select_convs)
qed

definition example_fee_lib :: "(rstring set, unit, unit) fee_lib" where
  "example_fee_lib =
     \<lparr>estimate_fees = (\<lambda>_ _ _ amount _ _ _. Inr
        [\<lparr>lib_priority = Lib_Slow, lib_estimated_fee = 1, lib_total_amount_required = amount + 1,
          lib_fee_per_gram = 1, lib_input_count = 1\<rparr>,
         \<lparr>lib_priority = Lib_Fast, lib_estimated_fee = 9, lib_total_amount_required = amount + 9,
          lib_fee_per_gram = 9, lib_input_count = 1\<rparr>]),
      estimate_fees_send_all = (\<lambda>_ _ _ _ _ _ _ _ _. Inl [])\<rparr>"

theorem fee_quote_priority_witness:
  "\<exists>q pool before e after.
     estimate_transaction_fee_for_outputs alone example_fee_lib example_minotari 5 2 Fast [] [] example_pathed =
       (Inr q, example_pathed) \<and> estimated_fee q = 9 \<and>
     estimate_fees example_fee_lib pool [] [] 5 2 3 (world example_pathed) = Inr (before @ e # after) \<and>
     lib_priority e = Lib_Fast \<and> estimated_fee q = lib_estimated_fee e"
proof -
  obtain q where run: "estimate_transaction_fee_for_outputs alone example_fee_lib example_minotari 5 2 Fast
      [] [] example_pathed = (Inr q, example_pathed)" "estimated_fee q = 9"
    by (simp add: estimate_transaction_fee_for_outputs_def estimate_fee_def get_db_pool_def init_pool_def
        on_world_def example_pathed_def upd_db_def init_bridge_def init_DbState_def proc_simps
        example_fee_lib_def)
  from fee_quote_priority [OF run(1)] run show ?thesis by auto
qed

end
