(* ===== verification/Height.thy ===== *)
theory Height
  imports Network Text
begin

text \<open>
  Dates, heights and the wallet birthday (\<open>src/api/height.rs\<close>). What the node answers and
  minotari's offline estimates are the fields of \<open>height_lib\<close>.
\<close>

record height_lib =
  node_height_at_time :: "rstring \<Rightarrow> u64 \<Rightarrow> rstring + u64"
  lib_estimate_height_at_time :: "Lib_Network \<Rightarrow> u64 \<Rightarrow> u64"
  lib_birthday_from_height :: "Lib_Network \<Rightarrow> u64 \<Rightarrow> u16"
  lib_birthday_from_time :: "u64 \<Rightarrow> u16"
  TARGET_BLOCK_TIME_SECS :: u64

definition max_plausible_height :: "'h height_lib_scheme \<Rightarrow> u64 \<Rightarrow> u64" where
  "max_plausible_height H estimate =
     (let MARGIN_BLOCKS = 2 * 24 * 60 * 60 div TARGET_BLOCK_TIME_SECS H
      in sat_add estimate MARGIN_BLOCKS)"

definition get_height_at_time ::
  "'h height_lib_scheme \<Rightarrow> rstring \<Rightarrow> u64 \<Rightarrow> TariNetwork option \<Rightarrow> api_error + u64" where
  "get_height_at_time H base_url epoch_secs net =
     res_then (map_err (\<lambda>e. Wallet_Err (network (strip_format_chars e)))
         (node_height_at_time H base_url epoch_secs)) (\<lambda>node_height.
       let net = parse_network net in
       if net \<noteq> Lib_MainNet then Inr node_height
       else
         let estimate = lib_estimate_height_at_time H net epoch_secs;
             max_plausible = max_plausible_height H estimate in
         if node_height > max_plausible then
           Inl (Wallet_Err (network (lit ''Node reported an implausible height '' @
             format_dec (unat node_height) @ lit '' for that time; expected at most '' @
             format_dec (unat max_plausible))))
         else Inr node_height)"

definition estimate_height_at_time :: "'h height_lib_scheme \<Rightarrow> TariNetwork option \<Rightarrow> u64 \<Rightarrow> u64" where
  "estimate_height_at_time H net epoch_secs =
     lib_estimate_height_at_time H (parse_network net) epoch_secs"

definition birthday_from_height :: "'h height_lib_scheme \<Rightarrow> TariNetwork option \<Rightarrow> u64 \<Rightarrow> u16" where
  "birthday_from_height H net height = lib_birthday_from_height H (parse_network net) height"

definition birthday_from_date :: "'h height_lib_scheme \<Rightarrow> u64 \<Rightarrow> u16" where
  "birthday_from_date H epoch_secs = lib_birthday_from_time H epoch_secs"

text \<open>The bound on mainnet, as a number: two days of blocks above the estimate, never wrapping.\<close>

lemma unat_max_plausible_height:
  "unat (max_plausible_height H estimate) =
    min (unat estimate + 172800 div unat (TARGET_BLOCK_TIME_SECS H)) (2 ^ 64 - 1)"
  by (simp add: max_plausible_height_def Let_def unat_sat_add unat_div)

text \<open>
  C40 (bounds): a hostile node can move a MainNet restore at most two days of blocks past the
  offline estimate. \<open>get_height_at_time\<close> returns the node's answer exactly when the network is
  not MainNet or the answer is within that bound; the bound saturates, so it never wraps
  round to refuse or accept the wrong answers.
\<close>

theorem node_height_bounded:
  "get_height_at_time H url t net = Inr h \<longleftrightarrow>
     node_height_at_time H url t = Inr h \<and>
     (if parse_network net = Lib_MainNet
      then unat h \<le> unat (estimate_height_at_time H net t) + 172800 div unat (TARGET_BLOCK_TIME_SECS H)
      else True)"
proof -
  have "unat h \<le> 2 ^ 64 - 1" for h :: u64
  proof -
    have "unat h < 2 ^ 64" using unsigned_less [of h] by simp
    then show ?thesis by linarith
  qed
  then have le: "h \<le> max_plausible_height H e \<longleftrightarrow>
      unat h \<le> unat e + 172800 div unat (TARGET_BLOCK_TIME_SECS H)" for h e
    unfolding word_le_nat_alt unat_max_plausible_height by simp
  show ?thesis
  proof (cases "node_height_at_time H url t")
    case (Inl e)
    then show ?thesis by (simp add: get_height_at_time_def)
  next
    case (Inr k)
    let ?e = "lib_estimate_height_at_time H (parse_network net) t"
    have "get_height_at_time H url t net = Inr h \<longleftrightarrow>
        k = h \<and> (parse_network net = Lib_MainNet \<longrightarrow> k \<le> max_plausible_height H ?e)"
      using Inr by (auto simp: get_height_at_time_def Let_def)
    then show ?thesis using Inr le by (auto simp: estimate_height_at_time_def)
  qed
qed

end
