(* ===== verification/Base_Node.thy ===== *)
theory Base_Node
  imports Globals Config
begin

text \<open>
  The base node's tip (\<open>src/api/base_node.rs\<close>). The HTTP client is minotari's: parsing a URL,
  building a client and its requests are the fields of \<open>node_lib\<close>.
\<close>

record ChainMetadata =
  best_block_height :: u64
  best_block_hash :: "u8 list"
  pruning_horizon :: u64
  pruned_height :: u64
  timestamp :: u64

record TipInfoResponse =
  metadata :: "ChainMetadata option"
  is_synced :: bool

record ('u, 'c) node_lib =
  parse_url :: "rstring \<Rightarrow> rstring + 'u"
  client_new :: "'u \<Rightarrow> rstring + 'c"
  client_with_config :: "'u \<Rightarrow> u32 \<Rightarrow> u64 \<Rightarrow> rstring + 'c"
  client_tip_info :: "'c \<Rightarrow> rstring + TipInfoResponse"
  client_is_online :: "'c \<Rightarrow> bool"
  to_hex :: "u8 list \<Rightarrow> rstring"

record TipInfo =
  ti_best_block_height :: u64
  ti_best_block_hash :: rstring
  ti_pruning_horizon :: u64
  ti_pruned_height :: u64
  ti_timestamp :: u64

definition tip_info_from :: "('u, 'c, 'n) node_lib_scheme \<Rightarrow> ChainMetadata \<Rightarrow> TipInfo" where
  "tip_info_from N m =
     \<lparr>ti_best_block_height = best_block_height m,
      ti_best_block_hash = to_hex N (best_block_hash m),
      ti_pruning_horizon = pruning_horizon m,
      ti_pruned_height = pruned_height m,
      ti_timestamp = timestamp m\<rparr>"

definition fetch_tip_info :: "('u, 'c, 'n) node_lib_scheme \<Rightarrow> rstring \<Rightarrow> api_error + TipInfoResponse" where
  "fetch_tip_info N base_url =
     res_then (map_err (\<lambda>e. Context (lit ''Failed to parse base URL'') (Upstream e)) (parse_url N base_url))
       (\<lambda>url. res_then (map_err Upstream (client_new N url))
       (\<lambda>client. map_err Upstream (client_tip_info N client)))"

definition get_tip_info :: "('u, 'c, 'n) node_lib_scheme \<Rightarrow> rstring \<Rightarrow> api_error + TipInfo option" where
  "get_tip_info N base_url =
     res_then (fetch_tip_info N base_url) (\<lambda>tip_info.
       Inr (map_option (tip_info_from N) (metadata tip_info)))"

definition is_node_synced :: "('u, 'c, 'n) node_lib_scheme \<Rightarrow> rstring \<Rightarrow> api_error + bool" where
  "is_node_synced N base_url =
     res_then (fetch_tip_info N base_url) (\<lambda>tip_info. Inr (is_synced tip_info))"

definition check_node_health :: "('u, 'c, 'n) node_lib_scheme \<Rightarrow> rstring \<Rightarrow> api_error + bool" where
  "check_node_health N base_url =
     (case parse_url N base_url of
        Inl _ \<Rightarrow> Inr False
      | Inr url \<Rightarrow>
          (case client_with_config N url HEALTH_MAX_RETRIES HEALTH_TIMEOUT_SECS of
             Inl _ \<Rightarrow> Inr False
           | Inr client \<Rightarrow> Inr (client_is_online N client)))"

text \<open>
  The health probe never throws, and says \<open>true\<close> only for a node that answered a
  client of that URL with the short timeout; the other two calls throw exactly when the URL
  does not parse, no client can be built or the request fails.
\<close>

theorem health_never_errors:
  "(\<exists>b. check_node_health N url = Inr b \<and>
     (b \<longleftrightarrow> (\<exists>u c. parse_url N url = Inr u \<and>
        client_with_config N u 1 5 = Inr c \<and> client_is_online N c))) \<and>
   (is_ok (is_node_synced N url) \<longleftrightarrow>
     (\<exists>u c r. parse_url N url = Inr u \<and> client_new N u = Inr c \<and> client_tip_info N c = Inr r)) \<and>
   (is_ok (get_tip_info N url) = is_ok (is_node_synced N url))"
proof -
  have "is_ok (is_node_synced N url) = is_ok (fetch_tip_info N url)"
    "is_ok (get_tip_info N url) = is_ok (fetch_tip_info N url)"
    by (cases "fetch_tip_info N url"; simp add: is_node_synced_def get_tip_info_def)+
  moreover have "is_ok (fetch_tip_info N url) \<longleftrightarrow>
      (\<exists>u c r. parse_url N url = Inr u \<and> client_new N u = Inr c \<and> client_tip_info N c = Inr r)"
    by (auto simp: fetch_tip_info_def res_then_def map_err_def is_ok_def split: sum.splits)
  moreover have "\<exists>b. check_node_health N url = Inr b \<and>
     (b \<longleftrightarrow> (\<exists>u c. parse_url N url = Inr u \<and>
        client_with_config N u 1 5 = Inr c \<and> client_is_online N c))"
    by (auto simp: check_node_health_def HEALTH_MAX_RETRIES_def HEALTH_TIMEOUT_SECS_def
        split: sum.splits)
  ultimately show ?thesis by simp
qed

end
