(* ===== verification/Log_Levels.thy ===== *)
theory Log_Levels
  imports Prelude
begin

text \<open>
  Which log records pass (\<open>src/api/logger.rs\<close>): the configured levels, the level set at run
  time, the ceilings that always apply, and the global maximum.
\<close>

section \<open>Levels\<close>

text \<open>\<open>log::LevelFilter\<close> and \<open>log::Level\<close>, in their order: \<open>Off\<close> lets nothing through.\<close>

datatype LevelFilter =
  Filter_Off | Filter_Error | Filter_Warn | Filter_Info | Filter_Debug | Filter_Trace

datatype Level = At_Error | At_Warn | At_Info | At_Debug | At_Trace

fun filter_rank :: "LevelFilter \<Rightarrow> nat" where
  "filter_rank Filter_Off = 0"
| "filter_rank Filter_Error = 1"
| "filter_rank Filter_Warn = 2"
| "filter_rank Filter_Info = 3"
| "filter_rank Filter_Debug = 4"
| "filter_rank Filter_Trace = 5"

fun to_level_filter :: "Level \<Rightarrow> LevelFilter" where
  "to_level_filter At_Error = Filter_Error"
| "to_level_filter At_Warn = Filter_Warn"
| "to_level_filter At_Info = Filter_Info"
| "to_level_filter At_Debug = Filter_Debug"
| "to_level_filter At_Trace = Filter_Trace"

lemma filter_rank_inject: "filter_rank a = filter_rank b \<Longrightarrow> a = b"
  by (cases a; cases b) simp_all

instantiation LevelFilter :: linorder
begin

definition less_eq_LevelFilter :: "LevelFilter \<Rightarrow> LevelFilter \<Rightarrow> bool" where
  "less_eq_LevelFilter a b \<longleftrightarrow> filter_rank a \<le> filter_rank b"

definition less_LevelFilter :: "LevelFilter \<Rightarrow> LevelFilter \<Rightarrow> bool" where
  "less_LevelFilter a b \<longleftrightarrow> filter_rank a < filter_rank b"

instance
  by intro_classes (auto simp: less_eq_LevelFilter_def less_LevelFilter_def intro: filter_rank_inject)

end

lemmas filter_order = less_eq_LevelFilter_def less_LevelFilter_def

datatype LogLevel = Log_Error | Log_Warn | Log_Info | Log_Debug | Log_Trace | Log_Off

fun filter_from :: "LogLevel \<Rightarrow> LevelFilter" where
  "filter_from Log_Error = Filter_Error"
| "filter_from Log_Warn = Filter_Warn"
| "filter_from Log_Info = Filter_Info"
| "filter_from Log_Debug = Filter_Debug"
| "filter_from Log_Trace = Filter_Trace"
| "filter_from Log_Off = Filter_Off"

section \<open>The configuration\<close>

record LogModuleConfig =
  lm_target :: rstring
  lm_level :: LogLevel

record LoggerConfig =
  lc_default_level :: LogLevel
  lc_module_levels :: "LogModuleConfig list"
  lc_max_file_size_mb :: u64
  lc_max_files :: "64 word"

definition PAYLOAD_SUMMARY_TARGET :: rstring where
  "PAYLOAD_SUMMARY_TARGET = lit ''c::tx::offline_signing''"

definition PANIC_LOG_TARGET :: rstring where
  "PANIC_LOG_TARGET = lit ''cw_tari::panic''"

definition LEVEL_CEILINGS :: "(rstring \<times> LevelFilter) list" where
  "LEVEL_CEILINGS =
     [(lit ''minotari_wallet_core::http'', Filter_Info), (lit ''minotari::http'', Filter_Info)]"

definition default_LoggerConfig :: LoggerConfig where
  "default_LoggerConfig =
     \<lparr>lc_default_level = Log_Info,
      lc_module_levels =
        [\<lparr>lm_target = lit ''minotari'', lm_level = Log_Info\<rparr>,
         \<lparr>lm_target = lit ''minotari::http'', lm_level = Log_Info\<rparr>,
         \<lparr>lm_target = lit ''minotari_wallet_core::http'', lm_level = Log_Info\<rparr>,
         \<lparr>lm_target = lit ''hyper'', lm_level = Log_Warn\<rparr>,
         \<lparr>lm_target = lit ''h2'', lm_level = Log_Error\<rparr>,
         \<lparr>lm_target = lit ''reqwest'', lm_level = Log_Warn\<rparr>,
         \<lparr>lm_target = PAYLOAD_SUMMARY_TARGET, lm_level = Log_Warn\<rparr>],
      lc_max_file_size_mb = 10, lc_max_files = 5\<rparr>"

definition with_payload_summary_cap :: "LogModuleConfig list \<Rightarrow> LogModuleConfig list" where
  "with_payload_summary_cap levels =
     (if list_ex (\<lambda>m. lm_target m = PAYLOAD_SUMMARY_TARGET) levels then levels
      else levels @ [\<lparr>lm_target = PAYLOAD_SUMMARY_TARGET, lm_level = Log_Warn\<rparr>])"

record LogLevels =
  configured_default :: LevelFilter
  modules :: "(rstring \<times> LevelFilter) list"
  runtime_level :: "LevelFilter option"

definition new_LogLevels :: "LoggerConfig \<Rightarrow> LogLevels" where
  "new_LogLevels config =
     \<lparr>configured_default = filter_from (lc_default_level config),
      modules = map (\<lambda>m. (lm_target m, filter_from (lm_level m)))
        (with_payload_summary_cap (lc_module_levels config)),
      runtime_level = None\<rparr>"

section \<open>The level of a target\<close>

definition target_matches :: "rstring \<Rightarrow> rstring \<Rightarrow> bool" where
  "target_matches target module \<longleftrightarrow>
     target = module \<or>
     (starts_with target module \<and> starts_with (drop (length module) target) (lit ''::''))"

text \<open>The loop over the modules: the longest that matches, the last of equally long ones.\<close>

fun best_match ::
  "rstring \<Rightarrow> LevelFilter option \<times> nat \<Rightarrow> (rstring \<times> LevelFilter) list \<Rightarrow> LevelFilter option \<times> nat" where
  "best_match target found [] = found"
| "best_match target (module_level, matched_len) ((module, level) # rest) =
     best_match target
       (if target_matches target module \<and> utf8_size module \<ge> matched_len
        then (Some level, utf8_size module) else (module_level, matched_len)) rest"

definition base_level :: "LogLevels \<Rightarrow> LevelFilter option \<Rightarrow> LevelFilter" where
  "base_level l module_level =
     (case (module_level, runtime_level l) of
        (None, None) \<Rightarrow> configured_default l
      | (None, Some runtime) \<Rightarrow> runtime
      | (Some module, None) \<Rightarrow> module
      | (Some module, Some runtime) \<Rightarrow>
          if module < configured_default l then min module runtime else runtime)"

definition cap_at_ceilings :: "rstring \<Rightarrow> LevelFilter \<Rightarrow> LevelFilter" where
  "cap_at_ceilings target level =
     foldl (\<lambda>level (module, ceiling). if target_matches target module then min level ceiling else level)
       level LEVEL_CEILINGS"

definition level_for :: "LogLevels \<Rightarrow> rstring \<Rightarrow> LevelFilter" where
  "level_for l target = cap_at_ceilings target (base_level l (fst (best_match target (None, 0) (modules l))))"

definition max_level :: "LogLevels \<Rightarrow> LevelFilter" where
  "max_level l =
     foldl (\<lambda>mx (module, _). max mx (level_for l module))
       (case_option (configured_default l) id (runtime_level l)) (modules l)"

text \<open>\<open>record_enabled\<close>: the filter, over the levels installed so far.\<close>

definition record_enabled :: "LogLevels option \<Rightarrow> Level \<Rightarrow> rstring \<Rightarrow> bool" where
  "record_enabled levels level target =
     (case levels of None \<Rightarrow> False | Some l \<Rightarrow> to_level_filter level \<le> level_for l target)"

section \<open>The longest match\<close>

lemma target_matches_prefix: "target_matches t m \<Longrightarrow> \<exists>rest. t = m @ rest"
  by (auto simp: target_matches_def starts_with_iff)

lemma target_matches_refl [simp]: "target_matches t t"
  by (simp add: target_matches_def)

lemma target_matches_trans: "target_matches t m \<Longrightarrow> target_matches m k \<Longrightarrow> target_matches t k"
  by (auto simp: target_matches_def starts_with_iff)

lemma best_match_snoc:
  "best_match t f (xs @ [(m, l)]) =
    (if target_matches t m \<and> utf8_size m \<ge> snd (best_match t f xs) then (Some l, utf8_size m)
     else best_match t f xs)"
  by (induction t f xs rule: best_match.induct) auto

text \<open>
  The level found is that of an entry whose target is the longest matching; the entries that
  come later and match are shorter.
\<close>

lemma best_match_found:
  assumes "best_match t (None, 0) xs = (found, n)"
  shows "\<forall>x \<in> set xs. target_matches t (fst x) \<longrightarrow> found \<noteq> None \<and> utf8_size (fst x) \<le> n"
    and "case found of None \<Rightarrow> n = 0
      | Some l \<Rightarrow> \<exists>m. (m, l) \<in> set xs \<and> target_matches t m \<and> n = utf8_size m"
  using assms
proof (induction xs arbitrary: found n rule: rev_induct)
  case Nil
  case 1
  then show ?case by simp
  case 2
  then show ?case by simp
next
  case (snoc x xs)
  obtain f k where prev: "best_match t (None, 0) xs = (f, k)" by fastforce
  obtain m l where x: "x = (m, l)" by (cases x)
  have upd: "(found, n) = (if target_matches t m \<and> utf8_size m \<ge> k then (Some l, utf8_size m) else (f, k))"
    if "best_match t (None, 0) (xs @ [x]) = (found, n)" for found n
    using that x prev by (auto simp: best_match_snoc split: if_splits)
  {
    case 1
    from upd [OF 1] snoc.IH(1) [OF prev] snoc.IH(2) [OF prev] x show ?case
      by (auto split: if_splits option.splits)
  next
    case 2
    from upd [OF 2] snoc.IH(2) [OF prev] x show ?case
      by (auto split: if_splits option.splits)
  }
qed

lemma utf8_size_0 [simp]: "utf8_size s = 0 \<longleftrightarrow> s = []"
  using len_utf8_bounds(1) by (cases s) (auto simp: Suc_le_eq)

lemma same_size_prefix:
  assumes "target_matches t m" "target_matches t m'" "utf8_size m = utf8_size m'"
  shows "m = m'"
proof -
  obtain r r' where "m @ r = m' @ r'" using assms(1,2) target_matches_prefix by metis
  then obtain us where "m = m' @ us \<or> m' = m @ us" by (auto simp: append_eq_append_conv2)
  with assms(3) show ?thesis by auto
qed

text \<open>The entry that decides about a target decides about its own target path too.\<close>

lemma best_match_self:
  assumes "best_match t (None, 0) xs = (Some l, n)" "target_matches t m" "utf8_size m = n"
    and "m \<in> fst ` set xs"
  shows "best_match m (None, 0) xs = (Some l, n)"
  using assms
proof (induction xs arbitrary: l n rule: rev_induct)
  case Nil
  then show ?case by simp
next
  case (snoc x xs)
  obtain m0 l0 where x: "x = (m0, l0)" by (cases x)
  obtain f k where prev: "best_match t (None, 0) xs = (f, k)" by fastforce
  obtain f' k' where prev': "best_match m (None, 0) xs = (f', k')" by fastforce
  note all = best_match_found(1) [OF prev] and own = best_match_found(2) [OF prev']
  show ?case
  proof (cases "target_matches t m0 \<and> utf8_size m0 \<ge> k")
    case True
    with snoc.prems x prev have l: "l = l0" "n = utf8_size m0" by (auto simp: best_match_snoc)
    with True snoc.prems(2,3) have m: "m0 = m" by (metis same_size_prefix)
    have "k' \<le> utf8_size m"
    proof (cases f')
      case None
      with own show ?thesis by simp
    next
      case (Some a)
      with own obtain m' where "target_matches m m'" "k' = utf8_size m'" by auto
      then show ?thesis using target_matches_prefix by fastforce
    qed
    then show ?thesis using l m x prev' by (simp add: best_match_snoc)
  next
    case False
    with snoc.prems x prev have best: "f = Some l" "k = n" by (auto simp: best_match_snoc)
    with False snoc.prems x have "m \<in> fst ` set xs" by auto
    with snoc.IH [of l n] snoc.prems(2,3) best prev have "best_match m (None, 0) xs = (Some l, n)" by simp
    moreover have "\<not> (target_matches m m0 \<and> utf8_size m0 \<ge> n)"
      using False best snoc.prems(2) target_matches_trans by blast
    ultimately show ?thesis using x by (auto simp: best_match_snoc)
  qed
qed

section \<open>Bounds\<close>

lemma cap_eval: "cap_at_ceilings t level =
    (if target_matches t (lit ''minotari_wallet_core::http'') \<or> target_matches t (lit ''minotari::http'')
     then min level Filter_Info else level)"
  by (auto simp: cap_at_ceilings_def LEVEL_CEILINGS_def)

lemma cap_mono:
  assumes "target_matches t m"
  shows "cap_at_ceilings t level \<le> cap_at_ceilings m level"
  using target_matches_trans [OF assms, of "lit ''minotari_wallet_core::http''"]
    target_matches_trans [OF assms, of "lit ''minotari::http''"]
  by (simp add: cap_eval)

lemma foldl_max_bound:
  fixes f :: "'x \<Rightarrow> LevelFilter"
  shows "mx \<le> foldl (\<lambda>mx x. max mx (f x)) mx xs" "x \<in> set xs \<Longrightarrow> f x \<le> foldl (\<lambda>mx x. max mx (f x)) mx xs"
proof (induction xs arbitrary: mx)
  case Nil
  case 1
  then show ?case by simp
  case 2
  then show ?case by simp
next
  case (Cons y ys)
  case 1
  show ?case using Cons.IH(1) [of "max mx (f y)"] by simp
  case 2
  then show ?case
    using Cons.IH(1) [of "max mx (f y)"] Cons.IH(2) [of "max mx (f y)"] by auto
qed

lemma max_level_alt: "max_level l =
    foldl (\<lambda>mx x. max mx (level_for l (fst x))) (case_option (configured_default l) id (runtime_level l)) (modules l)"
  by (simp add: max_level_def case_prod_unfold)

lemma level_for_le_max: "level_for l t \<le> max_level l"
proof -
  obtain f n where best: "best_match t (None, 0) (modules l) = (f, n)" by fastforce
  show ?thesis
  proof (cases f)
    case None
    have "level_for l t \<le> base_level l None"
      using best None by (auto simp: level_for_def cap_eval)
    also have "base_level l None = case_option (configured_default l) id (runtime_level l)"
      by (simp add: base_level_def split: option.split)
    also have "\<dots> \<le> max_level l" unfolding max_level_alt by (rule foldl_max_bound)
    finally show ?thesis .
  next
    case (Some lv)
    with best_match_found(2) [OF best] obtain m where
      m: "(m, lv) \<in> set (modules l)" "target_matches t m" "n = utf8_size m" by auto
    then have "best_match m (None, 0) (modules l) = (Some lv, n)"
      using best_match_self [of t "modules l" lv n m] best Some by force
    then have "level_for l t \<le> level_for l m"
      using best Some cap_mono [OF m(2)] by (simp add: level_for_def)
    also have "\<dots> \<le> max_level l"
      unfolding max_level_alt
      using foldl_max_bound(2) [where f = "\<lambda>x. level_for l (fst x)" and x = "(m, lv)" and xs = "modules l"] m(1)
      by simp
    finally show ?thesis .
  qed
qed

lemma level_for_ceiling:
  assumes "m \<in> {lit ''minotari_wallet_core::http'', lit ''minotari::http''}"
  shows "level_for l (m @ path) \<le>
    (if path = [] \<or> starts_with path (lit ''::'') then Filter_Info else Filter_Trace)"
proof (cases "path = [] \<or> starts_with path (lit ''::'')")
  case True
  then have "target_matches (m @ path) m"
    by (auto simp: target_matches_def starts_with_iff)
  with assms have "target_matches (m @ path) (lit ''minotari_wallet_core::http'') \<or>
      target_matches (m @ path) (lit ''minotari::http'')" by auto
  with True show ?thesis by (simp add: level_for_def cap_eval)
next
  case False
  have "x \<le> Filter_Trace" for x :: LevelFilter by (cases x) (simp_all add: filter_order)
  with False show ?thesis by simp
qed

text \<open>
  The level of a log target. It never exceeds the global maximum handed to
  \<open>log::set_max_level\<close>, so no record the filter would let through is dropped before it; and
  the targets of minotari's HTTP client, which log node URLs with their credentials, never
  pass above \<open>Info\<close>, whatever is configured or set at run time.
\<close>

theorem log_level_bounds:
  "level_for l target \<le> max_level l \<and>
    level_for l (lit ''minotari_wallet_core::http'' @ path) \<le>
      (if path = [] \<or> starts_with path (lit ''::'') then Filter_Info else Filter_Trace) \<and>
    level_for l (lit ''minotari::http'' @ path) \<le>
      (if path = [] \<or> starts_with path (lit ''::'') then Filter_Info else Filter_Trace)"
  using level_for_le_max [of l target] level_for_ceiling [of "lit ''minotari_wallet_core::http''" l path]
    level_for_ceiling [of "lit ''minotari::http''" l path] by simp

text \<open>
  C37 (functional): what the payload-summary target (recipients, amounts and memos of a send)
  logs at when the configuration does not name it or a path above it: \<open>Warn\<close> until a level is
  set at run time; after that at most \<open>Warn\<close> when the configured default is above \<open>Warn\<close>, but
  at the level that was set when the default is \<open>Warn\<close> or stricter.
\<close>

theorem payload_summary_level:
  assumes "filter (\<lambda>m. target_matches PAYLOAD_SUMMARY_TARGET (lm_target m)) (lc_module_levels config) = []"
  shows "level_for ((new_LogLevels config)\<lparr>runtime_level := r\<rparr>) PAYLOAD_SUMMARY_TARGET =
    (case r of
       None \<Rightarrow> Filter_Warn
     | Some set_level \<Rightarrow>
         if Filter_Warn < filter_from (lc_default_level config) then min Filter_Warn set_level else set_level)"
proof -
  let ?xs = "map (\<lambda>m. (lm_target m, filter_from (lm_level m))) (lc_module_levels config)"
  have none: "\<forall>m \<in> set (lc_module_levels config). \<not> target_matches PAYLOAD_SUMMARY_TARGET (lm_target m)"
    using assms by (simp add: filter_empty_conv)
  then have "\<not> list_ex (\<lambda>m. lm_target m = PAYLOAD_SUMMARY_TARGET) (lc_module_levels config)"
    using target_matches_refl [of PAYLOAD_SUMMARY_TARGET] unfolding list_ex_iff by fastforce
  then have mods: "modules (new_LogLevels config) = ?xs @ [(PAYLOAD_SUMMARY_TARGET, Filter_Warn)]"
    by (simp add: new_LogLevels_def with_payload_summary_cap_def)
  obtain f n where prev: "best_match PAYLOAD_SUMMARY_TARGET (None, 0) ?xs = (f, n)" by fastforce
  have "n = 0"
  proof (cases f)
    case None
    with best_match_found(2) [OF prev] show ?thesis by simp
  next
    case (Some l)
    with best_match_found(2) [OF prev] obtain m where "(m, l) \<in> set ?xs" "target_matches PAYLOAD_SUMMARY_TARGET m"
      by auto
    with none show ?thesis by auto
  qed
  then have "fst (best_match PAYLOAD_SUMMARY_TARGET (None, 0) (modules (new_LogLevels config))) = Some Filter_Warn"
    using mods prev by (simp add: best_match_snoc)
  moreover have "cap_at_ceilings PAYLOAD_SUMMARY_TARGET level = level" for level
    by (simp add: cap_eval target_matches_def PAYLOAD_SUMMARY_TARGET_def lit_def)
  ultimately show ?thesis
    by (auto simp: level_for_def base_level_def new_LogLevels_def split: option.split)
qed

theorem payload_summary_level_witness:
  "level_for ((new_LogLevels \<lparr>lc_default_level = Log_Warn, lc_module_levels = [],
      lc_max_file_size_mb = 1, lc_max_files = 1\<rparr>)\<lparr>runtime_level := Some Filter_Debug\<rparr>) PAYLOAD_SUMMARY_TARGET =
    Filter_Debug"
  by (subst payload_summary_level) (simp_all add: filter_order)

end
