(* ===== verification/Log_Text.thy ===== *)
theory Log_Text
  imports Config
begin

text \<open>
  What a log record's text becomes before it reaches the file (\<open>src/api/logger.rs\<close>): credentials
  in URLs are redacted, the text is cut to a number of bytes at a character boundary, and
  what could forge or reorder lines is escaped.
\<close>

section \<open>Redaction\<close>

text \<open>\<open>str::find\<close> of a pattern: the text before its first occurrence and the text after it.\<close>

fun split_at :: "rstring \<Rightarrow> rstring \<Rightarrow> (rstring \<times> rstring) option" where
  "split_at pat [] = (if pat = [] then Some ([], []) else None)"
| "split_at pat (c # cs) =
     (if starts_with (c # cs) pat then Some ([], drop (length pat) (c # cs))
      else map_option (\<lambda>(before, after). (c # before, after)) (split_at pat cs))"

definition scheme_sep :: rstring where
  "scheme_sep = [58, 47, 47]"

definition is_ascii_alphanumeric :: "rchar \<Rightarrow> bool" where
  "is_ascii_alphanumeric c \<longleftrightarrow> 48 \<le> c \<and> c \<le> 57 \<or> 65 \<le> c \<and> c \<le> 90 \<or> 97 \<le> c \<and> c \<le> 122"

definition is_scheme_char :: "rchar \<Rightarrow> bool" where
  "is_scheme_char c \<longleftrightarrow> is_ascii_alphanumeric c \<or> c = 43 \<or> c = 45 \<or> c = 46"

definition ends_userinfo :: "rchar \<Rightarrow> bool" where
  "ends_userinfo c \<longleftrightarrow> c = 47 \<or> c = 64 \<or> is_whitespace c"

definition stars :: rstring where
  "stars = [42, 42, 42]"

lemma split_at_Some: "split_at pat s = Some (before, after) \<Longrightarrow> s = before @ pat @ after"
  by (induction pat s arbitrary: before rule: split_at.induct)
     (auto simp: starts_with_iff split: if_splits)

function redact_url_userinfo :: "rstring \<Rightarrow> rstring" where
  "redact_url_userinfo rest =
     (case split_at scheme_sep rest of
        None \<Rightarrow> rest
      | Some (before, after) \<Rightarrow>
          before @ scheme_sep @
          (if before = [] \<or> \<not> is_scheme_char (last before) then redact_url_userinfo after
           else
             let userinfo = takeWhile (\<lambda>c. \<not> ends_userinfo c) after;
                 tail = drop (length userinfo) after
             in if userinfo \<noteq> [] \<and> starts_with tail [64] then stars @ redact_url_userinfo tail
                else redact_url_userinfo after))"
  by pat_completeness auto
termination
  by (relation "measure length")
     (auto dest!: split_at_Some simp: scheme_sep_def)

declare redact_url_userinfo.simps [simp del]

section \<open>Escapes\<close>

text \<open>\<open>char::is_control\<close>: Unicode's category Cc. \<open>is_format_char\<close> of the logger: category Cf.\<close>

definition is_control :: "rchar \<Rightarrow> bool" where
  "is_control c \<longleftrightarrow> c < 0x20 \<or> 0x7F \<le> c \<and> c \<le> 0x9F"

definition is_cf_char :: "rchar \<Rightarrow> bool" where
  "is_cf_char c \<longleftrightarrow>
     c = 0xAD \<or> 0x600 \<le> c \<and> c \<le> 0x605 \<or> c = 0x61C \<or> c = 0x6DD \<or> c = 0x70F \<or>
     0x890 \<le> c \<and> c \<le> 0x891 \<or> c = 0x8E2 \<or> c = 0x180E \<or> 0x200B \<le> c \<and> c \<le> 0x200F \<or>
     0x202A \<le> c \<and> c \<le> 0x202E \<or> 0x2060 \<le> c \<and> c \<le> 0x2064 \<or> 0x2066 \<le> c \<and> c \<le> 0x206F \<or>
     c = 0xFEFF \<or> 0xFFF9 \<le> c \<and> c \<le> 0xFFFB \<or> c = 0x110BD \<or> c = 0x110CD \<or>
     0x13430 \<le> c \<and> c \<le> 0x1343F \<or> 0x1BCA0 \<le> c \<and> c \<le> 0x1BCA3 \<or> 0x1D173 \<le> c \<and> c \<le> 0x1D17A \<or>
     c = 0xE0001 \<or> 0xE0020 \<le> c \<and> c \<le> 0xE007F"

definition escape_char :: "rchar \<Rightarrow> rstring" where
  "escape_char c =
     (if c = 92 then [92, 92]
      else if c = 10 then [92, 110]
      else if c = 13 then [92, 114]
      else if c = 9 then [92, 116]
      else if is_control c \<or> is_cf_char c \<or> c = 0x2028 \<or> c = 0x2029
      then [92, 117, 123] @ format_hex c @ [125]
      else [c])"

definition escape_control :: "rstring \<Rightarrow> rstring" where
  "escape_control text = concat (map escape_char text)"

section \<open>Truncation\<close>

text \<open>\<open>str::is_char_boundary\<close>, and the slice \<open>text[..n]\<close> at a boundary \<open>n\<close>.\<close>

fun is_char_boundary :: "rstring \<Rightarrow> nat \<Rightarrow> bool" where
  "is_char_boundary [] n = (n = 0)"
| "is_char_boundary (c # cs) n = (n = 0 \<or> (len_utf8 c \<le> n \<and> is_char_boundary cs (n - len_utf8 c)))"

fun slice_to :: "rstring \<Rightarrow> nat \<Rightarrow> rstring" where
  "slice_to [] n = []"
| "slice_to (c # cs) n = (if len_utf8 c \<le> n then c # slice_to cs (n - len_utf8 c) else [])"

text \<open>The loop that steps back to a boundary; \<open>0\<close> is one.\<close>

primrec floor_boundary :: "rstring \<Rightarrow> nat \<Rightarrow> nat" where
  "floor_boundary text 0 = 0"
| "floor_boundary text (Suc n) =
     (if is_char_boundary text (Suc n) then Suc n else floor_boundary text n)"

definition sanitize_log_text :: "rstring \<Rightarrow> nat \<Rightarrow> rstring" where
  "sanitize_log_text text max_bytes =
     (let text = redact_url_userinfo text in
      if utf8_size text \<le> max_bytes then escape_control text
      else
        let end_byte = floor_boundary text max_bytes in
        escape_control (slice_to text end_byte) @ [0x2026] @ lit ''[truncated '' @
          format_dec (utf8_size text - end_byte) @ lit '' bytes]'')"

section \<open>The redacted text holds no credentials\<close>

text \<open>
  A text leaks the userinfo \<open>u\<close> when it has a URL with it: a scheme, the separator, \<open>u\<close> and the
  at sign.
\<close>

definition leaks :: "rstring \<Rightarrow> rstring \<Rightarrow> bool" where
  "leaks s u \<longleftrightarrow> (\<exists>before after. s = before @ scheme_sep @ u @ 64 # after \<and>
     before \<noteq> [] \<and> is_scheme_char (last before) \<and> u \<noteq> [] \<and> filter ends_userinfo u = [])"

lemma split_at_None: "split_at pat s = None \<Longrightarrow> s \<noteq> x @ pat @ y"
proof (induction pat s arbitrary: x rule: split_at.induct)
  case (2 pat c cs)
  then show ?case
    by (cases x) (auto simp: starts_with_iff split: if_splits)
qed auto

lemma split_at_first:
  assumes "split_at pat s = Some (before, after)" "s = x @ pat @ y"
  shows "length before \<le> length x"
  using assms
proof (induction pat s arbitrary: before x rule: split_at.induct)
  case (2 pat c cs)
  show ?case
  proof (cases "starts_with (c # cs) pat")
    case True
    with "2.prems"(1) show ?thesis by simp
  next
    case False
    with "2.prems"(1) obtain b where b: "split_at pat cs = Some (b, after)" "before = c # b"
      by (cases "split_at pat cs") auto
    from False "2.prems"(2) obtain x' where "x = c # x'" "cs = x' @ pat @ y"
      by (cases x) (auto simp: starts_with_iff)
    with "2.IH" [OF False b(1)] b(2) show ?thesis by simp
  qed
qed (auto split: if_splits)

text \<open>A userinfo at the start of the result is there in the text too.\<close>

lemma redact_start:
  assumes "redact_url_userinfo s = u @ 64 # y" "filter ends_userinfo u = []"
  shows "\<exists>z. s = u @ 64 # z"
proof (cases "split_at scheme_sep s")
  case None
  with assms(1) show ?thesis by (simp add: redact_url_userinfo.simps)
next
  case (Some ba)
  obtain before after where ba: "ba = (before, after)" by (cases ba)
  then obtain tail where "redact_url_userinfo s = before @ scheme_sep @ tail"
    using Some by (auto simp: redact_url_userinfo.simps Let_def split: if_splits)
  with assms(1) have eq: "before @ 58 # 47 # 47 # tail = u @ 64 # y" by (simp add: scheme_sep_def)
  have no_slash: "47 \<notin> set u"
    using assms(2) by (auto simp: filter_empty_conv ends_userinfo_def)
  have "length u < length before"
  proof (rule ccontr)
    assume "\<not> length u < length before"
    with eq obtain w where w: "u = before @ w" "58 # 47 # 47 # tail = w @ 64 # y"
      by (auto simp: append_eq_append_conv2)
    with no_slash show False by (cases w; cases "tl w") auto
  qed
  with eq obtain us where us: "before = u @ us" "us @ 58 # 47 # 47 # tail = 64 # y" "us \<noteq> []"
    by (auto simp: append_eq_append_conv2)
  then obtain w where "before = u @ 64 # w" by (cases us) auto
  with split_at_Some Some ba show ?thesis by fastforce
qed

lemma redact_at_sign: "\<exists>y. redact_url_userinfo (64 # t) = 64 # y"
proof (cases "split_at scheme_sep (64 # t)")
  case None
  then show ?thesis by (simp add: redact_url_userinfo.simps)
next
  case (Some ba)
  then obtain b after where "split_at scheme_sep (64 # t) = Some (64 # b, after)"
    by (auto simp: scheme_sep_def split: if_splits)
  then show ?thesis by (auto simp: redact_url_userinfo.simps)
qed

text \<open>A separator of the result is the first one, or lies behind it.\<close>

lemma separator_position:
  assumes "split_at scheme_sep s = Some (before, after)"
    and "before @ scheme_sep @ r = x @ scheme_sep @ w"
  shows "x = before \<and> w = r \<or> (\<exists>y. x = before @ scheme_sep @ y \<and> r = y @ scheme_sep @ w)"
proof -
  have "length before \<le> length x"
  proof (rule ccontr)
    assume less: "\<not> length before \<le> length x"
    let ?n = "length x + length scheme_sep"
    have "take ?n s = take ?n (before @ scheme_sep @ r)"
      using split_at_Some [OF assms(1)] less by simp
    then have "take ?n s = x @ scheme_sep" by (simp add: assms(2))
    then have "s = x @ scheme_sep @ drop ?n s" by (metis append.assoc append_take_drop_id)
    with split_at_first [OF assms(1)] less show False by blast
  qed
  then have "take (length before) x = take (length before) (x @ scheme_sep @ w)" by simp
  also have "\<dots> = before" by (simp flip: assms(2))
  finally obtain v where x: "x = before @ v" by (metis append_take_drop_id)
  with assms(2) have v: "x = before @ v" "scheme_sep @ r = v @ scheme_sep @ w" by simp_all
  show ?thesis
  proof (cases "length v < 3")
    case True
    with v(2) have "v = []"
      by (cases v; cases "tl v"; cases "tl (tl v)") (auto simp: scheme_sep_def)
    with v show ?thesis by simp
  next
    case False
    then obtain y where "v = take 3 v @ y" by (metis append_take_drop_id)
    moreover from False v(2) have "take 3 v = scheme_sep"
      by (cases v; cases "tl v"; cases "tl (tl v)") (auto simp: scheme_sep_def)
    ultimately show ?thesis using v by (metis append.assoc same_append_eq)
  qed
qed

text \<open>The three ways a step of the loop can go.\<close>

definition userinfo_of :: "rstring \<Rightarrow> rstring" where
  "userinfo_of after = takeWhile (\<lambda>c. \<not> ends_userinfo c) after"

definition redacts :: "rstring \<Rightarrow> rstring \<Rightarrow> bool" where
  "redacts before after \<longleftrightarrow> before \<noteq> [] \<and> is_scheme_char (last before) \<and> userinfo_of after \<noteq> [] \<and>
     starts_with (drop (length (userinfo_of after)) after) [64]"

lemma redact_None: "split_at scheme_sep s = None \<Longrightarrow> redact_url_userinfo s = s"
  by (simp add: redact_url_userinfo.simps)

lemma redact_step:
  assumes "split_at scheme_sep s = Some (before, after)"
  shows "redact_url_userinfo s = before @ scheme_sep @
    (if redacts before after then stars @ redact_url_userinfo (drop (length (userinfo_of after)) after)
     else redact_url_userinfo after)"
  by (subst redact_url_userinfo.simps) (use assms in \<open>simp add: redacts_def userinfo_of_def Let_def\<close>)

lemma userinfo_of_at: "filter ends_userinfo u = [] \<Longrightarrow> userinfo_of (u @ 64 # z) = u"
  by (auto simp: userinfo_of_def ends_userinfo_def filter_empty_conv takeWhile_append2)

lemma redacts_tail:
  assumes "redacts before after"
  obtains t where "redact_url_userinfo (drop (length (userinfo_of after)) after) = 64 # t"
proof -
  obtain z where "drop (length (userinfo_of after)) after = 64 # z"
    using assms by (cases "drop (length (userinfo_of after)) after") (auto simp: redacts_def)
  then show thesis using redact_at_sign that by metis
qed

lemma leak_behind:
  assumes "x = before @ scheme_sep @ y" "is_scheme_char (last x)"
    and "u \<noteq> []" "filter ends_userinfo u = []"
  shows "leaks (y @ scheme_sep @ u @ 64 # w) u"
proof -
  from assms(1,2) have "y \<noteq> []"
    by (auto simp: scheme_sep_def is_scheme_char_def is_ascii_alphanumeric_def)
  with assms show ?thesis by (auto simp: leaks_def)
qed

text \<open>A leak of the result is at the separator just handled, or in the rest.\<close>

lemma leak_step:
  assumes "leaks (before @ scheme_sep @ r) u" "split_at scheme_sep s = Some (before, after)"
  shows "before \<noteq> [] \<and> is_scheme_char (last before) \<and> (\<exists>w. r = u @ 64 # w) \<or> leaks r u"
proof -
  from assms(1) obtain x w where
    out: "before @ scheme_sep @ r = x @ scheme_sep @ u @ 64 # w" and
    x: "x \<noteq> []" "is_scheme_char (last x)" and u: "u \<noteq> []" "filter ends_userinfo u = []"
    by (auto simp: leaks_def)
  from separator_position [OF assms(2) out] show ?thesis
    using x leak_behind [OF _ x(2) u] by blast
qed

lemma leaks_stars: "leaks (stars @ 64 # t) u \<Longrightarrow> leaks (64 # t) u"
proof -
  assume "leaks (stars @ 64 # t) u"
  then obtain x w where out: "stars @ 64 # t = x @ scheme_sep @ u @ 64 # w" and
    x: "x \<noteq> []" "is_scheme_char (last x)" and u: "u \<noteq> []" "filter ends_userinfo u = []"
    by (auto simp: leaks_def)
  from out have "length x > 3"
    by (cases x; cases "tl x"; cases "tl (tl x)"; cases "tl (tl (tl x))") (auto simp: stars_def scheme_sep_def)
  then obtain y where y: "x = take 3 x @ y" "y \<noteq> []"
    by (metis append_take_drop_id drop_eq_Nil not_le)
  have "take 3 (stars @ 64 # t) = take 3 x" using \<open>length x > 3\<close> by (simp add: out)
  then have "take 3 x = stars" by (simp add: stars_def)
  with out y have "64 # t = y @ scheme_sep @ u @ 64 # w" by (metis append.assoc same_append_eq)
  moreover have "is_scheme_char (last y)" using x(2) y by (metis last_appendR)
  ultimately show ?thesis using y(2) u by (auto simp: leaks_def)
qed



section \<open>Escaping loses nothing\<close>

text \<open>The reader of an escaped text.\<close>

function unescape :: "rstring \<Rightarrow> rstring" where
  "unescape s =
     (case s of
        [] \<Rightarrow> []
      | [c] \<Rightarrow> [c]
      | c # d # rest \<Rightarrow>
          if c \<noteq> 92 then c # unescape (d # rest)
          else if d = 110 then 10 # unescape rest
          else if d = 114 then 13 # unescape rest
          else if d = 116 then 9 # unescape rest
          else if d = 117 then
            parse_base 16 (takeWhile (\<lambda>c. c \<noteq> 125) (drop 1 rest)) #
              unescape (drop 1 (dropWhile (\<lambda>c. c \<noteq> 125) rest))
          else d # unescape rest)"
  by pat_completeness auto
termination
  by (relation "measure length")
     (auto intro!: le_imp_less_Suc le_SucI le_trans [OF diff_le_self length_dropWhile_le])

declare unescape.simps [simp del]

definition forges :: "rchar \<Rightarrow> bool" where
  "forges c \<longleftrightarrow> is_control c \<or> is_cf_char c \<or> c = 0x2028 \<or> c = 0x2029"

lemma format_hex_chars: "c \<in> set (format_hex n) \<Longrightarrow> 48 \<le> c \<and> c \<le> 57 \<or> 97 \<le> c \<and> c \<le> 102"
  by (auto simp: format_hex_def digit_char_def dest!: format_base_digits [rotated] split: if_splits)

lemma printable_not_forges: "32 \<le> c \<Longrightarrow> c \<le> 126 \<Longrightarrow> \<not> forges c"
  by (simp add: forges_def is_control_def is_cf_char_def)

lemma format_hex_not_forges: "c \<in> set (format_hex n) \<Longrightarrow> \<not> forges c"
  using format_hex_chars [of c n] printable_not_forges [of c] by linarith

lemma escape_char_alt: "escape_char c =
    (if c = 92 then [92, 92]
     else if c = 10 then [92, 110]
     else if c = 13 then [92, 114]
     else if c = 9 then [92, 116]
     else if forges c then [92, 117, 123] @ format_hex c @ [125]
     else [c])"
  by (simp add: escape_char_def forges_def)

lemma escape_char_clean: "c \<in> set (escape_char d) \<Longrightarrow> \<not> forges c"
  by (auto simp: escape_char_alt printable_not_forges dest: format_hex_not_forges split: if_splits)

lemma unescape_char: "unescape (escape_char c @ s) = c # unescape s"
proof -
  consider "c = 92" | "c = 10" | "c = 13" | "c = 9"
    | (hex) "c \<noteq> 92" "c \<noteq> 10" "c \<noteq> 13" "c \<noteq> 9" "forges c" | (plain) "c \<noteq> 92" "\<not> forges c"
    by blast
  then show ?thesis
  proof cases
    case hex
    have "125 \<notin> set (format_hex c)" using format_hex_chars by force
    then have "takeWhile (\<lambda>c. c \<noteq> 125) (format_hex c @ 125 # s) = format_hex c"
      by (subst takeWhile_append2) auto
    moreover from \<open>125 \<notin> set (format_hex c)\<close>
    have "dropWhile (\<lambda>c. c \<noteq> 125) (format_hex c @ 125 # s) = 125 # s"
      by (subst dropWhile_append2) auto
    moreover have "escape_char c = [92, 117, 123] @ format_hex c @ [125]"
      using hex by (simp add: escape_char_alt)
    ultimately show ?thesis by (subst unescape.simps) simp
  next
    case plain
    then have "escape_char c = [c]" by (auto simp: escape_char_alt forges_def is_control_def)
    with plain show ?thesis
      by (cases s) (simp add: unescape.simps [of "[c]"] unescape.simps [of "[]"],
        simp add: unescape.simps [of "c # _ # _"])
  qed (subst unescape.simps, simp add: escape_char_alt)+
qed

text \<open>
  Escaping a log text is reversible, so two texts never look the same in the
  file, and leaves no character that breaks, hides or reorders a line.
\<close>

theorem escape_control_reversible:
  "unescape (escape_control t) = t \<and> filter forges (escape_control t) = []"
proof
  show "unescape (escape_control t) = t"
    by (induction t) (simp_all add: escape_control_def unescape_char unescape.simps [of "[]"])
  show "filter forges (escape_control t) = []"
    using escape_char_clean by (auto simp: escape_control_def filter_empty_conv)
qed

section \<open>Truncation keeps the longest prefix\<close>

lemma is_char_boundary_iff: "is_char_boundary t n \<longleftrightarrow> (\<exists>a b. t = a @ b \<and> utf8_size a = n)"
proof (induction t n rule: is_char_boundary.induct)
  case (2 c cs n)
  show ?case
  proof
    assume l: "is_char_boundary (c # cs) n"
    show "\<exists>a b. c # cs = a @ b \<and> utf8_size a = n"
    proof (cases "n = 0")
      case True
      then show ?thesis by (intro exI [of _ "[]"] exI [of _ "c # cs"]) simp
    next
      case False
      with l 2 obtain a b where "cs = a @ b" "utf8_size a = n - len_utf8 c" "len_utf8 c \<le> n" by auto
      then have "c # cs = (c # a) @ b \<and> utf8_size (c # a) = n" by simp
      then show ?thesis by blast
    qed
  next
    assume "\<exists>a b. c # cs = a @ b \<and> utf8_size a = n"
    then obtain a b where ab: "c # cs = a @ b" "utf8_size a = n" by blast
    show "is_char_boundary (c # cs) n"
    proof (cases a)
      case (Cons c' a')
      with ab have "cs = a' @ b" "utf8_size a' = n - len_utf8 c" "len_utf8 c \<le> n" by auto
      with 2 ab show ?thesis by (cases "n = 0") auto
    qed (use ab in auto)
  qed
qed simp

lemma slice_to_append: "slice_to (a @ b) (utf8_size a) = a"
  using len_utf8_bounds(1) by (induction a) (auto simp: neq_Nil_conv Suc_le_eq split: list.split, cases b, auto simp: Suc_le_eq)

lemma floor_boundary_props:
  "floor_boundary t n \<le> n \<and> is_char_boundary t (floor_boundary t n) \<and>
   (\<forall>k. floor_boundary t n < k \<longrightarrow> k \<le> n \<longrightarrow> \<not> is_char_boundary t k)"
proof (induction n)
  case 0
  then show ?case by (cases t) auto
next
  case (Suc n)
  then show ?case by (auto simp: le_Suc_eq)
qed

lemma floor_boundary_split:
  obtains kept dropped where "t = kept @ dropped" "utf8_size kept = floor_boundary t n"
    "utf8_size kept \<le> n" "dropped = [] \<or> n < utf8_size kept + len_utf8 (hd dropped)"
proof -
  from floor_boundary_props [of t n] obtain a b where ab: "t = a @ b" "utf8_size a = floor_boundary t n"
    "floor_boundary t n \<le> n" and above: "\<forall>k. floor_boundary t n < k \<longrightarrow> k \<le> n \<longrightarrow> \<not> is_char_boundary t k"
    by (auto simp: is_char_boundary_iff)
  have "n < utf8_size a + len_utf8 c" if "b = c # b'" for c b'
  proof (rule ccontr)
    assume "\<not> n < utf8_size a + len_utf8 c"
    moreover have "is_char_boundary t (utf8_size (a @ [c]))"
      unfolding is_char_boundary_iff using ab(1) that by (intro exI [of _ "a @ [c]"] exI [of _ b']) simp
    ultimately show False using above ab(2) len_utf8_bounds(1) [of c] by fastforce
  qed
  then have "b = [] \<or> n < utf8_size a + len_utf8 (hd b)" by (cases b) auto
  with ab that show thesis by metis
qed

text \<open>
  C38 (bounds): a logged text is the redacted text, cut at a character boundary to the longest
  prefix of at most \<open>max_bytes\<close> bytes, escaped, and closed by the number of bytes left out
  when any are.
\<close>

theorem sanitized_text_is_longest_prefix:
  "\<exists>kept dropped.
     redact_url_userinfo t = kept @ dropped \<and> utf8_size kept \<le> max_bytes \<and>
     (dropped = [] \<or> max_bytes < utf8_size kept + len_utf8 (hd dropped)) \<and>
     sanitize_log_text t max_bytes = escape_control kept @
       (if dropped = [] then []
        else 0x2026 # lit ''[truncated '' @ format_dec (utf8_size dropped) @ lit '' bytes]'')"
proof (cases "utf8_size (redact_url_userinfo t) \<le> max_bytes")
  case True
  then show ?thesis
    by (intro exI [of _ "redact_url_userinfo t"] exI [of _ "[]"]) (simp add: sanitize_log_text_def)
next
  case False
  obtain kept dropped where split: "redact_url_userinfo t = kept @ dropped"
    "utf8_size kept = floor_boundary (redact_url_userinfo t) max_bytes" "utf8_size kept \<le> max_bytes"
    "dropped = [] \<or> max_bytes < utf8_size kept + len_utf8 (hd dropped)"
    by (rule floor_boundary_split)
  moreover have "slice_to (redact_url_userinfo t) (utf8_size kept) = kept"
    unfolding split(1) by (rule slice_to_append)
  ultimately show ?thesis using False
    by (intro exI [of _ kept] exI [of _ dropped]) (auto simp: sanitize_log_text_def Let_def)
qed

end
