(* ===== verification/Logger.thy ===== *)
theory Logger
  imports Log_Levels Log_Text
begin

text \<open>
  The process-global logger (\<open>src/api/logger.rs\<close>): installing it once, changing its level, the
  line a record becomes, the writer that contains panics of the rotating file, and the hook
  that logs panics. The file system, the \<open>log\<close> crate's global logger and the rotating file are
  not code of this repository: what their calls return is an argument, and the calls made to
  them are recorded in order. The model is the unix build; \<open>debug\<close> is \<open>cfg(debug_assertions)\<close>.
\<close>

section \<open>State\<close>

text \<open>The globals, and the calls to the \<open>log\<close> macros: level, target and text.\<close>

record LogGlob =
  logger_installed :: bool
  log_levels :: "LogLevels option"
  log_max_level :: LevelFilter
  hook_installed :: bool
  log_writer_broken :: bool
  in_log_write :: bool
  log_calls :: "(Level \<times> rstring \<times> rstring) list"

definition initial_LogGlob :: LogGlob where
  "initial_LogGlob =
     \<lparr>logger_installed = False, log_levels = None, log_max_level = Filter_Off, hook_installed = False,
      log_writer_broken = False, in_log_write = False, log_calls = []\<rparr>"

text \<open>The target of the crate's own records is the path of the module.\<close>

definition LOGGER_TARGET :: rstring where
  "LOGGER_TARGET = lit ''rust_lib_flutter_rust_wallet::api::logger''"

definition log_call :: "Level \<Rightarrow> rstring \<Rightarrow> rstring \<Rightarrow> LogGlob \<Rightarrow> LogGlob" where
  "log_call level target message g = g\<lparr>log_calls := log_calls g @ [(level, target, message)]\<rparr>"

section \<open>The writer behind the file\<close>

text \<open>
  What a call of the inner writer comes to; it may leave the writer changed. The writer's code
  sees the thread's mark \<open>IN_LOG_WRITE\<close> as it is during the call.
\<close>

datatype io_outcome = Written | Io_Error | Panicked

type_synonym ('b, 'w) inner_write = "'b \<Rightarrow> bool \<Rightarrow> 'w \<Rightarrow> io_outcome \<times> 'w"

definition panic_hook :: "rstring \<Rightarrow> rstring \<Rightarrow> LogGlob \<Rightarrow> LogGlob" where
  "panic_hook info backtrace g =
     (if \<not> in_log_write g \<and> \<not> log_writer_broken g
      then log_call At_Error PANIC_LOG_TARGET
        (lit ''RUST PANIC: '' @ info @ [10] @ lit ''Backtrace:'' @ [10] @ backtrace) g
      else g)"

text \<open>The hook runs while the panic unwinds, if it is installed.\<close>

definition run_panic_hook :: "rstring \<Rightarrow> rstring \<Rightarrow> LogGlob \<Rightarrow> LogGlob" where
  "run_panic_hook info backtrace g = (if hook_installed g then panic_hook info backtrace g else g)"

definition guard_enter :: "LogGlob \<Rightarrow> LogGlob" where
  "guard_enter g = g\<lparr>in_log_write := True\<rparr>"

definition guard_drop :: "LogGlob \<Rightarrow> LogGlob" where
  "guard_drop g = g\<lparr>in_log_write := False\<rparr>"

definition contained ::
  "('b, 'w) inner_write \<Rightarrow> rstring \<times> rstring \<Rightarrow> 'b \<Rightarrow> LogGlob \<times> 'w \<Rightarrow> LogGlob \<times> 'w" where
  "contained inner panic_text buf gw =
     (case gw of (g, w) \<Rightarrow>
        let g = guard_enter g;
            (outcome, w) = inner buf (in_log_write g) w;
            g = (if outcome = Panicked
              then (run_panic_hook (fst panic_text) (snd panic_text) g)\<lparr>log_writer_broken := True\<rparr> else g)
        in (guard_drop g, w))"

text \<open>\<open>write\<close> and \<open>flush\<close>: the result and the state after. An operation is the bytes of a write, or a flush.\<close>

datatype log_op = Write_Op "u8 list" | Flush_Op

definition log_write ::
  "(log_op, 'w) inner_write \<Rightarrow> rstring \<times> rstring \<Rightarrow> u8 list \<Rightarrow> LogGlob \<times> 'w \<Rightarrow>
     (io_outcome + nat) \<times> LogGlob \<times> 'w" where
  "log_write inner panic_text buf gw =
     (if log_writer_broken (fst gw) then (Inr (length buf), gw)
      else (Inr (length buf), contained inner panic_text (Write_Op buf) gw))"

definition log_flush ::
  "(log_op, 'w) inner_write \<Rightarrow> rstring \<times> rstring \<Rightarrow> LogGlob \<times> 'w \<Rightarrow>
     (io_outcome + unit) \<times> LogGlob \<times> 'w" where
  "log_flush inner panic_text gw =
     (if log_writer_broken (fst gw) then (Inr (), gw)
      else (Inr (), contained inner panic_text Flush_Op gw))"

text \<open>fern writes record after record, and flushes.\<close>

fun run_log_op ::
  "(log_op, 'w) inner_write \<Rightarrow> rstring \<times> rstring \<Rightarrow> LogGlob \<times> 'w \<Rightarrow> log_op \<Rightarrow> LogGlob \<times> 'w" where
  "run_log_op inner panic_text gw (Write_Op buf) = snd (log_write inner panic_text buf gw)"
| "run_log_op inner panic_text gw Flush_Op = snd (log_flush inner panic_text gw)"

definition run_log_ops ::
  "(log_op, 'w) inner_write \<Rightarrow> rstring \<times> rstring \<Rightarrow> LogGlob \<times> 'w \<Rightarrow> log_op list \<Rightarrow> LogGlob \<times> 'w" where
  "run_log_ops inner panic_text gw ops = foldl (run_log_op inner panic_text) gw ops"

section \<open>The line of a record\<close>

text \<open>What a \<open>Display\<close> value writes before it returns, and whether it returns \<open>Ok\<close>.\<close>

record display =
  shown :: rstring
  shown_ok :: bool

definition render :: "display \<Rightarrow> rstring" where
  "render v = shown v @ (if shown_ok v then [] else lit ''[fmt error]'')"

text \<open>
  The structured fields of a record, as the \<open>log\<close> crate visits them, and the error it stops at,
  if any. Writing into a \<open>String\<close> does not fail, so the visitor itself raises none.
\<close>

record kv_source =
  kv_pairs :: "(rstring \<times> display) list"
  kv_error :: "rstring option"

definition visit_pair :: "rstring \<Rightarrow> rstring \<times> display \<Rightarrow> rstring" where
  "visit_pair out kv =
     out @ lit '' '' @ escape_control (fst kv) @ lit ''='' @
       sanitize_log_text (render (snd kv)) LOG_FIELD_MAX_BYTES"

definition kv_text :: "kv_source \<Rightarrow> rstring" where
  "kv_text kvs =
     (let out = foldl visit_pair [] (kv_pairs kvs) in
      case kv_error kvs of None \<Rightarrow> out | Some e \<Rightarrow> out @ lit '' [KV Error: '' @ e @ lit '']'')"

fun level_name :: "Level \<Rightarrow> rstring" where
  "level_name At_Error = lit ''ERROR''"
| "level_name At_Warn = lit ''WARN''"
| "level_name At_Info = lit ''INFO''"
| "level_name At_Debug = lit ''DEBUG''"
| "level_name At_Trace = lit ''TRACE''"

definition USIZE_MAX :: nat where
  "USIZE_MAX = 2 ^ 64 - 1"

definition format_record :: "rstring \<Rightarrow> rstring \<Rightarrow> Level \<Rightarrow> display \<Rightarrow> kv_source \<Rightarrow> rstring" where
  "format_record now target level message kvs =
     (let kv_output = kv_text kvs;
          max_bytes = (if target = PANIC_LOG_TARGET then USIZE_MAX else LOG_FIELD_MAX_BYTES)
      in now @ lit ''['' @ target @ lit '']['' @ level_name level @ lit ''] '' @
         sanitize_log_text (render message) max_bytes @ kv_output)"

section \<open>Installing the logger\<close>

text \<open>
  How \<open>file-rotate\<close> opens its files, and the calls to the file system, in order. The mode bits
  are \<open>0o700\<close> and \<open>0o600\<close>.
\<close>

record open_options =
  open_read :: bool
  open_create :: bool
  open_append :: bool
  open_mode :: nat

definition owner_only_dir :: nat where
  "owner_only_dir = 7 * 8 ^ 2"

definition owner_only_file :: nat where
  "owner_only_file = 6 * 8 ^ 2"

definition owner_only_open_options :: open_options where
  "owner_only_open_options =
     \<lparr>open_read = True, open_create = True, open_append = True, open_mode = owner_only_file\<rparr>"

datatype fs_call =
    Create_Dir_All rstring
  | Set_Permissions rstring nat
  | Rotate_Files rstring "64 word" u64 open_options

text \<open>What the environment answers: errors carry the text they display as.\<close>

record log_env =
  env_create_dir :: "rstring option"
  env_chmod_dir :: "rstring option"
  env_read_dir :: "rstring list option"
  env_apply :: "rstring option"

definition BYTES_PER_MB :: u64 where
  "BYTES_PER_MB = 1048576"

definition path_join :: "rstring \<Rightarrow> rstring \<Rightarrow> rstring" where
  "path_join base part =
     (if base = [] \<or> last base = 47 then base @ part else base @ [47] @ part)"

definition is_log_file :: "rstring \<Rightarrow> bool" where
  "is_log_file f \<longleftrightarrow> f = lit ''minotari.log'' \<or> starts_with f (lit ''minotari.log.'')"

definition set_levels :: "LogLevels option \<Rightarrow> LogGlob \<Rightarrow> LogGlob" where
  "set_levels levels g = g\<lparr>log_levels := levels\<rparr>"

definition install_panic_hook :: "LogGlob \<Rightarrow> LogGlob" where
  "install_panic_hook g = (if hook_installed g then g else g\<lparr>hook_installed := True\<rparr>)"

definition restrict_logs :: "log_env \<Rightarrow> rstring \<Rightarrow> fs_call list" where
  "restrict_logs env log_dir =
     Set_Permissions log_dir owner_only_dir #
       (case env_read_dir env of
          None \<Rightarrow> []
        | Some entries \<Rightarrow>
            map (\<lambda>f. Set_Permissions (path_join log_dir f) owner_only_file) (filter is_log_file entries))"

definition apply_dispatch :: "bool \<Rightarrow> log_env \<Rightarrow> LoggerConfig \<Rightarrow> LogGlob \<Rightarrow> (rstring + unit) \<times> LogGlob" where
  "apply_dispatch debug env config g =
     (let levels = new_LogLevels config;
          mx = max_level levels;
          g = set_levels (Some levels) g
      in case env_apply env of
           Some e \<Rightarrow>
             (Inl (lit ''Logger could not be initialized: '' @ e @
                lit ''. Logs will go to the existing logger.''), set_levels None g)
         | None \<Rightarrow>
             let g = g\<lparr>log_max_level := mx, logger_installed := True\<rparr>;
                 g = (if debug then install_panic_hook g else g);
                 g = log_call At_Info LOGGER_TARGET (lit ''Minotari Logger Initialized'') g
             in (Inr (),
                 case env_chmod_dir env of
                   Some e \<Rightarrow> log_call At_Warn LOGGER_TARGET (lit ''could not restrict logs/ permissions: '' @ e) g
                 | None \<Rightarrow> g))"

definition init_logger ::
  "bool \<Rightarrow> log_env \<Rightarrow> rstring \<Rightarrow> LoggerConfig option \<Rightarrow> LogGlob \<Rightarrow>
     (rstring + unit) \<times> LogGlob \<times> fs_call list" where
  "init_logger debug env base_path config g =
     (if logger_installed g then (Inr (), g, [])
      else
        let g = (if debug then g else install_panic_hook g);
            config = (case config of None \<Rightarrow> default_LoggerConfig | Some c \<Rightarrow> c)
        in if lc_max_file_size_mb config = 0
           then (Inl (lit ''max_file_size_mb must be greater than 0''), g, [])
           else
             let max_file_bytes = sat_mul (lc_max_file_size_mb config) BYTES_PER_MB;
                 log_dir = path_join base_path (lit ''logs'')
             in case env_create_dir env of
                  Some e \<Rightarrow> (Inl e, g, [Create_Dir_All log_dir])
                | None \<Rightarrow>
                    let (r, g) = apply_dispatch debug env config g
                    in (r, g, Create_Dir_All log_dir # restrict_logs env log_dir @
                          [Rotate_Files (path_join log_dir (lit ''minotari.log'')) (lc_max_files config)
                             max_file_bytes owner_only_open_options]))"

section \<open>Changing the level\<close>

fun LogLevel_debug :: "LogLevel \<Rightarrow> rstring" where
  "LogLevel_debug Log_Error = lit ''Error''"
| "LogLevel_debug Log_Warn = lit ''Warn''"
| "LogLevel_debug Log_Info = lit ''Info''"
| "LogLevel_debug Log_Debug = lit ''Debug''"
| "LogLevel_debug Log_Trace = lit ''Trace''"
| "LogLevel_debug Log_Off = lit ''Off''"

definition set_log_level :: "LogLevel \<Rightarrow> LogGlob \<Rightarrow> (rstring + unit) \<times> LogGlob" where
  "set_log_level level g =
     (case log_levels g of
        None \<Rightarrow> (Inl (lit ''Logger is not initialized; call init_logger first''), g)
      | Some levels \<Rightarrow>
          let levels = levels\<lparr>runtime_level := Some (filter_from level)\<rparr>;
              g = g\<lparr>log_levels := Some levels\<rparr>;
              g = g\<lparr>log_max_level := max_level levels\<rparr>
          in (Inr (), log_call At_Info LOGGER_TARGET (lit ''Log level set to '' @ LogLevel_debug level) g))"

section \<open>Panics of the writer stay in it\<close>

text \<open>
  The operations are those of a thread that is not unwinding: the runtime aborts the process when
  a write made by the hook itself panics, so no later operation follows such a panic.
\<close>

text \<open>
  What the inner writer does when it gets the operations up to its first panic, and no more,
  each with the mark set.
\<close>

fun until_panic :: "(log_op, 'w) inner_write \<Rightarrow> 'w \<Rightarrow> log_op list \<Rightarrow> 'w \<times> bool" where
  "until_panic inner w [] = (w, False)"
| "until_panic inner w (x # xs) =
     (case inner x True w of (outcome, w') \<Rightarrow>
        if outcome = Panicked then (w', True) else until_panic inner w' xs)"

lemma run_log_ops_simps [simp]:
  "run_log_ops inner p gw [] = gw"
  "run_log_ops inner p gw (x # xs) = run_log_ops inner p (run_log_op inner p gw x) xs"
  by (simp_all add: run_log_ops_def)

lemma hook_in_write: "run_panic_hook info backtrace (guard_enter g) = guard_enter g"
  by (simp add: run_panic_hook_def panic_hook_def guard_enter_def)

lemma marked: "in_log_write (guard_enter g)"
  by (simp add: guard_enter_def)

lemma run_log_op_eq:
  "run_log_op inner p (g, w) x =
    (if log_writer_broken g then (g, w)
     else case inner x True w of (outcome, w') \<Rightarrow>
       (g\<lparr>in_log_write := False, log_writer_broken := (outcome = Panicked)\<rparr>, w'))"
proof -
  have "contained inner p x (g, w) = (case inner x True w of (outcome, w') \<Rightarrow>
      (g\<lparr>in_log_write := False, log_writer_broken := (outcome = Panicked)\<rparr>, w'))"
    if "\<not> log_writer_broken g" for x
    using that
    by (auto simp: contained_def Let_def hook_in_write marked split: prod.split)
       (auto simp: guard_enter_def guard_drop_def)
  then show ?thesis
    by (cases x) (simp_all add: log_write_def log_flush_def)
qed

text \<open>
  C35 (safety): the log writer under any sequence of writes and flushes. Each returns \<open>Ok\<close> (a
  write with the whole length), whatever the rotating file does; a panic inside never makes the
  hook log again (which would deadlock on the output lock) and leaves the thread's mark reset;
  the file sees every operation up to its first panic, each while the mark is set, and none
  after it.
\<close>

theorem log_writer_contains_panics:
  "run_log_ops inner panic_text (g, w) ops =
     (let final = until_panic inner w ops in
      if log_writer_broken g then (g, w)
      else (g\<lparr>in_log_write := (ops = [] \<and> in_log_write g), log_writer_broken := snd final\<rparr>, fst final)) \<and>
   fst (log_write inner panic_text buf (g, w)) = Inr (length buf) \<and>
   fst (log_flush inner panic_text (g, w)) = Inr ()"
proof -
  have broken: "run_log_ops inner panic_text (g, w) ops = (g, w)" if "log_writer_broken g" for g w ops
    using that by (induction ops) (simp_all add: run_log_op_eq)
  have "run_log_ops inner panic_text (g, w) ops =
      (g\<lparr>in_log_write := (ops = [] \<and> in_log_write g), log_writer_broken := snd (until_panic inner w ops)\<rparr>,
       fst (until_panic inner w ops))"
    if "\<not> log_writer_broken g" for g
    using that
    by (induction ops arbitrary: g w)
       (auto simp: run_log_op_eq broken split: prod.split)
  with broken show ?thesis
    by (simp add: Let_def log_write_def log_flush_def)
qed

section \<open>A record is one line\<close>

abbreviation clean :: "rstring \<Rightarrow> bool" where
  "clean s \<equiv> filter forges s = []"

lemma clean_printable: "list_all (\<lambda>c. 32 \<le> c \<and> c \<le> 126) s \<Longrightarrow> clean s"
  using printable_not_forges by (auto simp: filter_empty_conv list_all_iff)

lemma clean_escape: "clean (escape_control t)"
  using escape_char_clean by (auto simp: escape_control_def filter_empty_conv)

lemma clean_dec: "clean (format_dec n)"
  using format_dec_digits printable_not_forges by (force simp: filter_empty_conv)

lemma clean_sanitized: "clean (sanitize_log_text t n)"
proof -
  have "\<not> forges 0x2026" by (simp add: forges_def is_control_def is_cf_char_def)
  moreover have "clean (lit ''[truncated '')" "clean (lit '' bytes]'')"
    by (rule clean_printable, simp add: lit_def)+
  ultimately show ?thesis by (simp add: sanitize_log_text_def Let_def clean_escape clean_dec)
qed

lemma clean_visit: "clean out \<Longrightarrow> clean (foldl visit_pair out kvs)"
proof (induction kvs arbitrary: out)
  case (Cons kv kvs)
  have "clean (lit '' '')" "clean (lit ''='')" by (rule clean_printable, simp add: lit_def)+
  with Cons.prems have "clean (visit_pair out kv)"
    by (simp add: visit_pair_def clean_escape clean_sanitized)
  with Cons.IH show ?case by simp
qed simp

text \<open>
  A record is one line of the file. Whatever the message and the fields hold, the
  line has no line break, control, format or separator character, provided the time stamp, the
  target (a module path) and the error of the field visitor have none: these three are written
  as they are.
\<close>

theorem log_line_is_clean:
  assumes "clean now" "clean target" "clean (case_option [] id (kv_error kvs))"
  shows "clean (format_record now target level message kvs)"
proof -
  have "clean (lit ''['')" "clean (lit ''][''  )" "clean (lit ''] '')"
    "clean (lit '' [KV Error: '')" "clean (lit '']'')"
    by (rule clean_printable, simp add: lit_def)+
  moreover have "clean (level_name level)"
    by (rule clean_printable) (cases level; simp add: lit_def)
  moreover have "clean (kv_text kvs)"
    using assms(3) clean_visit [of "[]" "kv_pairs kvs"] calculation
    by (auto simp: kv_text_def Let_def split: option.splits)
  ultimately show ?thesis
    using assms(1,2) by (simp add: format_record_def Let_def clean_sanitized)
qed

theorem log_line_is_clean_witness:
  "clean (format_record (lit ''[2024-01-01 00:00:00]'') (lit ''minotari'') At_Info
     \<lparr>shown = [65, 10, 66], shown_ok = False\<rparr> \<lparr>kv_pairs = [], kv_error = None\<rparr>)"
  by (rule log_line_is_clean) (simp_all add: lit_def printable_not_forges)

section \<open>The logger is installed or it is not\<close>

text \<open>
  The levels are there exactly when the logger is installed, and then the global maximum is
  theirs.
\<close>

definition logger_ok :: "LogGlob \<Rightarrow> bool" where
  "logger_ok g \<longleftrightarrow>
     (case log_levels g of
        None \<Rightarrow> \<not> logger_installed g
      | Some l \<Rightarrow> logger_installed g \<and> log_max_level g = max_level l)"

lemma sat_mul_nonzero: "a \<noteq> 0 \<Longrightarrow> b \<noteq> 0 \<Longrightarrow> sat_mul a (b :: u64) \<noteq> 0"
  using unat_sat_mul [of a b] by (auto simp: unat_eq_0 simp flip: unat_0_iff)

lemma apply_dispatch_eq:
  "apply_dispatch debug env config g = (r, g') \<Longrightarrow>
    (case env_apply env of
       Some e \<Rightarrow> (\<exists>msg. r = Inl msg) \<and> g' = g\<lparr>log_levels := None\<rparr>
     | None \<Rightarrow> r = Inr () \<and> logger_installed g' \<and> log_levels g' = Some (new_LogLevels config) \<and>
         log_max_level g' = max_level (new_LogLevels config))"
  by (auto simp: apply_dispatch_def Let_def set_levels_def log_call_def install_panic_hook_def
      split: option.splits if_splits)

lemma install_panic_hook_fields [simp]:
  "logger_installed (install_panic_hook g) = logger_installed g"
  "log_levels (install_panic_hook g) = log_levels g"
  "log_max_level (install_panic_hook g) = log_max_level g"
  by (simp_all add: install_panic_hook_def)

definition zero_limit :: "fs_call \<Rightarrow> bool" where
  "zero_limit c \<longleftrightarrow> (case c of Rotate_Files _ _ b _ \<Rightarrow> b = 0 | _ \<Rightarrow> False)"

lemma restrict_logs_no_rotation: "filter zero_limit (restrict_logs env d) = []"
  by (auto simp: restrict_logs_def zero_limit_def filter_empty_conv split: option.split)

lemma init_logger_outcome:
  assumes "logger_ok g" "init_logger debug env base_path config g = (r, g', calls)"
  shows "logger_ok g' \<and> logger_installed g' = is_ok r \<and> filter zero_limit calls = []"
proof (cases "logger_installed g")
  case True
  with assms show ?thesis by (auto simp: init_logger_def)
next
  case False
  let ?g = "if debug then g else install_panic_hook g"
  let ?c = "case config of None \<Rightarrow> default_LoggerConfig | Some c \<Rightarrow> c"
  have g: "\<not> logger_installed ?g" "log_levels ?g = None" "logger_ok ?g"
    using False assms(1) by (auto simp: logger_ok_def split: option.splits)
  consider (zero) "lc_max_file_size_mb ?c = 0"
    | (dir) e where "lc_max_file_size_mb ?c \<noteq> 0" "env_create_dir env = Some e"
    | (opened) "lc_max_file_size_mb ?c \<noteq> 0" "env_create_dir env = None"
    by (cases "env_create_dir env") auto
  then show ?thesis
  proof cases
    case opened
    with False assms(2) have dispatched: "apply_dispatch debug env ?c ?g = (r, g')"
      and "filter zero_limit calls = []"
      using sat_mul_nonzero [of "lc_max_file_size_mb ?c" BYTES_PER_MB]
      by (auto simp: init_logger_def Let_def restrict_logs_no_rotation zero_limit_def BYTES_PER_MB_def
          split: prod.splits)
    with apply_dispatch_eq [OF dispatched] g show ?thesis
      by (auto simp: logger_ok_def split: option.splits)
  qed (use False assms(2) g in \<open>auto simp: init_logger_def Let_def zero_limit_def\<close>)
qed

text \<open>
  C36 (error): installing the logger is all or nothing. From a state in which it is installed or
  not, an error leaves it not installed, with no levels, so that changing the level is refused;
  a success leaves it installed, and a further call, with whatever arguments, does nothing. The
  rotating file is never opened with a limit of zero bytes, on which it would panic.
\<close>

theorem init_logger_all_or_nothing:
  assumes "logger_ok g" "init_logger debug env base_path config g = (r, g', calls)"
  shows "logger_ok g' \<and> logger_installed g' = is_ok r \<and>
    is_ok (fst (set_log_level level g')) = is_ok r \<and>
    (init_logger debug env' base_path' config' g' = (Inr (), g', [])) = is_ok r \<and>
    filter zero_limit calls = []"
proof -
  note out = init_logger_outcome [OF assms]
  then have "(log_levels g' = None) = (\<not> is_ok r)" by (auto simp: logger_ok_def split: option.splits)
  with out show ?thesis
    by (auto simp: set_log_level_def Let_def init_logger_def split: option.splits prod.splits)
qed

theorem init_logger_all_or_nothing_witness:
  "logger_installed (fst (snd (init_logger True
     \<lparr>env_create_dir = None, env_chmod_dir = None, env_read_dir = None, env_apply = None\<rparr>
     (lit ''base'') (Some \<lparr>lc_default_level = Log_Info, lc_module_levels = [],
       lc_max_file_size_mb = 1, lc_max_files = 1\<rparr>) initial_LogGlob)))"
proof -
  let ?i = "init_logger True
     \<lparr>env_create_dir = None, env_chmod_dir = None, env_read_dir = None, env_apply = None\<rparr>
     (lit ''base'') (Some \<lparr>lc_default_level = Log_Info, lc_module_levels = [],
       lc_max_file_size_mb = 1, lc_max_files = 1\<rparr>) initial_LogGlob"
  have "logger_ok initial_LogGlob" by (simp add: logger_ok_def initial_LogGlob_def)
  moreover have "?i = (fst ?i, fst (snd ?i), snd (snd ?i))" by simp
  moreover have "is_ok (fst ?i)"
    by (simp add: init_logger_def initial_LogGlob_def apply_dispatch_def Let_def)
  ultimately show ?thesis using init_logger_all_or_nothing by blast
qed

text \<open>The calls Dart can make, in any order.\<close>

datatype log_api =
    Init_Logger log_env rstring "LoggerConfig option"
  | Set_Log_Level LogLevel

fun run_log_api :: "bool \<Rightarrow> LogGlob \<Rightarrow> log_api \<Rightarrow> LogGlob" where
  "run_log_api debug g (Init_Logger env base_path config) =
     fst (snd (init_logger debug env base_path config g))"
| "run_log_api debug g (Set_Log_Level level) = snd (set_log_level level g)"

lemma set_log_level_ok: "logger_ok g \<Longrightarrow> logger_ok (snd (set_log_level level g))"
  by (auto simp: logger_ok_def set_log_level_def Let_def log_call_def split: option.splits)

text \<open>
  In every state Dart can bring the logger to, by installing it and changing its
  level in any order and whatever the file system and the \<open>log\<close> crate answer, the levels are
  there exactly when it is installed, and no record they let through is lost to the global
  maximum.
\<close>

theorem logger_state_invariant:
  "let g = foldl (run_log_api debug) initial_LogGlob calls in
     logger_ok g \<and> logger_installed g = (log_levels g \<noteq> None) \<and>
     record_enabled (log_levels g) level target =
       (to_level_filter level \<le> log_max_level g \<and> record_enabled (log_levels g) level target)"
proof -
  let ?g = "foldl (run_log_api debug) initial_LogGlob calls"
  have step: "logger_ok (run_log_api debug g c)" if "logger_ok g" for g c
  proof (cases c)
    case (Init_Logger env base_path config)
    obtain r g' fs where "init_logger debug env base_path config g = (r, g', fs)"
      by (cases "init_logger debug env base_path config g") auto
    with init_logger_outcome [OF that this] Init_Logger show ?thesis by simp
  qed (use set_log_level_ok [OF that] in simp)
  have "logger_ok ?g"
    by (induction calls rule: rev_induct) (simp_all add: step, simp add: logger_ok_def initial_LogGlob_def)
  moreover from this have "logger_installed ?g = (log_levels ?g \<noteq> None)"
    by (simp add: logger_ok_def split: option.splits)
  moreover have "to_level_filter level \<le> log_max_level ?g" if "record_enabled (log_levels ?g) level target"
    using that \<open>logger_ok ?g\<close> level_for_le_max
    by (auto simp: logger_ok_def record_enabled_def split: option.splits intro: order_trans)
  ultimately show ?thesis by (auto simp: Let_def)
qed

end
