(* ===== verification/Codec.thy ===== *)
theory Codec
  imports Config
begin

text \<open>
  The bytes values cross the bridge as (\<open>src/frb_generated.rs\<close>): the encoders append to the
  message, the decoders read from its front. A read past the end, a byte sequence that is not
  UTF-8 and an unknown variant panic in the code; the decoder is \<open>None\<close> there. Integers are in
  native byte order, which is little endian on every target of the app. This theory holds the
  primitive types, the generic shapes of vectors and options, and the law all codecs share, as a
  locale.
\<close>

type_synonym i32 = "32 word"

type_synonym 'a encoder = "'a \<Rightarrow> u8 list"
type_synonym 'a decoder = "u8 list \<Rightarrow> ('a \<times> u8 list) option"

named_theorems codec_defs \<open>definitions of the encoders and decoders\<close>
named_theorems codec_rt \<open>decoding what was encoded\<close>

section \<open>Integers\<close>

fun le_bytes :: "nat \<Rightarrow> nat \<Rightarrow> u8 list" where
  "le_bytes 0 n = []"
| "le_bytes (Suc k) n = of_nat (n mod 256) # le_bytes k (n div 256)"

fun le_nat :: "u8 list \<Rightarrow> nat" where
  "le_nat [] = 0"
| "le_nat (b # bs) = unat b + 256 * le_nat bs"

definition read_le :: "nat \<Rightarrow> nat decoder" where
  "read_le k bs = (if length bs < k then None else Some (le_nat (take k bs), drop k bs))"

lemma length_le_bytes [simp]: "length (le_bytes k n) = k"
  by (induction k arbitrary: n) simp_all

lemma le_nat_bytes [simp]: "le_nat (le_bytes k n) = n mod 256 ^ k"
  by (induction k arbitrary: n) (simp_all add: unat_of_nat mod_mult2_eq)

lemma read_le_bytes [simp]: "read_le k (le_bytes k n @ rest) = Some (n mod 256 ^ k, rest)"
  by (simp add: read_le_def)

section \<open>Sequencing\<close>

definition decode_return :: "'a \<Rightarrow> 'a decoder" where
  "decode_return x bs = Some (x, bs)"

definition decode_panic :: "'a decoder" where
  "decode_panic bs = None"

definition decode_then :: "'a decoder \<Rightarrow> ('a \<Rightarrow> 'b decoder) \<Rightarrow> 'b decoder" where
  "decode_then d f bs = (case d bs of None \<Rightarrow> None | Some (x, rest) \<Rightarrow> f x rest)"

lemma decode_simps [simp]:
  "decode_return x bs = Some (x, bs)"
  "decode_panic bs = None"
  "decode_then d f bs = (case d bs of None \<Rightarrow> None | Some (x, rest) \<Rightarrow> f x rest)"
  by (simp_all add: decode_return_def decode_panic_def decode_then_def)

section \<open>The primitive types\<close>

definition encode_u8 :: "u8 encoder" where
  "encode_u8 x = le_bytes 1 (unat x)"

definition decode_u8 :: "u8 decoder" where
  "decode_u8 = decode_then (read_le 1) (\<lambda>n. decode_return (of_nat n))"

definition encode_u16 :: "u16 encoder" where
  "encode_u16 x = le_bytes 2 (unat x)"

definition decode_u16 :: "u16 decoder" where
  "decode_u16 = decode_then (read_le 2) (\<lambda>n. decode_return (of_nat n))"

definition encode_u32 :: "u32 encoder" where
  "encode_u32 x = le_bytes 4 (unat x)"

definition decode_u32 :: "u32 decoder" where
  "decode_u32 = decode_then (read_le 4) (\<lambda>n. decode_return (of_nat n))"

definition encode_u64 :: "u64 encoder" where
  "encode_u64 x = le_bytes 8 (unat x)"

definition decode_u64 :: "u64 decoder" where
  "decode_u64 = decode_then (read_le 8) (\<lambda>n. decode_return (of_nat n))"

text \<open>The signed types have the bits of the unsigned ones; a \<open>usize\<close> crosses as a \<open>u64\<close>.\<close>

definition encode_i32 :: "i32 encoder" where
  "encode_i32 x = le_bytes 4 (unat x)"

definition decode_i32 :: "i32 decoder" where
  "decode_i32 = decode_then (read_le 4) (\<lambda>n. decode_return (of_nat n))"

definition encode_i64 :: "i64 encoder" where
  "encode_i64 x = le_bytes 8 (unat x)"

definition decode_i64 :: "i64 decoder" where
  "decode_i64 = decode_then (read_le 8) (\<lambda>n. decode_return (of_nat n))"

definition encode_usize :: "usize encoder" where
  "encode_usize x = le_bytes 8 (unat x)"

definition decode_usize :: "usize decoder" where
  "decode_usize = decode_then (read_le 8) (\<lambda>n. decode_return (of_nat n))"

definition encode_bool :: "bool encoder" where
  "encode_bool x = [if x then 1 else 0]"

definition decode_bool :: "bool decoder" where
  "decode_bool = decode_then (read_le 1) (\<lambda>n. decode_return (n \<noteq> 0))"

definition encode_unit :: "unit encoder" where
  "encode_unit x = []"

definition decode_unit :: "unit decoder" where
  "decode_unit = decode_return ()"

section \<open>Vectors and options\<close>

text \<open>A length as an \<open>i32\<close> (the cast keeps the low 32 bits) and the items; \<open>0..len\<close> is signed.\<close>

definition encode_vec :: "'a encoder \<Rightarrow> 'a list encoder" where
  "encode_vec encode xs = encode_i32 (of_nat (length xs)) @ concat (map encode xs)"

primrec decode_items :: "'a decoder \<Rightarrow> nat \<Rightarrow> 'a list decoder" where
  "decode_items decode 0 = decode_return []"
| "decode_items decode (Suc n) =
     decode_then decode (\<lambda>x. decode_then (decode_items decode n) (\<lambda>xs. decode_return (x # xs)))"

definition decode_vec :: "'a decoder \<Rightarrow> 'a list decoder" where
  "decode_vec decode = decode_then decode_i32 (\<lambda>len. decode_items decode (nat (sint len)))"

definition encode_option :: "'a encoder \<Rightarrow> 'a option encoder" where
  "encode_option encode x =
     encode_bool (x \<noteq> None) @ (case x of None \<Rightarrow> [] | Some v \<Rightarrow> encode v)"

definition decode_option :: "'a decoder \<Rightarrow> 'a option decoder" where
  "decode_option decode =
     decode_then decode_bool (\<lambda>some.
       if some then decode_then decode (\<lambda>v. decode_return (Some v)) else decode_return None)"

text \<open>\<open>deserializer.end()\<close> panics unless the whole message was read.\<close>

definition decode_message :: "'a decoder \<Rightarrow> u8 list \<Rightarrow> 'a option" where
  "decode_message decode bs =
     (case decode bs of Some (x, []) \<Rightarrow> Some x | _ \<Rightarrow> None)"

lemma decode_word:
  fixes x :: "'a::len word"
  assumes "LENGTH('a) = 8 * k"
  shows "decode_then (read_le k) (\<lambda>n. decode_return (of_nat n)) (le_bytes k (unat x) @ rest) = Some (x, rest)"
proof -
  have "256 ^ k = (2 :: nat) ^ LENGTH('a)" using assms power_mult [of "2 :: nat" 8 k] by simp
  then have "unat x mod 256 ^ k = unat x" using unsigned_less [of x] by simp
  then show ?thesis by simp
qed

lemma decode_int [codec_rt]:
  "decode_u8 (encode_u8 a @ rest) = Some (a, rest)"
  "decode_u16 (encode_u16 b @ rest) = Some (b, rest)"
  "decode_u32 (encode_u32 c @ rest) = Some (c, rest)"
  "decode_u64 (encode_u64 d @ rest) = Some (d, rest)"
  "decode_i32 (encode_i32 c @ rest) = Some (c, rest)"
  "decode_i64 (encode_i64 d @ rest) = Some (d, rest)"
  "decode_usize (encode_usize d @ rest) = Some (d, rest)"
  by (simp_all only: decode_u8_def encode_u8_def decode_u16_def encode_u16_def decode_u32_def
      encode_u32_def decode_u64_def encode_u64_def decode_i32_def encode_i32_def decode_i64_def
      encode_i64_def decode_usize_def encode_usize_def)
     (rule decode_word, simp)+

lemma decode_bool [codec_rt]:
  "decode_bool (encode_bool p @ rest) = Some (p, rest)"
proof -
  have "read_le 1 (encode_bool p @ rest) = Some (if p then 1 else 0, rest)"
    by (simp add: encode_bool_def read_le_def)
  then show ?thesis by (simp add: decode_bool_def)
qed

lemma decode_unit [codec_rt]: "decode_unit (encode_unit u @ rest) = Some (u, rest)"
  by (simp add: decode_unit_def encode_unit_def)

section \<open>The law of a codec\<close>

text \<open>
  Decoding gives back every value the encoding can carry and leaves what follows it. \<open>valid\<close>
  says which those are: a vector or a string has a length that fits an \<open>i32\<close>.
\<close>

locale codec =
  fixes encode :: "'a \<Rightarrow> u8 list"
    and decode :: "u8 list \<Rightarrow> ('a \<times> u8 list) option"
    and valid :: "'a \<Rightarrow> bool"
  assumes decode_encode: "valid x \<Longrightarrow> decode (encode x @ rest) = Some (x, rest)"
begin

lemma prefix_free:
  assumes "valid x" "valid y" "encode x @ r = encode y @ r'"
  shows "x = y \<and> r = r'"
  using decode_encode [OF assms(1), of r, unfolded assms(3)] decode_encode [OF assms(2), of r'] by simp

lemma decode_message_encode: "valid x \<Longrightarrow> decode_message decode (encode x) = Some x"
  using decode_encode [of x "[]"] by (simp add: decode_message_def)

lemma decode_items_encode:
  "list_all valid xs \<Longrightarrow> decode_items decode (length xs) (concat (map encode xs) @ rest) = Some (xs, rest)"
  by (induction xs) (simp_all add: decode_encode)

lemma decode_option_encode:
  "pred_option valid x \<Longrightarrow> decode_option decode (encode_option encode x @ rest) = Some (x, rest)"
  by (cases x)
     (simp_all add: decode_option_def encode_option_def codec_rt decode_encode)

end

text \<open>
  Nothing but such values is ever decoded, whatever the bytes: a value that was read can be
  written, and what its type promises holds of it.
\<close>

locale strict_codec = codec +
  assumes decode_valid: "decode bs = Some (x, rest) \<Longrightarrow> valid x"
begin

lemma decode_again: "decode bs = Some (x, rest) \<Longrightarrow> decode (encode x @ r) = Some (x, r)"
  by (rule decode_encode) (rule decode_valid)

lemma decode_items_valid:
  "decode_items decode n bs = Some (xs, rest) \<Longrightarrow> list_all valid xs \<and> length xs = n"
proof (induction n arbitrary: bs xs)
  case (Suc n)
  then obtain x r ys where "decode bs = Some (x, r)" "decode_items decode n r = Some (ys, rest)" "xs = x # ys"
    by (auto split: option.splits)
  with Suc.IH decode_valid show ?case by auto
qed simp

lemma decode_option_valid: "decode_option decode bs = Some (x, rest) \<Longrightarrow> pred_option valid x"
  by (auto simp: decode_option_def dest!: decode_valid split: option.splits if_splits)

end

named_theorems codec_valid \<open>what a decoder yields is valid\<close>

lemma decode_thenE:
  assumes "decode_then d f bs = Some (y, rest)"
  obtains x r where "d bs = Some (x, r)" "f x r = Some (y, rest)"
  using assms by (auto split: option.splits)

interpretation u8: strict_codec encode_u8 decode_u8 "\<lambda>_. True" by unfold_locales (simp_all add: codec_rt)
interpretation u16: strict_codec encode_u16 decode_u16 "\<lambda>_. True" by unfold_locales (simp_all add: codec_rt)
interpretation u32: strict_codec encode_u32 decode_u32 "\<lambda>_. True" by unfold_locales (simp_all add: codec_rt)
interpretation u64: strict_codec encode_u64 decode_u64 "\<lambda>_. True" by unfold_locales (simp_all add: codec_rt)
interpretation i64: strict_codec encode_i64 decode_i64 "\<lambda>_. True" by unfold_locales (simp_all add: codec_rt)
interpretation usize: strict_codec encode_usize decode_usize "\<lambda>_. True" by unfold_locales (simp_all add: codec_rt)

definition fits_i32 :: "'a list \<Rightarrow> bool" where
  "fits_i32 xs \<longleftrightarrow> length xs < 2 ^ 31"

lemma sint_length:
  assumes "n < 2 ^ 31"
  shows "nat (sint (of_nat n :: i32)) = n"
proof -
  from assms have "int n < 2 ^ 31" by (metis of_nat_less_iff of_nat_numeral of_nat_power)
  then show ?thesis by (simp add: signed_of_nat signed_take_bit_int_eq_self)
qed

context codec
begin

lemma decode_vec_encode:
  assumes "list_all valid xs" "fits_i32 xs"
  shows "decode_vec decode (encode_vec encode xs @ rest) = Some (xs, rest)"
  using decode_items_encode [OF assms(1)] assms(2) sint_length [of "length xs"]
  by (simp add: decode_vec_def encode_vec_def fits_i32_def codec_rt)

end

text \<open>A length that was read is below \<open>2 ^ 31\<close>, as it is the value of an \<open>i32\<close>.\<close>

lemma nat_sint_i32: "nat (sint (len :: i32)) < 2 ^ 31"
  using sint_lt [of len] by simp

context strict_codec
begin

lemma decode_vec_valid:
  "decode_vec decode bs = Some (xs, rest) \<Longrightarrow> list_all valid xs \<and> fits_i32 xs"
  using nat_sint_i32 by (auto simp: decode_vec_def fits_i32_def dest!: decode_items_valid split: option.splits)

end

end
