(* ===== verification/Codec_Text.thy ===== *)
theory Codec_Text
  imports Codec
begin

text \<open>
  Strings on the bridge (\<open>src/frb_generated.rs\<close>): their UTF-8 bytes as a vector, read back by
  \<open>String::from_utf8\<close>, which accepts exactly the well-formed sequences.
\<close>

section \<open>UTF-8\<close>

definition byte :: "nat \<Rightarrow> u8" where
  "byte n = of_nat n"

text \<open>\<open>String::into_bytes\<close>.\<close>

definition utf8_char :: "rchar \<Rightarrow> u8 list" where
  "utf8_char c =
     (if c < 0x80 then [byte c]
      else if c < 0x800 then [byte (0xC0 + c div 64), byte (0x80 + c mod 64)]
      else if c < 0x10000 then
        [byte (0xE0 + c div 4096), byte (0x80 + c div 64 mod 64), byte (0x80 + c mod 64)]
      else
        [byte (0xF0 + c div 262144), byte (0x80 + c div 4096 mod 64), byte (0x80 + c div 64 mod 64),
         byte (0x80 + c mod 64)])"

definition utf8_bytes :: "rstring \<Rightarrow> u8 list" where
  "utf8_bytes s = concat (map utf8_char s)"

text \<open>\<open>String::from_utf8\<close>: overlong forms, surrogates and values beyond Unicode are refused.\<close>

definition continuation :: "nat decoder" where
  "continuation bs =
     (case bs of
        [] \<Rightarrow> None
      | b # rest \<Rightarrow> if 0x80 \<le> unat b \<and> unat b \<le> 0xBF then Some (unat b - 0x80, rest) else None)"

definition decode_if :: "bool \<Rightarrow> 'a \<Rightarrow> 'a decoder" where
  "decode_if ok x bs = (if ok then Some (x, bs) else None)"

definition next_char :: "rchar decoder" where
  "next_char bs =
     (case bs of
        [] \<Rightarrow> None
      | b # rest \<Rightarrow>
          let b = unat b in
          if b < 0x80 then Some (b, rest)
          else if 0xC2 \<le> b \<and> b \<le> 0xDF then
            decode_then continuation (\<lambda>x. decode_return ((b - 0xC0) * 64 + x)) rest
          else if 0xE0 \<le> b \<and> b \<le> 0xEF then
            decode_then continuation (\<lambda>x. decode_then continuation (\<lambda>y.
              let c = (b - 0xE0) * 4096 + x * 64 + y in decode_if (0x800 \<le> c \<and> scalar_value c) c)) rest
          else if 0xF0 \<le> b \<and> b \<le> 0xF4 then
            decode_then continuation (\<lambda>x. decode_then continuation (\<lambda>y. decode_then continuation (\<lambda>z.
              let c = (b - 0xF0) * 262144 + x * 4096 + y * 64 + z
              in decode_if (0x10000 \<le> c \<and> scalar_value c) c))) rest
          else None)"

lemma unat_byte: "n < 256 \<Longrightarrow> unat (byte n) = n"
  by (simp add: byte_def unat_of_nat)

lemma continuation_Some:
  "continuation bs = Some (x, rest) \<longleftrightarrow> x < 64 \<and> bs = byte (0x80 + x) # rest"
proof (cases bs)
  case (Cons b bs')
  have "unat (byte (128 + x)) = 128 + x" if "x < 64"
    using that by (intro unat_byte) simp
  moreover have "b = byte (128 + (unat b - 128))" if "128 \<le> unat b"
    using that by (simp add: byte_def)
  ultimately show ?thesis
    using Cons by (auto simp: continuation_def)
qed (simp add: continuation_def)

lemma continuation_shorter: "continuation bs = Some (x, rest) \<Longrightarrow> length rest < length bs"
  by (auto simp: continuation_Some)

lemma next_char_shorter: "next_char bs = Some (c, rest) \<Longrightarrow> length rest < length bs"
  by (auto simp: next_char_def decode_if_def Let_def dest!: continuation_shorter
      split: list.splits if_splits option.splits)

function from_utf8 :: "u8 list \<Rightarrow> rstring option" where
  "from_utf8 bs =
     (if bs = [] then Some []
      else case next_char bs of
        None \<Rightarrow> None
      | Some (c, rest) \<Rightarrow> map_option (Cons c) (from_utf8 rest))"
  by pat_completeness auto
termination
  by (relation "measure length") (auto dest: next_char_shorter)

declare from_utf8.simps [simp del]

section \<open>The bytes accepted are the encodings\<close>

lemma byte_unat: "n = unat b \<Longrightarrow> byte n = b"
  by (simp add: byte_def)

text \<open>Splitting and joining groups of six bits.\<close>

lemma six_bits: "y < 64 \<Longrightarrow> (q * 64 + y) div 64 = q" "y < 64 \<Longrightarrow> (q * 64 + y) mod 64 = (y :: nat)"
  by simp_all

lemma div_64:
  "(c :: nat) div 4096 = c div 64 div 64" "c div 262144 = c div 64 div 64 div 64"
  using div_mult2_eq [of c 64 64] div_mult2_eq [of "c div 64" 64 64] div_mult2_eq [of c 64 4096] by simp_all

lemma join_3: "c div 4096 * 4096 + c div 64 mod 64 * 64 + c mod 64 = (c :: nat)"
  using div_mult_mod_eq [of c 64] div_mult_mod_eq [of "c div 64" 64] unfolding div_64 by linarith

lemma join_4: "c div 262144 * 262144 + c div 4096 mod 64 * 4096 + c div 64 mod 64 * 64 + c mod 64 = (c :: nat)"
  using join_3 [of c] div_mult_mod_eq [of "c div 64 div 64" 64] unfolding div_64 by linarith

lemma split_3:
  assumes "x < 64" "y < 64" "c = h * 4096 + x * 64 + (y :: nat)"
  shows "c div 4096 = h" "c div 64 mod 64 = x" "c mod 64 = y"
proof -
  have c: "c = (h * 64 + x) * 64 + y" using assms(3) by simp
  then have "c div 64 = h * 64 + x" using six_bits(1) [OF assms(2)] by simp
  then show "c div 4096 = h" "c div 64 mod 64 = x"
    using six_bits [OF assms(1)] by (simp_all add: div_64)
  show "c mod 64 = y" unfolding c by (rule six_bits(2) [OF assms(2)])
qed

lemma split_4:
  assumes "x < 64" "y < 64" "z < 64" "c = h * 262144 + x * 4096 + y * 64 + (z :: nat)"
  shows "c div 262144 = h" "c div 4096 mod 64 = x" "c div 64 mod 64 = y" "c mod 64 = z"
proof -
  have c: "c = (h * 4096 + x * 64 + y) * 64 + z" using assms(4) by simp
  then have "c div 64 = h * 4096 + x * 64 + y" using six_bits(1) [OF assms(3)] by simp
  with split_3 [OF assms(1,2) this] show "c div 262144 = h" "c div 4096 mod 64 = x" "c div 64 mod 64 = y"
    by (simp_all add: div_64)
  show "c mod 64 = z" unfolding c by (rule six_bits(2) [OF assms(3)])
qed

lemma next_char_encode:
  assumes "scalar_value c"
  shows "next_char (utf8_char c @ rest) = Some (c, rest)"
proof -
  have cont: "continuation (byte (128 + x) # r) = Some (x, r)" if "x < 64" for x r
    using that by (simp add: continuation_Some)
  consider (1) "c < 0x80" | (2) "0x80 \<le> c" "c < 0x800" | (3) "0x800 \<le> c" "c < 0x10000"
    | (4) "0x10000 \<le> c" "c < 0x110000"
    using assms by (force simp: scalar_value_def)
  then show ?thesis
  proof cases
    case 1
    then show ?thesis by (simp add: utf8_char_def next_char_def unat_byte)
  next
    case 2
    then have "c div 64 < 32" "2 \<le> c div 64" by auto
    with 2 show ?thesis
      by (simp add: utf8_char_def next_char_def unat_byte cont)
  next
    case 3
    then have "c div 4096 < 16" by auto
    moreover have "c div 4096 * 4096 + c div 64 mod 64 * 64 + c mod 64 = c"
      by (rule join_3)
    ultimately show ?thesis using 3 assms
      by (simp add: utf8_char_def next_char_def unat_byte cont decode_if_def)
  next
    case 4
    then have "c div 262144 < 5" by auto
    moreover have "c div 262144 * 262144 + c div 4096 mod 64 * 4096 + c div 64 mod 64 * 64 + c mod 64 = c"
      by (rule join_4)
    ultimately show ?thesis using 4 assms
      by (simp add: utf8_char_def next_char_def unat_byte cont decode_if_def)
  qed
qed

lemma next_char_Some:
  assumes "next_char bs = Some (c, rest)"
  shows "scalar_value c \<and> bs = utf8_char c @ rest"
proof (cases bs)
  case Nil
  with assms show ?thesis by (simp add: next_char_def)
next
  case (Cons b r)
  consider (1) "unat b < 0x80" | (2) "0xC2 \<le> unat b" "unat b \<le> 0xDF"
    | (3) "0xE0 \<le> unat b" "unat b \<le> 0xEF" | (4) "0xF0 \<le> unat b" "unat b \<le> 0xF4"
    using assms Cons by (auto simp: next_char_def Let_def split: if_splits)
  then show ?thesis
  proof cases
    case 1
    with assms Cons show ?thesis
      by (auto simp: next_char_def utf8_char_def scalar_value_def byte_unat)
  next
    case 2
    with assms Cons obtain x where x: "x < 64" "r = byte (128 + x) # rest" "c = (unat b - 192) * 64 + x"
      by (auto simp: next_char_def Let_def continuation_Some split: option.splits)
    with 2 have "c div 64 = unat b - 192" "c mod 64 = x" "128 \<le> c" "c < 2048" by auto
    with x 2 Cons show ?thesis by (simp add: utf8_char_def scalar_value_def byte_unat)
  next
    case 3
    with assms Cons obtain x y where xy: "x < 64" "y < 64" "r = byte (128 + x) # byte (128 + y) # rest"
      "c = (unat b - 224) * 4096 + x * 64 + y" "2048 \<le> c" "scalar_value c"
      by (auto simp: next_char_def Let_def continuation_Some decode_if_def split: option.splits if_splits)
    define h where "h = unat b - 224"
    have "h < 16" "unat b = 224 + h" using 3 by (simp_all add: h_def)
    moreover have "c < 65536" using xy(1,2) \<open>h < 16\<close> unfolding xy(4) h_def [symmetric] by linarith
    moreover note split_3 [OF xy(1,2,4) [folded h_def]]
    ultimately show ?thesis using xy(3,5,6) Cons byte_unat [of "224 + h" b] by (simp add: utf8_char_def)
  next
    case 4
    with assms Cons obtain x y z where xyz: "x < 64" "y < 64" "z < 64"
      "r = byte (128 + x) # byte (128 + y) # byte (128 + z) # rest"
      "c = (unat b - 240) * 262144 + x * 4096 + y * 64 + z" "65536 \<le> c" "scalar_value c"
      by (auto simp: next_char_def Let_def continuation_Some decode_if_def split: option.splits if_splits)
    define h where "h = unat b - 240"
    have "h < 5" "unat b = 240 + h" using 4 by (simp_all add: h_def)
    moreover note split_4 [OF xyz(1,2,3,5) [folded h_def]]
    ultimately show ?thesis using xyz(4,6,7) Cons byte_unat [of "240 + h" b] by (simp add: utf8_char_def)
  qed
qed

text \<open>What is accepted is exactly the UTF-8 encoding of scalar values.\<close>

lemma from_utf8_exact:
  "from_utf8 bs = Some s \<longleftrightarrow> bs = utf8_bytes s \<and> list_all scalar_value s"
proof (induction bs arbitrary: s rule: from_utf8.induct)
  case (1 bs)
  show ?case
  proof (cases bs)
    case Nil
    have "utf8_bytes s \<noteq> []" if "s = c # s'" for c s'
      using that by (simp add: utf8_bytes_def utf8_char_def)
    with Nil show ?thesis by (cases s) (auto simp: from_utf8.simps utf8_bytes_def)
  next
    case Cons
    then have ne: "bs \<noteq> []" by simp
    show ?thesis
    proof (cases "next_char bs")
      case None
      then have "bs \<noteq> utf8_bytes s" if "list_all scalar_value s"
        using that next_char_encode ne by (cases s) (auto simp: utf8_bytes_def)
      with None ne show ?thesis by (auto simp: from_utf8.simps [of bs])
    next
      case (Some cr)
      then obtain c rest where n: "next_char bs = Some (c, rest)" by (cases cr) auto
      have "from_utf8 bs = Some s \<longleftrightarrow> (\<exists>s'. s = c # s' \<and> from_utf8 rest = Some s')"
        using n ne by (auto simp: from_utf8.simps [of bs])
      also have "\<dots> \<longleftrightarrow> (\<exists>s'. s = c # s' \<and> rest = utf8_bytes s' \<and> list_all scalar_value s')"
        using "1.IH" [OF ne n refl] by simp
      also have "\<dots> \<longleftrightarrow> bs = utf8_bytes s \<and> list_all scalar_value s"
      proof
        assume "\<exists>s'. s = c # s' \<and> rest = utf8_bytes s' \<and> list_all scalar_value s'"
        with next_char_Some [OF n] show "bs = utf8_bytes s \<and> list_all scalar_value s"
          by (auto simp: utf8_bytes_def)
      next
        assume s: "bs = utf8_bytes s \<and> list_all scalar_value s"
        with ne obtain c' s' where "s = c' # s'" by (cases s) (auto simp: utf8_bytes_def)
        with s n next_char_encode [of c' "utf8_bytes s'"]
        show "\<exists>s'. s = c # s' \<and> rest = utf8_bytes s' \<and> list_all scalar_value s'"
          by (auto simp: utf8_bytes_def)
      qed
      finally show ?thesis .
    qed
  qed
qed

section \<open>Strings\<close>

definition encode_Vec_u8 :: "u8 list encoder" where
  "encode_Vec_u8 = encode_vec encode_u8"

definition decode_Vec_u8 :: "u8 list decoder" where
  "decode_Vec_u8 = decode_vec decode_u8"

definition encode_String :: "rstring encoder" where
  "encode_String s = encode_Vec_u8 (utf8_bytes s)"

definition decode_String :: "rstring decoder" where
  "decode_String =
     decode_then decode_Vec_u8 (\<lambda>bs.
       case from_utf8 bs of None \<Rightarrow> decode_panic | Some s \<Rightarrow> decode_return s)"

definition encode_Vec_String :: "rstring list encoder" where
  "encode_Vec_String = encode_vec encode_String"

definition decode_Vec_String :: "rstring list decoder" where
  "decode_Vec_String = decode_vec decode_String"

text \<open>The strings that cross: scalar values only, in fewer than \<open>2 ^ 31\<close> bytes.\<close>

definition valid_String :: "rstring \<Rightarrow> bool" where
  "valid_String s \<longleftrightarrow> list_all scalar_value s \<and> utf8_size s < 2 ^ 31"

abbreviation valid_Vec :: "('a \<Rightarrow> bool) \<Rightarrow> 'a list \<Rightarrow> bool" where
  "valid_Vec valid xs \<equiv> list_all valid xs \<and> fits_i32 xs"

text \<open>The vector and the option of a codec are codecs.\<close>

context codec
begin

lemma vec_codec: "codec (encode_vec encode) (decode_vec decode) (valid_Vec valid)"
  by unfold_locales (simp add: decode_vec_encode)

lemma option_codec: "codec (encode_option encode) (decode_option decode) (pred_option valid)"
  by unfold_locales (rule decode_option_encode)

end

context strict_codec
begin

lemma vec_strict: "strict_codec (encode_vec encode) (decode_vec decode) (valid_Vec valid)"
  by (intro strict_codec.intro vec_codec strict_codec_axioms.intro) (rule decode_vec_valid)

lemma option_strict: "strict_codec (encode_option encode) (decode_option decode) (pred_option valid)"
  by (intro strict_codec.intro option_codec strict_codec_axioms.intro) (rule decode_option_valid)

end

lemma length_utf8_bytes: "length (utf8_bytes s) = utf8_size s"
  by (induction s) (simp_all add: utf8_bytes_def utf8_char_def len_utf8_def)

lemma from_utf8_bytes: "list_all scalar_value s \<Longrightarrow> from_utf8 (utf8_bytes s) = Some s"
  by (simp add: from_utf8_exact)

lemma decode_u8_Cons: "decode_u8 (b # bs) = Some (b, bs)" "decode_u8 [] = None"
  by (simp_all add: decode_u8_def read_le_def)

interpretation vec_u8: strict_codec encode_Vec_u8 decode_Vec_u8 "valid_Vec (\<lambda>_. True)"
  unfolding encode_Vec_u8_def decode_Vec_u8_def by (rule u8.vec_strict)

interpretation str: strict_codec encode_String decode_String valid_String
proof
  fix s rest
  assume "valid_String s"
  then have "decode_Vec_u8 (encode_Vec_u8 (utf8_bytes s) @ rest) = Some (utf8_bytes s, rest)"
    "from_utf8 (utf8_bytes s) = Some s"
    by (auto intro!: vec_u8.decode_encode from_utf8_bytes
        simp: valid_String_def fits_i32_def length_utf8_bytes list_all_iff)
  then show "decode_String (encode_String s @ rest) = Some (s, rest)"
    by (simp add: decode_String_def encode_String_def)
next
  fix bs s rest
  assume "decode_String bs = Some (s, rest)"
  then obtain used r where "decode_Vec_u8 bs = Some (used, r)" "from_utf8 used = Some s"
    by (auto simp: decode_String_def split: option.splits)
  with vec_u8.decode_valid [of bs used r] show "valid_String s"
    by (auto simp: valid_String_def fits_i32_def from_utf8_exact length_utf8_bytes)
qed

interpretation vec_String: strict_codec encode_Vec_String decode_Vec_String "valid_Vec valid_String"
  unfolding encode_Vec_String_def decode_Vec_String_def by (rule str.vec_strict)

lemmas text_valid [codec_valid] = str.decode_valid vec_String.decode_valid

lemmas text_rt [codec_rt] = vec_u8.decode_encode str.decode_encode vec_String.decode_encode

section \<open>Which messages are strings\<close>

lemma decode_bytes:
  "decode_items decode_u8 n bs = Some (xs, rest) \<longleftrightarrow> bs = xs @ rest \<and> length xs = n"
proof (induction n arbitrary: bs xs)
  case (Suc n)
  show ?case
  proof (cases bs)
    case (Cons b r)
    have "decode_items decode_u8 (Suc n) bs = Some (xs, rest) \<longleftrightarrow>
        (\<exists>ys. xs = b # ys \<and> decode_items decode_u8 n r = Some (ys, rest))"
      using Cons by (auto simp: decode_u8_Cons split: option.splits)
    then show ?thesis using Cons by (auto simp: Suc length_Suc_conv)
  qed (auto simp: decode_u8_Cons)
qed auto

text \<open>
  C33 (equivalence): reading a string. Behind a length, the bytes are accepted exactly when the
  ones it counts are the UTF-8 encoding of a sequence of Unicode scalar values, and give that
  sequence; so an overlong form, a surrogate, a truncated character or a missing byte never
  becomes a string. A negative length reads as the empty string.
\<close>

theorem decode_String_exact:
  "decode_String (encode_i32 len @ bytes) = Some (s, rest) \<longleftrightarrow>
     list_all scalar_value s \<and> utf8_size s = nat (sint len) \<and> bytes = utf8_bytes s @ rest"
proof -
  have "decode_String (encode_i32 len @ bytes) = Some (s, rest) \<longleftrightarrow>
      (\<exists>used. decode_items decode_u8 (nat (sint len)) bytes = Some (used, rest) \<and> from_utf8 used = Some s)"
    by (auto simp: decode_String_def decode_Vec_u8_def decode_vec_def codec_rt split: option.splits)
  then show ?thesis by (auto simp: decode_bytes from_utf8_exact length_utf8_bytes)
qed

end
