(* ===== verification/Codec_Types.thy ===== *)
theory Codec_Types
  imports Codec_Text Logger Base_Node Scanner Send Fee
begin

text \<open>
  The encoding of the types of the API (\<open>src/frb_generated.rs\<close>): an enum as the index of its
  variant, a struct as its fields in order, an event as its variant and its fields. Each is a
  \<open>strict_codec\<close>: decoding gives back the value and leaves what follows it, and yields valid values only.
\<close>

lemma option_True: "pred_option (\<lambda>_. True) x"
  by (cases x) simp_all

section \<open>Options of primitive types\<close>

definition encode_Option_String :: "rstring option encoder" where
  "encode_Option_String = encode_option encode_String"

definition decode_Option_String :: "rstring option decoder" where
  "decode_Option_String = decode_option decode_String"

interpretation c_Option_String: strict_codec encode_Option_String decode_Option_String "pred_option valid_String"
  unfolding encode_Option_String_def decode_Option_String_def by (rule str.option_strict)

lemmas Option_String_rt [codec_rt] = c_Option_String.decode_encode
  and Option_String_valid [codec_valid] = c_Option_String.decode_valid

definition encode_Option_u32 :: "u32 option encoder" where
  "encode_Option_u32 = encode_option encode_u32"

definition decode_Option_u32 :: "u32 option decoder" where
  "decode_Option_u32 = decode_option decode_u32"

interpretation c_Option_u32: strict_codec encode_Option_u32 decode_Option_u32 "pred_option (\<lambda>_. True)"
  unfolding encode_Option_u32_def decode_Option_u32_def by (rule u32.option_strict)

lemmas Option_u32_rt [codec_rt] = c_Option_u32.decode_encode [OF option_True]

definition encode_Option_u64 :: "u64 option encoder" where
  "encode_Option_u64 = encode_option encode_u64"

definition decode_Option_u64 :: "u64 option decoder" where
  "decode_Option_u64 = decode_option decode_u64"

interpretation c_Option_u64: strict_codec encode_Option_u64 decode_Option_u64 "pred_option (\<lambda>_. True)"
  unfolding encode_Option_u64_def decode_Option_u64_def by (rule u64.option_strict)

lemmas Option_u64_rt [codec_rt] = c_Option_u64.decode_encode [OF option_True]

section \<open>Transactions\<close>

definition encode_AccountBalanceDto :: "AccountBalanceDto encoder" where
  "encode_AccountBalanceDto x =
     encode_u64 (bal_total x) @
     encode_u64 (bal_unconfirmed x) @
     encode_u64 (bal_locked x) @
     encode_u64 (bal_available x)"

definition decode_AccountBalanceDto :: "AccountBalanceDto decoder" where
  "decode_AccountBalanceDto =
     decode_then decode_u64 (\<lambda>v_bal_total.
     decode_then decode_u64 (\<lambda>v_bal_unconfirmed.
     decode_then decode_u64 (\<lambda>v_bal_locked.
     decode_then decode_u64 (\<lambda>v_bal_available.
     decode_return \<lparr>bal_total = v_bal_total,
       bal_unconfirmed = v_bal_unconfirmed,
       bal_locked = v_bal_locked,
       bal_available = v_bal_available\<rparr>))))"

interpretation c_AccountBalanceDto: strict_codec encode_AccountBalanceDto decode_AccountBalanceDto "\<lambda>_. True"
proof
  fix x rest
  show "decode_AccountBalanceDto (encode_AccountBalanceDto x @ rest) = Some (x, rest)"
    by (cases x) (simp add: decode_AccountBalanceDto_def encode_AccountBalanceDto_def codec_rt)
qed simp

lemmas AccountBalanceDto_rt [codec_rt] = c_AccountBalanceDto.decode_encode [OF TrueI]

definition encode_BlockchainInfoDto :: "BlockchainInfoDto encoder" where
  "encode_BlockchainInfoDto x =
     encode_u64 (block_height x) @
     encode_String (block_timestamp x) @
     encode_u64 (confirmations x)"

definition decode_BlockchainInfoDto :: "BlockchainInfoDto decoder" where
  "decode_BlockchainInfoDto =
     decode_then decode_u64 (\<lambda>v_block_height.
     decode_then decode_String (\<lambda>v_block_timestamp.
     decode_then decode_u64 (\<lambda>v_confirmations.
     decode_return \<lparr>block_height = v_block_height,
       block_timestamp = v_block_timestamp,
       confirmations = v_confirmations\<rparr>)))"

definition valid_BlockchainInfoDto :: "BlockchainInfoDto \<Rightarrow> bool" where
  "valid_BlockchainInfoDto x \<longleftrightarrow>
     valid_String (block_timestamp x)"

interpretation c_BlockchainInfoDto: strict_codec encode_BlockchainInfoDto decode_BlockchainInfoDto valid_BlockchainInfoDto
proof
  fix x rest
  assume "valid_BlockchainInfoDto x"
  then show "decode_BlockchainInfoDto (encode_BlockchainInfoDto x @ rest) = Some (x, rest)"
    by (cases x) (simp add: decode_BlockchainInfoDto_def encode_BlockchainInfoDto_def valid_BlockchainInfoDto_def codec_rt)
next
  fix bs x rest
  assume "decode_BlockchainInfoDto bs = Some (x, rest)"
  then show "valid_BlockchainInfoDto x"
    unfolding decode_BlockchainInfoDto_def by (elim decode_thenE) (auto simp: valid_BlockchainInfoDto_def dest!: codec_valid)
qed

lemmas BlockchainInfoDto_rt [codec_rt] = c_BlockchainInfoDto.decode_encode
  and BlockchainInfoDto_valid [codec_valid] = c_BlockchainInfoDto.decode_valid

definition encode_CounterpartyInfoDto :: "CounterpartyInfoDto encoder" where
  "encode_CounterpartyInfoDto x =
     encode_String (cp_address x) @
     encode_String (cp_address_emoji x)"

definition decode_CounterpartyInfoDto :: "CounterpartyInfoDto decoder" where
  "decode_CounterpartyInfoDto =
     decode_then decode_String (\<lambda>v_cp_address.
     decode_then decode_String (\<lambda>v_cp_address_emoji.
     decode_return \<lparr>cp_address = v_cp_address,
       cp_address_emoji = v_cp_address_emoji\<rparr>))"

definition valid_CounterpartyInfoDto :: "CounterpartyInfoDto \<Rightarrow> bool" where
  "valid_CounterpartyInfoDto x \<longleftrightarrow>
     valid_String (cp_address x) \<and>
     valid_String (cp_address_emoji x)"

interpretation c_CounterpartyInfoDto: strict_codec encode_CounterpartyInfoDto decode_CounterpartyInfoDto valid_CounterpartyInfoDto
proof
  fix x rest
  assume "valid_CounterpartyInfoDto x"
  then show "decode_CounterpartyInfoDto (encode_CounterpartyInfoDto x @ rest) = Some (x, rest)"
    by (cases x) (simp add: decode_CounterpartyInfoDto_def encode_CounterpartyInfoDto_def valid_CounterpartyInfoDto_def codec_rt)
next
  fix bs x rest
  assume "decode_CounterpartyInfoDto bs = Some (x, rest)"
  then show "valid_CounterpartyInfoDto x"
    unfolding decode_CounterpartyInfoDto_def by (elim decode_thenE) (auto simp: valid_CounterpartyInfoDto_def dest!: codec_valid)
qed

lemmas CounterpartyInfoDto_rt [codec_rt] = c_CounterpartyInfoDto.decode_encode
  and CounterpartyInfoDto_valid [codec_valid] = c_CounterpartyInfoDto.decode_valid

definition encode_FeeInfoDto :: "FeeInfoDto encoder" where
  "encode_FeeInfoDto x =
     encode_u64 (fee_amount x) @
     encode_String (fee_amount_display x)"

definition decode_FeeInfoDto :: "FeeInfoDto decoder" where
  "decode_FeeInfoDto =
     decode_then decode_u64 (\<lambda>v_fee_amount.
     decode_then decode_String (\<lambda>v_fee_amount_display.
     decode_return \<lparr>fee_amount = v_fee_amount,
       fee_amount_display = v_fee_amount_display\<rparr>))"

definition valid_FeeInfoDto :: "FeeInfoDto \<Rightarrow> bool" where
  "valid_FeeInfoDto x \<longleftrightarrow>
     valid_String (fee_amount_display x)"

interpretation c_FeeInfoDto: strict_codec encode_FeeInfoDto decode_FeeInfoDto valid_FeeInfoDto
proof
  fix x rest
  assume "valid_FeeInfoDto x"
  then show "decode_FeeInfoDto (encode_FeeInfoDto x @ rest) = Some (x, rest)"
    by (cases x) (simp add: decode_FeeInfoDto_def encode_FeeInfoDto_def valid_FeeInfoDto_def codec_rt)
next
  fix bs x rest
  assume "decode_FeeInfoDto bs = Some (x, rest)"
  then show "valid_FeeInfoDto x"
    unfolding decode_FeeInfoDto_def by (elim decode_thenE) (auto simp: valid_FeeInfoDto_def dest!: codec_valid)
qed

lemmas FeeInfoDto_rt [codec_rt] = c_FeeInfoDto.decode_encode
  and FeeInfoDto_valid [codec_valid] = c_FeeInfoDto.decode_valid

definition encode_Option_CounterpartyInfoDto :: "CounterpartyInfoDto option encoder" where
  "encode_Option_CounterpartyInfoDto = encode_option encode_CounterpartyInfoDto"

definition decode_Option_CounterpartyInfoDto :: "CounterpartyInfoDto option decoder" where
  "decode_Option_CounterpartyInfoDto = decode_option decode_CounterpartyInfoDto"

interpretation c_Option_CounterpartyInfoDto: strict_codec encode_Option_CounterpartyInfoDto decode_Option_CounterpartyInfoDto "pred_option valid_CounterpartyInfoDto"
  unfolding encode_Option_CounterpartyInfoDto_def decode_Option_CounterpartyInfoDto_def by (rule c_CounterpartyInfoDto.option_strict)

lemmas Option_CounterpartyInfoDto_rt [codec_rt] = c_Option_CounterpartyInfoDto.decode_encode
  and Option_CounterpartyInfoDto_valid [codec_valid] = c_Option_CounterpartyInfoDto.decode_valid

definition encode_Option_FeeInfoDto :: "FeeInfoDto option encoder" where
  "encode_Option_FeeInfoDto = encode_option encode_FeeInfoDto"

definition decode_Option_FeeInfoDto :: "FeeInfoDto option decoder" where
  "decode_Option_FeeInfoDto = decode_option decode_FeeInfoDto"

interpretation c_Option_FeeInfoDto: strict_codec encode_Option_FeeInfoDto decode_Option_FeeInfoDto "pred_option valid_FeeInfoDto"
  unfolding encode_Option_FeeInfoDto_def decode_Option_FeeInfoDto_def by (rule c_FeeInfoDto.option_strict)

lemmas Option_FeeInfoDto_rt [codec_rt] = c_Option_FeeInfoDto.decode_encode
  and Option_FeeInfoDto_valid [codec_valid] = c_Option_FeeInfoDto.decode_valid

definition encode_DisplayedTransactionDirection :: "DisplayedTransactionDirection encoder" where
  "encode_DisplayedTransactionDirection x = encode_i32 (case x of
       Incoming \<Rightarrow> 0
     | Outgoing \<Rightarrow> 1)"

definition decode_DisplayedTransactionDirection :: "DisplayedTransactionDirection decoder" where
  "decode_DisplayedTransactionDirection = decode_then decode_i32 (\<lambda>n.
     if n = 0 then decode_return Incoming
     else if n = 1 then decode_return Outgoing
     else decode_panic)"

interpretation c_DisplayedTransactionDirection: strict_codec encode_DisplayedTransactionDirection decode_DisplayedTransactionDirection "\<lambda>_. True"
proof
  fix x rest
  show "decode_DisplayedTransactionDirection (encode_DisplayedTransactionDirection x @ rest) = Some (x, rest)"
    by (cases x) (simp_all add: decode_DisplayedTransactionDirection_def encode_DisplayedTransactionDirection_def codec_rt)
qed simp

lemmas DisplayedTransactionDirection_rt [codec_rt] = c_DisplayedTransactionDirection.decode_encode [OF TrueI]

definition encode_DisplayedTransactionSource :: "DisplayedTransactionSource encoder" where
  "encode_DisplayedTransactionSource x = encode_i32 (case x of
       Transfer \<Rightarrow> 0
     | Coinbase \<Rightarrow> 1
     | OneSided \<Rightarrow> 2
     | Unknown \<Rightarrow> 3)"

definition decode_DisplayedTransactionSource :: "DisplayedTransactionSource decoder" where
  "decode_DisplayedTransactionSource = decode_then decode_i32 (\<lambda>n.
     if n = 0 then decode_return Transfer
     else if n = 1 then decode_return Coinbase
     else if n = 2 then decode_return OneSided
     else if n = 3 then decode_return Unknown
     else decode_panic)"

interpretation c_DisplayedTransactionSource: strict_codec encode_DisplayedTransactionSource decode_DisplayedTransactionSource "\<lambda>_. True"
proof
  fix x rest
  show "decode_DisplayedTransactionSource (encode_DisplayedTransactionSource x @ rest) = Some (x, rest)"
    by (cases x) (simp_all add: decode_DisplayedTransactionSource_def encode_DisplayedTransactionSource_def codec_rt)
qed simp

lemmas DisplayedTransactionSource_rt [codec_rt] = c_DisplayedTransactionSource.decode_encode [OF TrueI]

definition encode_DisplayedTransactionStatus :: "DisplayedTransactionStatus encoder" where
  "encode_DisplayedTransactionStatus x = encode_i32 (case x of
       Pending \<Rightarrow> 0
     | Unconfirmed \<Rightarrow> 1
     | Confirmed \<Rightarrow> 2
     | Tx_Cancelled \<Rightarrow> 3
     | Reorganized \<Rightarrow> 4
     | Rejected \<Rightarrow> 5
     | Tx_Locked \<Rightarrow> 6)"

definition decode_DisplayedTransactionStatus :: "DisplayedTransactionStatus decoder" where
  "decode_DisplayedTransactionStatus = decode_then decode_i32 (\<lambda>n.
     if n = 0 then decode_return Pending
     else if n = 1 then decode_return Unconfirmed
     else if n = 2 then decode_return Confirmed
     else if n = 3 then decode_return Tx_Cancelled
     else if n = 4 then decode_return Reorganized
     else if n = 5 then decode_return Rejected
     else if n = 6 then decode_return Tx_Locked
     else decode_panic)"

interpretation c_DisplayedTransactionStatus: strict_codec encode_DisplayedTransactionStatus decode_DisplayedTransactionStatus "\<lambda>_. True"
proof
  fix x rest
  show "decode_DisplayedTransactionStatus (encode_DisplayedTransactionStatus x @ rest) = Some (x, rest)"
    by (cases x) (simp_all add: decode_DisplayedTransactionStatus_def encode_DisplayedTransactionStatus_def codec_rt)
qed simp

lemmas DisplayedTransactionStatus_rt [codec_rt] = c_DisplayedTransactionStatus.decode_encode [OF TrueI]

definition encode_DisplayedTransactionDto :: "DisplayedTransactionDto encoder" where
  "encode_DisplayedTransactionDto x =
     encode_String (tx_id x) @
     encode_DisplayedTransactionDirection (tx_direction x) @
     encode_DisplayedTransactionSource (tx_source x) @
     encode_DisplayedTransactionStatus (tx_status x) @
     encode_u64 (tx_amount x) @
     encode_String (tx_amount_display x) @
     encode_Option_String (tx_message x) @
     encode_Option_CounterpartyInfoDto (tx_counterparty x) @
     encode_BlockchainInfoDto (tx_blockchain x) @
     encode_Option_FeeInfoDto (tx_fee x) @
     encode_Vec_String (tx_payrefs x)"

definition decode_DisplayedTransactionDto :: "DisplayedTransactionDto decoder" where
  "decode_DisplayedTransactionDto =
     decode_then decode_String (\<lambda>v_tx_id.
     decode_then decode_DisplayedTransactionDirection (\<lambda>v_tx_direction.
     decode_then decode_DisplayedTransactionSource (\<lambda>v_tx_source.
     decode_then decode_DisplayedTransactionStatus (\<lambda>v_tx_status.
     decode_then decode_u64 (\<lambda>v_tx_amount.
     decode_then decode_String (\<lambda>v_tx_amount_display.
     decode_then decode_Option_String (\<lambda>v_tx_message.
     decode_then decode_Option_CounterpartyInfoDto (\<lambda>v_tx_counterparty.
     decode_then decode_BlockchainInfoDto (\<lambda>v_tx_blockchain.
     decode_then decode_Option_FeeInfoDto (\<lambda>v_tx_fee.
     decode_then decode_Vec_String (\<lambda>v_tx_payrefs.
     decode_return \<lparr>tx_id = v_tx_id,
       tx_direction = v_tx_direction,
       tx_source = v_tx_source,
       tx_status = v_tx_status,
       tx_amount = v_tx_amount,
       tx_amount_display = v_tx_amount_display,
       tx_message = v_tx_message,
       tx_counterparty = v_tx_counterparty,
       tx_blockchain = v_tx_blockchain,
       tx_fee = v_tx_fee,
       tx_payrefs = v_tx_payrefs\<rparr>)))))))))))"

definition valid_DisplayedTransactionDto :: "DisplayedTransactionDto \<Rightarrow> bool" where
  "valid_DisplayedTransactionDto x \<longleftrightarrow>
     valid_String (tx_id x) \<and>
     valid_String (tx_amount_display x) \<and>
     pred_option valid_String (tx_message x) \<and>
     pred_option valid_CounterpartyInfoDto (tx_counterparty x) \<and>
     valid_BlockchainInfoDto (tx_blockchain x) \<and>
     pred_option valid_FeeInfoDto (tx_fee x) \<and>
     list_all valid_String (tx_payrefs x) \<and> fits_i32 (tx_payrefs x)"

interpretation c_DisplayedTransactionDto: strict_codec encode_DisplayedTransactionDto decode_DisplayedTransactionDto valid_DisplayedTransactionDto
proof
  fix x rest
  assume "valid_DisplayedTransactionDto x"
  then show "decode_DisplayedTransactionDto (encode_DisplayedTransactionDto x @ rest) = Some (x, rest)"
    by (cases x) (simp add: decode_DisplayedTransactionDto_def encode_DisplayedTransactionDto_def valid_DisplayedTransactionDto_def codec_rt)
next
  fix bs x rest
  assume "decode_DisplayedTransactionDto bs = Some (x, rest)"
  then show "valid_DisplayedTransactionDto x"
    unfolding decode_DisplayedTransactionDto_def by (elim decode_thenE) (auto simp: valid_DisplayedTransactionDto_def dest!: codec_valid)
qed

lemmas DisplayedTransactionDto_rt [codec_rt] = c_DisplayedTransactionDto.decode_encode
  and DisplayedTransactionDto_valid [codec_valid] = c_DisplayedTransactionDto.decode_valid

definition encode_Vec_DisplayedTransactionDto :: "DisplayedTransactionDto list encoder" where
  "encode_Vec_DisplayedTransactionDto = encode_vec encode_DisplayedTransactionDto"

definition decode_Vec_DisplayedTransactionDto :: "DisplayedTransactionDto list decoder" where
  "decode_Vec_DisplayedTransactionDto = decode_vec decode_DisplayedTransactionDto"

interpretation c_Vec_DisplayedTransactionDto: strict_codec encode_Vec_DisplayedTransactionDto decode_Vec_DisplayedTransactionDto "valid_Vec valid_DisplayedTransactionDto"
  unfolding encode_Vec_DisplayedTransactionDto_def decode_Vec_DisplayedTransactionDto_def by (rule c_DisplayedTransactionDto.vec_strict)

lemmas Vec_DisplayedTransactionDto_rt [codec_rt] = c_Vec_DisplayedTransactionDto.decode_encode
  and Vec_DisplayedTransactionDto_valid [codec_valid] = c_Vec_DisplayedTransactionDto.decode_valid

section \<open>Fees and the node\<close>

definition encode_FeeEstimate :: "FeeEstimate encoder" where
  "encode_FeeEstimate x =
     encode_u64 (estimated_fee x) @
     encode_u64 (total_amount_required x) @
     encode_u64 (fee_per_gram x) @
     encode_usize (input_count x)"

definition decode_FeeEstimate :: "FeeEstimate decoder" where
  "decode_FeeEstimate =
     decode_then decode_u64 (\<lambda>v_estimated_fee.
     decode_then decode_u64 (\<lambda>v_total_amount_required.
     decode_then decode_u64 (\<lambda>v_fee_per_gram.
     decode_then decode_usize (\<lambda>v_input_count.
     decode_return \<lparr>estimated_fee = v_estimated_fee,
       total_amount_required = v_total_amount_required,
       fee_per_gram = v_fee_per_gram,
       input_count = v_input_count\<rparr>))))"

interpretation c_FeeEstimate: strict_codec encode_FeeEstimate decode_FeeEstimate "\<lambda>_. True"
proof
  fix x rest
  show "decode_FeeEstimate (encode_FeeEstimate x @ rest) = Some (x, rest)"
    by (cases x) (simp add: decode_FeeEstimate_def encode_FeeEstimate_def codec_rt)
qed simp

lemmas FeeEstimate_rt [codec_rt] = c_FeeEstimate.decode_encode [OF TrueI]

definition encode_FeePriority :: "FeePriority encoder" where
  "encode_FeePriority x = encode_i32 (case x of
       Slow \<Rightarrow> 0
     | Medium \<Rightarrow> 1
     | Fast \<Rightarrow> 2)"

definition decode_FeePriority :: "FeePriority decoder" where
  "decode_FeePriority = decode_then decode_i32 (\<lambda>n.
     if n = 0 then decode_return Slow
     else if n = 1 then decode_return Medium
     else if n = 2 then decode_return Fast
     else decode_panic)"

interpretation c_FeePriority: strict_codec encode_FeePriority decode_FeePriority "\<lambda>_. True"
proof
  fix x rest
  show "decode_FeePriority (encode_FeePriority x @ rest) = Some (x, rest)"
    by (cases x) (simp_all add: decode_FeePriority_def encode_FeePriority_def codec_rt)
qed simp

lemmas FeePriority_rt [codec_rt] = c_FeePriority.decode_encode [OF TrueI]

definition encode_SendAllFeeEstimate :: "SendAllFeeEstimate encoder" where
  "encode_SendAllFeeEstimate x =
     encode_u64 (sa_fee x) @
     encode_u64 (sa_amount_after_fee x) @
     encode_usize (sa_input_count x) @
     encode_usize (sa_skipped_dust x) @
     encode_usize (sa_skipped_over_cap x)"

definition decode_SendAllFeeEstimate :: "SendAllFeeEstimate decoder" where
  "decode_SendAllFeeEstimate =
     decode_then decode_u64 (\<lambda>v_sa_fee.
     decode_then decode_u64 (\<lambda>v_sa_amount_after_fee.
     decode_then decode_usize (\<lambda>v_sa_input_count.
     decode_then decode_usize (\<lambda>v_sa_skipped_dust.
     decode_then decode_usize (\<lambda>v_sa_skipped_over_cap.
     decode_return \<lparr>sa_fee = v_sa_fee,
       sa_amount_after_fee = v_sa_amount_after_fee,
       sa_input_count = v_sa_input_count,
       sa_skipped_dust = v_sa_skipped_dust,
       sa_skipped_over_cap = v_sa_skipped_over_cap\<rparr>)))))"

interpretation c_SendAllFeeEstimate: strict_codec encode_SendAllFeeEstimate decode_SendAllFeeEstimate "\<lambda>_. True"
proof
  fix x rest
  show "decode_SendAllFeeEstimate (encode_SendAllFeeEstimate x @ rest) = Some (x, rest)"
    by (cases x) (simp add: decode_SendAllFeeEstimate_def encode_SendAllFeeEstimate_def codec_rt)
qed simp

lemmas SendAllFeeEstimate_rt [codec_rt] = c_SendAllFeeEstimate.decode_encode [OF TrueI]

definition encode_TipInfo :: "TipInfo encoder" where
  "encode_TipInfo x =
     encode_u64 (ti_best_block_height x) @
     encode_String (ti_best_block_hash x) @
     encode_u64 (ti_pruning_horizon x) @
     encode_u64 (ti_pruned_height x) @
     encode_u64 (ti_timestamp x)"

definition decode_TipInfo :: "TipInfo decoder" where
  "decode_TipInfo =
     decode_then decode_u64 (\<lambda>v_ti_best_block_height.
     decode_then decode_String (\<lambda>v_ti_best_block_hash.
     decode_then decode_u64 (\<lambda>v_ti_pruning_horizon.
     decode_then decode_u64 (\<lambda>v_ti_pruned_height.
     decode_then decode_u64 (\<lambda>v_ti_timestamp.
     decode_return \<lparr>ti_best_block_height = v_ti_best_block_height,
       ti_best_block_hash = v_ti_best_block_hash,
       ti_pruning_horizon = v_ti_pruning_horizon,
       ti_pruned_height = v_ti_pruned_height,
       ti_timestamp = v_ti_timestamp\<rparr>)))))"

definition valid_TipInfo :: "TipInfo \<Rightarrow> bool" where
  "valid_TipInfo x \<longleftrightarrow>
     valid_String (ti_best_block_hash x)"

interpretation c_TipInfo: strict_codec encode_TipInfo decode_TipInfo valid_TipInfo
proof
  fix x rest
  assume "valid_TipInfo x"
  then show "decode_TipInfo (encode_TipInfo x @ rest) = Some (x, rest)"
    by (cases x) (simp add: decode_TipInfo_def encode_TipInfo_def valid_TipInfo_def codec_rt)
next
  fix bs x rest
  assume "decode_TipInfo bs = Some (x, rest)"
  then show "valid_TipInfo x"
    unfolding decode_TipInfo_def by (elim decode_thenE) (auto simp: valid_TipInfo_def dest!: codec_valid)
qed

lemmas TipInfo_rt [codec_rt] = c_TipInfo.decode_encode
  and TipInfo_valid [codec_valid] = c_TipInfo.decode_valid

definition encode_Option_TipInfo :: "TipInfo option encoder" where
  "encode_Option_TipInfo = encode_option encode_TipInfo"

definition decode_Option_TipInfo :: "TipInfo option decoder" where
  "decode_Option_TipInfo = decode_option decode_TipInfo"

interpretation c_Option_TipInfo: strict_codec encode_Option_TipInfo decode_Option_TipInfo "pred_option valid_TipInfo"
  unfolding encode_Option_TipInfo_def decode_Option_TipInfo_def by (rule c_TipInfo.option_strict)

lemmas Option_TipInfo_rt [codec_rt] = c_Option_TipInfo.decode_encode
  and Option_TipInfo_valid [codec_valid] = c_Option_TipInfo.decode_valid

definition encode_TariNetwork :: "TariNetwork encoder" where
  "encode_TariNetwork x = encode_i32 (case x of
       MainNet \<Rightarrow> 0
     | StageNet \<Rightarrow> 1
     | NextNet \<Rightarrow> 2
     | LocalNet \<Rightarrow> 3
     | Igor \<Rightarrow> 4
     | Esmeralda \<Rightarrow> 5)"

definition decode_TariNetwork :: "TariNetwork decoder" where
  "decode_TariNetwork = decode_then decode_i32 (\<lambda>n.
     if n = 0 then decode_return MainNet
     else if n = 1 then decode_return StageNet
     else if n = 2 then decode_return NextNet
     else if n = 3 then decode_return LocalNet
     else if n = 4 then decode_return Igor
     else if n = 5 then decode_return Esmeralda
     else decode_panic)"

interpretation c_TariNetwork: strict_codec encode_TariNetwork decode_TariNetwork "\<lambda>_. True"
proof
  fix x rest
  show "decode_TariNetwork (encode_TariNetwork x @ rest) = Some (x, rest)"
    by (cases x) (simp_all add: decode_TariNetwork_def encode_TariNetwork_def codec_rt)
qed simp

lemmas TariNetwork_rt [codec_rt] = c_TariNetwork.decode_encode [OF TrueI]

definition encode_Option_TariNetwork :: "TariNetwork option encoder" where
  "encode_Option_TariNetwork = encode_option encode_TariNetwork"

definition decode_Option_TariNetwork :: "TariNetwork option decoder" where
  "decode_Option_TariNetwork = decode_option decode_TariNetwork"

interpretation c_Option_TariNetwork: strict_codec encode_Option_TariNetwork decode_Option_TariNetwork "pred_option (\<lambda>_. True)"
  unfolding encode_Option_TariNetwork_def decode_Option_TariNetwork_def by (rule c_TariNetwork.option_strict)

lemmas Option_TariNetwork_rt [codec_rt] = c_Option_TariNetwork.decode_encode [OF option_True]

section \<open>Sends\<close>

definition encode_SendRecipient :: "SendRecipient encoder" where
  "encode_SendRecipient x =
     encode_String (sr_address x) @
     encode_u64 (sr_amount x) @
     encode_Option_String (sr_payment_id x)"

definition decode_SendRecipient :: "SendRecipient decoder" where
  "decode_SendRecipient =
     decode_then decode_String (\<lambda>v_sr_address.
     decode_then decode_u64 (\<lambda>v_sr_amount.
     decode_then decode_Option_String (\<lambda>v_sr_payment_id.
     decode_return \<lparr>sr_address = v_sr_address,
       sr_amount = v_sr_amount,
       sr_payment_id = v_sr_payment_id\<rparr>)))"

definition valid_SendRecipient :: "SendRecipient \<Rightarrow> bool" where
  "valid_SendRecipient x \<longleftrightarrow>
     valid_String (sr_address x) \<and>
     pred_option valid_String (sr_payment_id x)"

interpretation c_SendRecipient: strict_codec encode_SendRecipient decode_SendRecipient valid_SendRecipient
proof
  fix x rest
  assume "valid_SendRecipient x"
  then show "decode_SendRecipient (encode_SendRecipient x @ rest) = Some (x, rest)"
    by (cases x) (simp add: decode_SendRecipient_def encode_SendRecipient_def valid_SendRecipient_def codec_rt)
next
  fix bs x rest
  assume "decode_SendRecipient bs = Some (x, rest)"
  then show "valid_SendRecipient x"
    unfolding decode_SendRecipient_def by (elim decode_thenE) (auto simp: valid_SendRecipient_def dest!: codec_valid)
qed

lemmas SendRecipient_rt [codec_rt] = c_SendRecipient.decode_encode
  and SendRecipient_valid [codec_valid] = c_SendRecipient.decode_valid

definition encode_Vec_SendRecipient :: "SendRecipient list encoder" where
  "encode_Vec_SendRecipient = encode_vec encode_SendRecipient"

definition decode_Vec_SendRecipient :: "SendRecipient list decoder" where
  "decode_Vec_SendRecipient = decode_vec decode_SendRecipient"

interpretation c_Vec_SendRecipient: strict_codec encode_Vec_SendRecipient decode_Vec_SendRecipient "valid_Vec valid_SendRecipient"
  unfolding encode_Vec_SendRecipient_def decode_Vec_SendRecipient_def by (rule c_SendRecipient.vec_strict)

lemmas Vec_SendRecipient_rt [codec_rt] = c_Vec_SendRecipient.decode_encode
  and Vec_SendRecipient_valid [codec_valid] = c_Vec_SendRecipient.decode_valid

definition encode_MultiSendTransactionDetails :: "MultiSendTransactionDetails encoder" where
  "encode_MultiSendTransactionDetails x =
     encode_Option_TariNetwork (sd_network x) @
     encode_Option_String (sd_base_url x) @
     encode_String (sd_wallet_name x) @
     encode_Vec_SendRecipient (sd_recipients x) @
     encode_bool (sd_send_all x) @
     encode_Option_u64 (sd_confirmation_window x)"

definition decode_MultiSendTransactionDetails :: "MultiSendTransactionDetails decoder" where
  "decode_MultiSendTransactionDetails =
     decode_then decode_Option_TariNetwork (\<lambda>v_sd_network.
     decode_then decode_Option_String (\<lambda>v_sd_base_url.
     decode_then decode_String (\<lambda>v_sd_wallet_name.
     decode_then decode_Vec_SendRecipient (\<lambda>v_sd_recipients.
     decode_then decode_bool (\<lambda>v_sd_send_all.
     decode_then decode_Option_u64 (\<lambda>v_sd_confirmation_window.
     decode_return \<lparr>sd_network = v_sd_network,
       sd_base_url = v_sd_base_url,
       sd_wallet_name = v_sd_wallet_name,
       sd_recipients = v_sd_recipients,
       sd_send_all = v_sd_send_all,
       sd_confirmation_window = v_sd_confirmation_window\<rparr>))))))"

definition valid_MultiSendTransactionDetails :: "MultiSendTransactionDetails \<Rightarrow> bool" where
  "valid_MultiSendTransactionDetails x \<longleftrightarrow>
     pred_option valid_String (sd_base_url x) \<and>
     valid_String (sd_wallet_name x) \<and>
     list_all valid_SendRecipient (sd_recipients x) \<and> fits_i32 (sd_recipients x)"

interpretation c_MultiSendTransactionDetails: strict_codec encode_MultiSendTransactionDetails decode_MultiSendTransactionDetails valid_MultiSendTransactionDetails
proof
  fix x rest
  assume "valid_MultiSendTransactionDetails x"
  then show "decode_MultiSendTransactionDetails (encode_MultiSendTransactionDetails x @ rest) = Some (x, rest)"
    by (cases x) (simp add: decode_MultiSendTransactionDetails_def encode_MultiSendTransactionDetails_def valid_MultiSendTransactionDetails_def codec_rt)
next
  fix bs x rest
  assume "decode_MultiSendTransactionDetails bs = Some (x, rest)"
  then show "valid_MultiSendTransactionDetails x"
    unfolding decode_MultiSendTransactionDetails_def by (elim decode_thenE) (auto simp: valid_MultiSendTransactionDetails_def dest!: codec_valid)
qed

lemmas MultiSendTransactionDetails_rt [codec_rt] = c_MultiSendTransactionDetails.decode_encode
  and MultiSendTransactionDetails_valid [codec_valid] = c_MultiSendTransactionDetails.decode_valid

definition encode_TransactionStage :: "TransactionStage encoder" where
  "encode_TransactionStage x = encode_i32 (case x of
       Initializing \<Rightarrow> 0
     | ValidatingInput \<Rightarrow> 1
     | ConnectingToNetwork \<Rightarrow> 2
     | ConstructingTransaction \<Rightarrow> 3
     | SigningKeyGeneration \<Rightarrow> 4
     | SigningTransaction \<Rightarrow> 5
     | Broadcasting \<Rightarrow> 6
     | Broadcasted \<Rightarrow> 7)"

definition decode_TransactionStage :: "TransactionStage decoder" where
  "decode_TransactionStage = decode_then decode_i32 (\<lambda>n.
     if n = 0 then decode_return Initializing
     else if n = 1 then decode_return ValidatingInput
     else if n = 2 then decode_return ConnectingToNetwork
     else if n = 3 then decode_return ConstructingTransaction
     else if n = 4 then decode_return SigningKeyGeneration
     else if n = 5 then decode_return SigningTransaction
     else if n = 6 then decode_return Broadcasting
     else if n = 7 then decode_return Broadcasted
     else decode_panic)"

interpretation c_TransactionStage: strict_codec encode_TransactionStage decode_TransactionStage "\<lambda>_. True"
proof
  fix x rest
  show "decode_TransactionStage (encode_TransactionStage x @ rest) = Some (x, rest)"
    by (cases x) (simp_all add: decode_TransactionStage_def encode_TransactionStage_def codec_rt)
qed simp

lemmas TransactionStage_rt [codec_rt] = c_TransactionStage.decode_encode [OF TrueI]

definition encode_SendTransactionEvent :: "SendTransactionEvent encoder" where
  "encode_SendTransactionEvent x =
     encode_TransactionStage (stage x) @
     encode_String (details x)"

definition decode_SendTransactionEvent :: "SendTransactionEvent decoder" where
  "decode_SendTransactionEvent =
     decode_then decode_TransactionStage (\<lambda>v_stage.
     decode_then decode_String (\<lambda>v_details.
     decode_return \<lparr>stage = v_stage,
       details = v_details\<rparr>))"

definition valid_SendTransactionEvent :: "SendTransactionEvent \<Rightarrow> bool" where
  "valid_SendTransactionEvent x \<longleftrightarrow>
     valid_String (details x)"

interpretation c_SendTransactionEvent: strict_codec encode_SendTransactionEvent decode_SendTransactionEvent valid_SendTransactionEvent
proof
  fix x rest
  assume "valid_SendTransactionEvent x"
  then show "decode_SendTransactionEvent (encode_SendTransactionEvent x @ rest) = Some (x, rest)"
    by (cases x) (simp add: decode_SendTransactionEvent_def encode_SendTransactionEvent_def valid_SendTransactionEvent_def codec_rt)
next
  fix bs x rest
  assume "decode_SendTransactionEvent bs = Some (x, rest)"
  then show "valid_SendTransactionEvent x"
    unfolding decode_SendTransactionEvent_def by (elim decode_thenE) (auto simp: valid_SendTransactionEvent_def dest!: codec_valid)
qed

lemmas SendTransactionEvent_rt [codec_rt] = c_SendTransactionEvent.decode_encode
  and SendTransactionEvent_valid [codec_valid] = c_SendTransactionEvent.decode_valid

definition encode_SendResultDto :: "SendResultDto encoder" where
  "encode_SendResultDto x =
     encode_DisplayedTransactionDto (sent_transaction x) @
     encode_bool (sent_accepted_by_node x) @
     encode_Option_String (sent_note x) @
     encode_Option_String (sent_node_reason x)"

definition decode_SendResultDto :: "SendResultDto decoder" where
  "decode_SendResultDto =
     decode_then decode_DisplayedTransactionDto (\<lambda>v_sent_transaction.
     decode_then decode_bool (\<lambda>v_sent_accepted_by_node.
     decode_then decode_Option_String (\<lambda>v_sent_note.
     decode_then decode_Option_String (\<lambda>v_sent_node_reason.
     decode_return \<lparr>sent_transaction = v_sent_transaction,
       sent_accepted_by_node = v_sent_accepted_by_node,
       sent_note = v_sent_note,
       sent_node_reason = v_sent_node_reason\<rparr>))))"

definition valid_SendResultDto :: "SendResultDto \<Rightarrow> bool" where
  "valid_SendResultDto x \<longleftrightarrow>
     valid_DisplayedTransactionDto (sent_transaction x) \<and>
     pred_option valid_String (sent_note x) \<and>
     pred_option valid_String (sent_node_reason x)"

interpretation c_SendResultDto: strict_codec encode_SendResultDto decode_SendResultDto valid_SendResultDto
proof
  fix x rest
  assume "valid_SendResultDto x"
  then show "decode_SendResultDto (encode_SendResultDto x @ rest) = Some (x, rest)"
    by (cases x) (simp add: decode_SendResultDto_def encode_SendResultDto_def valid_SendResultDto_def codec_rt)
next
  fix bs x rest
  assume "decode_SendResultDto bs = Some (x, rest)"
  then show "valid_SendResultDto x"
    unfolding decode_SendResultDto_def by (elim decode_thenE) (auto simp: valid_SendResultDto_def dest!: codec_valid)
qed

lemmas SendResultDto_rt [codec_rt] = c_SendResultDto.decode_encode
  and SendResultDto_valid [codec_valid] = c_SendResultDto.decode_valid

section \<open>The logger\<close>

definition encode_LogLevel :: "LogLevel encoder" where
  "encode_LogLevel x = encode_i32 (case x of
       Log_Error \<Rightarrow> 0
     | Log_Warn \<Rightarrow> 1
     | Log_Info \<Rightarrow> 2
     | Log_Debug \<Rightarrow> 3
     | Log_Trace \<Rightarrow> 4
     | Log_Off \<Rightarrow> 5)"

definition decode_LogLevel :: "LogLevel decoder" where
  "decode_LogLevel = decode_then decode_i32 (\<lambda>n.
     if n = 0 then decode_return Log_Error
     else if n = 1 then decode_return Log_Warn
     else if n = 2 then decode_return Log_Info
     else if n = 3 then decode_return Log_Debug
     else if n = 4 then decode_return Log_Trace
     else if n = 5 then decode_return Log_Off
     else decode_panic)"

interpretation c_LogLevel: strict_codec encode_LogLevel decode_LogLevel "\<lambda>_. True"
proof
  fix x rest
  show "decode_LogLevel (encode_LogLevel x @ rest) = Some (x, rest)"
    by (cases x) (simp_all add: decode_LogLevel_def encode_LogLevel_def codec_rt)
qed simp

lemmas LogLevel_rt [codec_rt] = c_LogLevel.decode_encode [OF TrueI]

definition encode_LogModuleConfig :: "LogModuleConfig encoder" where
  "encode_LogModuleConfig x =
     encode_String (lm_target x) @
     encode_LogLevel (lm_level x)"

definition decode_LogModuleConfig :: "LogModuleConfig decoder" where
  "decode_LogModuleConfig =
     decode_then decode_String (\<lambda>v_lm_target.
     decode_then decode_LogLevel (\<lambda>v_lm_level.
     decode_return \<lparr>lm_target = v_lm_target,
       lm_level = v_lm_level\<rparr>))"

definition valid_LogModuleConfig :: "LogModuleConfig \<Rightarrow> bool" where
  "valid_LogModuleConfig x \<longleftrightarrow>
     valid_String (lm_target x)"

interpretation c_LogModuleConfig: strict_codec encode_LogModuleConfig decode_LogModuleConfig valid_LogModuleConfig
proof
  fix x rest
  assume "valid_LogModuleConfig x"
  then show "decode_LogModuleConfig (encode_LogModuleConfig x @ rest) = Some (x, rest)"
    by (cases x) (simp add: decode_LogModuleConfig_def encode_LogModuleConfig_def valid_LogModuleConfig_def codec_rt)
next
  fix bs x rest
  assume "decode_LogModuleConfig bs = Some (x, rest)"
  then show "valid_LogModuleConfig x"
    unfolding decode_LogModuleConfig_def by (elim decode_thenE) (auto simp: valid_LogModuleConfig_def dest!: codec_valid)
qed

lemmas LogModuleConfig_rt [codec_rt] = c_LogModuleConfig.decode_encode
  and LogModuleConfig_valid [codec_valid] = c_LogModuleConfig.decode_valid

definition encode_Vec_LogModuleConfig :: "LogModuleConfig list encoder" where
  "encode_Vec_LogModuleConfig = encode_vec encode_LogModuleConfig"

definition decode_Vec_LogModuleConfig :: "LogModuleConfig list decoder" where
  "decode_Vec_LogModuleConfig = decode_vec decode_LogModuleConfig"

interpretation c_Vec_LogModuleConfig: strict_codec encode_Vec_LogModuleConfig decode_Vec_LogModuleConfig "valid_Vec valid_LogModuleConfig"
  unfolding encode_Vec_LogModuleConfig_def decode_Vec_LogModuleConfig_def by (rule c_LogModuleConfig.vec_strict)

lemmas Vec_LogModuleConfig_rt [codec_rt] = c_Vec_LogModuleConfig.decode_encode
  and Vec_LogModuleConfig_valid [codec_valid] = c_Vec_LogModuleConfig.decode_valid

definition encode_LoggerConfig :: "LoggerConfig encoder" where
  "encode_LoggerConfig x =
     encode_LogLevel (lc_default_level x) @
     encode_Vec_LogModuleConfig (lc_module_levels x) @
     encode_u64 (lc_max_file_size_mb x) @
     encode_usize (lc_max_files x)"

definition decode_LoggerConfig :: "LoggerConfig decoder" where
  "decode_LoggerConfig =
     decode_then decode_LogLevel (\<lambda>v_lc_default_level.
     decode_then decode_Vec_LogModuleConfig (\<lambda>v_lc_module_levels.
     decode_then decode_u64 (\<lambda>v_lc_max_file_size_mb.
     decode_then decode_usize (\<lambda>v_lc_max_files.
     decode_return \<lparr>lc_default_level = v_lc_default_level,
       lc_module_levels = v_lc_module_levels,
       lc_max_file_size_mb = v_lc_max_file_size_mb,
       lc_max_files = v_lc_max_files\<rparr>))))"

definition valid_LoggerConfig :: "LoggerConfig \<Rightarrow> bool" where
  "valid_LoggerConfig x \<longleftrightarrow>
     list_all valid_LogModuleConfig (lc_module_levels x) \<and> fits_i32 (lc_module_levels x)"

interpretation c_LoggerConfig: strict_codec encode_LoggerConfig decode_LoggerConfig valid_LoggerConfig
proof
  fix x rest
  assume "valid_LoggerConfig x"
  then show "decode_LoggerConfig (encode_LoggerConfig x @ rest) = Some (x, rest)"
    by (cases x) (simp add: decode_LoggerConfig_def encode_LoggerConfig_def valid_LoggerConfig_def codec_rt)
next
  fix bs x rest
  assume "decode_LoggerConfig bs = Some (x, rest)"
  then show "valid_LoggerConfig x"
    unfolding decode_LoggerConfig_def by (elim decode_thenE) (auto simp: valid_LoggerConfig_def dest!: codec_valid)
qed

lemmas LoggerConfig_rt [codec_rt] = c_LoggerConfig.decode_encode
  and LoggerConfig_valid [codec_valid] = c_LoggerConfig.decode_valid

definition encode_Option_LoggerConfig :: "LoggerConfig option encoder" where
  "encode_Option_LoggerConfig = encode_option encode_LoggerConfig"

definition decode_Option_LoggerConfig :: "LoggerConfig option decoder" where
  "decode_Option_LoggerConfig = decode_option decode_LoggerConfig"

interpretation c_Option_LoggerConfig: strict_codec encode_Option_LoggerConfig decode_Option_LoggerConfig "pred_option valid_LoggerConfig"
  unfolding encode_Option_LoggerConfig_def decode_Option_LoggerConfig_def by (rule c_LoggerConfig.option_strict)

lemmas Option_LoggerConfig_rt [codec_rt] = c_Option_LoggerConfig.decode_encode
  and Option_LoggerConfig_valid [codec_valid] = c_Option_LoggerConfig.decode_valid

section \<open>Scans\<close>

definition encode_ScanPriority :: "ScanPriority encoder" where
  "encode_ScanPriority x = encode_i32 (case x of
       Foreground \<Rightarrow> 0
     | Background \<Rightarrow> 1)"

definition decode_ScanPriority :: "ScanPriority decoder" where
  "decode_ScanPriority = decode_then decode_i32 (\<lambda>n.
     if n = 0 then decode_return Foreground
     else if n = 1 then decode_return Background
     else decode_panic)"

interpretation c_ScanPriority: strict_codec encode_ScanPriority decode_ScanPriority "\<lambda>_. True"
proof
  fix x rest
  show "decode_ScanPriority (encode_ScanPriority x @ rest) = Some (x, rest)"
    by (cases x) (simp_all add: decode_ScanPriority_def encode_ScanPriority_def codec_rt)
qed simp

lemmas ScanPriority_rt [codec_rt] = c_ScanPriority.decode_encode [OF TrueI]

definition encode_ScanHandle :: "ScanHandle encoder" where
  "encode_ScanHandle x =
     encode_String (handle_wallet x) @
     encode_u64 (handle_id x)"

definition decode_ScanHandle :: "ScanHandle decoder" where
  "decode_ScanHandle =
     decode_then decode_String (\<lambda>v_handle_wallet.
     decode_then decode_u64 (\<lambda>v_handle_id.
     decode_return \<lparr>handle_wallet = v_handle_wallet,
       handle_id = v_handle_id\<rparr>))"

definition valid_ScanHandle :: "ScanHandle \<Rightarrow> bool" where
  "valid_ScanHandle x \<longleftrightarrow>
     valid_String (handle_wallet x)"

interpretation c_ScanHandle: strict_codec encode_ScanHandle decode_ScanHandle valid_ScanHandle
proof
  fix x rest
  assume "valid_ScanHandle x"
  then show "decode_ScanHandle (encode_ScanHandle x @ rest) = Some (x, rest)"
    by (cases x) (simp add: decode_ScanHandle_def encode_ScanHandle_def valid_ScanHandle_def codec_rt)
next
  fix bs x rest
  assume "decode_ScanHandle bs = Some (x, rest)"
  then show "valid_ScanHandle x"
    unfolding decode_ScanHandle_def by (elim decode_thenE) (auto simp: valid_ScanHandle_def dest!: codec_valid)
qed

lemmas ScanHandle_rt [codec_rt] = c_ScanHandle.decode_encode
  and ScanHandle_valid [codec_valid] = c_ScanHandle.decode_valid

definition encode_ScanConfiguration :: "ScanConfiguration encoder" where
  "encode_ScanConfiguration x =
     encode_String (cfg_wallet_name x) @
     encode_String (cfg_base_url x) @
     encode_u64 (cfg_batch_size x) @
     encode_bool (cfg_continuous x) @
     encode_u64 (cfg_poll_interval_seconds x) @
     encode_u64 (cfg_required_confirmations x) @
     encode_ScanPriority (cfg_priority x) @
     encode_Option_u32 (cfg_processing_threads x) @
     encode_Option_u32 (cfg_event_buffer x) @
     encode_Option_u64 (cfg_deadline_seconds x) @
     encode_Option_u64 (cfg_max_blocks x)"

definition decode_ScanConfiguration :: "ScanConfiguration decoder" where
  "decode_ScanConfiguration =
     decode_then decode_String (\<lambda>v_cfg_wallet_name.
     decode_then decode_String (\<lambda>v_cfg_base_url.
     decode_then decode_u64 (\<lambda>v_cfg_batch_size.
     decode_then decode_bool (\<lambda>v_cfg_continuous.
     decode_then decode_u64 (\<lambda>v_cfg_poll_interval_seconds.
     decode_then decode_u64 (\<lambda>v_cfg_required_confirmations.
     decode_then decode_ScanPriority (\<lambda>v_cfg_priority.
     decode_then decode_Option_u32 (\<lambda>v_cfg_processing_threads.
     decode_then decode_Option_u32 (\<lambda>v_cfg_event_buffer.
     decode_then decode_Option_u64 (\<lambda>v_cfg_deadline_seconds.
     decode_then decode_Option_u64 (\<lambda>v_cfg_max_blocks.
     decode_return \<lparr>cfg_wallet_name = v_cfg_wallet_name,
       cfg_base_url = v_cfg_base_url,
       cfg_batch_size = v_cfg_batch_size,
       cfg_continuous = v_cfg_continuous,
       cfg_poll_interval_seconds = v_cfg_poll_interval_seconds,
       cfg_required_confirmations = v_cfg_required_confirmations,
       cfg_priority = v_cfg_priority,
       cfg_processing_threads = v_cfg_processing_threads,
       cfg_event_buffer = v_cfg_event_buffer,
       cfg_deadline_seconds = v_cfg_deadline_seconds,
       cfg_max_blocks = v_cfg_max_blocks\<rparr>)))))))))))"

definition valid_ScanConfiguration :: "ScanConfiguration \<Rightarrow> bool" where
  "valid_ScanConfiguration x \<longleftrightarrow>
     valid_String (cfg_wallet_name x) \<and>
     valid_String (cfg_base_url x)"

interpretation c_ScanConfiguration: strict_codec encode_ScanConfiguration decode_ScanConfiguration valid_ScanConfiguration
proof
  fix x rest
  assume "valid_ScanConfiguration x"
  then show "decode_ScanConfiguration (encode_ScanConfiguration x @ rest) = Some (x, rest)"
    by (cases x) (simp add: decode_ScanConfiguration_def encode_ScanConfiguration_def valid_ScanConfiguration_def codec_rt)
next
  fix bs x rest
  assume "decode_ScanConfiguration bs = Some (x, rest)"
  then show "valid_ScanConfiguration x"
    unfolding decode_ScanConfiguration_def by (elim decode_thenE) (auto simp: valid_ScanConfiguration_def dest!: codec_valid)
qed

lemmas ScanConfiguration_rt [codec_rt] = c_ScanConfiguration.decode_encode
  and ScanConfiguration_valid [codec_valid] = c_ScanConfiguration.decode_valid

definition encode_TransactionsReadyDto :: "TransactionsReadyDto encoder" where
  "encode_TransactionsReadyDto x =
     encode_i64 (tr_account_id x) @
     encode_Vec_DisplayedTransactionDto (tr_transactions x) @
     encode_Option_u64 (tr_block_height x) @
     encode_bool (tr_is_initial_sync x)"

definition decode_TransactionsReadyDto :: "TransactionsReadyDto decoder" where
  "decode_TransactionsReadyDto =
     decode_then decode_i64 (\<lambda>v_tr_account_id.
     decode_then decode_Vec_DisplayedTransactionDto (\<lambda>v_tr_transactions.
     decode_then decode_Option_u64 (\<lambda>v_tr_block_height.
     decode_then decode_bool (\<lambda>v_tr_is_initial_sync.
     decode_return \<lparr>tr_account_id = v_tr_account_id,
       tr_transactions = v_tr_transactions,
       tr_block_height = v_tr_block_height,
       tr_is_initial_sync = v_tr_is_initial_sync\<rparr>))))"

definition valid_TransactionsReadyDto :: "TransactionsReadyDto \<Rightarrow> bool" where
  "valid_TransactionsReadyDto x \<longleftrightarrow>
     list_all valid_DisplayedTransactionDto (tr_transactions x) \<and> fits_i32 (tr_transactions x)"

interpretation c_TransactionsReadyDto: strict_codec encode_TransactionsReadyDto decode_TransactionsReadyDto valid_TransactionsReadyDto
proof
  fix x rest
  assume "valid_TransactionsReadyDto x"
  then show "decode_TransactionsReadyDto (encode_TransactionsReadyDto x @ rest) = Some (x, rest)"
    by (cases x) (simp add: decode_TransactionsReadyDto_def encode_TransactionsReadyDto_def valid_TransactionsReadyDto_def codec_rt)
next
  fix bs x rest
  assume "decode_TransactionsReadyDto bs = Some (x, rest)"
  then show "valid_TransactionsReadyDto x"
    unfolding decode_TransactionsReadyDto_def by (elim decode_thenE) (auto simp: valid_TransactionsReadyDto_def dest!: codec_valid)
qed

lemmas TransactionsReadyDto_rt [codec_rt] = c_TransactionsReadyDto.decode_encode
  and TransactionsReadyDto_valid [codec_valid] = c_TransactionsReadyDto.decode_valid

definition encode_TransactionsUpdatedDto :: "TransactionsUpdatedDto encoder" where
  "encode_TransactionsUpdatedDto x =
     encode_i64 (tu_account_id x) @
     encode_Vec_DisplayedTransactionDto (tu_updated_transactions x)"

definition decode_TransactionsUpdatedDto :: "TransactionsUpdatedDto decoder" where
  "decode_TransactionsUpdatedDto =
     decode_then decode_i64 (\<lambda>v_tu_account_id.
     decode_then decode_Vec_DisplayedTransactionDto (\<lambda>v_tu_updated_transactions.
     decode_return \<lparr>tu_account_id = v_tu_account_id,
       tu_updated_transactions = v_tu_updated_transactions\<rparr>))"

definition valid_TransactionsUpdatedDto :: "TransactionsUpdatedDto \<Rightarrow> bool" where
  "valid_TransactionsUpdatedDto x \<longleftrightarrow>
     list_all valid_DisplayedTransactionDto (tu_updated_transactions x) \<and> fits_i32 (tu_updated_transactions x)"

interpretation c_TransactionsUpdatedDto: strict_codec encode_TransactionsUpdatedDto decode_TransactionsUpdatedDto valid_TransactionsUpdatedDto
proof
  fix x rest
  assume "valid_TransactionsUpdatedDto x"
  then show "decode_TransactionsUpdatedDto (encode_TransactionsUpdatedDto x @ rest) = Some (x, rest)"
    by (cases x) (simp add: decode_TransactionsUpdatedDto_def encode_TransactionsUpdatedDto_def valid_TransactionsUpdatedDto_def codec_rt)
next
  fix bs x rest
  assume "decode_TransactionsUpdatedDto bs = Some (x, rest)"
  then show "valid_TransactionsUpdatedDto x"
    unfolding decode_TransactionsUpdatedDto_def by (elim decode_thenE) (auto simp: valid_TransactionsUpdatedDto_def dest!: codec_valid)
qed

lemmas TransactionsUpdatedDto_rt [codec_rt] = c_TransactionsUpdatedDto.decode_encode
  and TransactionsUpdatedDto_valid [codec_valid] = c_TransactionsUpdatedDto.decode_valid

definition encode_ReorgDetectedDto :: "ReorgDetectedDto encoder" where
  "encode_ReorgDetectedDto x =
     encode_i64 (rd_account_id x) @
     encode_u64 (rd_reorg_from_height x) @
     encode_u64 (rd_new_height x) @
     encode_u64 (rd_blocks_rolled_back x) @
     encode_Vec_String (rd_cancelled_transaction_ids x) @
     encode_Vec_DisplayedTransactionDto (rd_reorganized_transactions x)"

definition decode_ReorgDetectedDto :: "ReorgDetectedDto decoder" where
  "decode_ReorgDetectedDto =
     decode_then decode_i64 (\<lambda>v_rd_account_id.
     decode_then decode_u64 (\<lambda>v_rd_reorg_from_height.
     decode_then decode_u64 (\<lambda>v_rd_new_height.
     decode_then decode_u64 (\<lambda>v_rd_blocks_rolled_back.
     decode_then decode_Vec_String (\<lambda>v_rd_cancelled_transaction_ids.
     decode_then decode_Vec_DisplayedTransactionDto (\<lambda>v_rd_reorganized_transactions.
     decode_return \<lparr>rd_account_id = v_rd_account_id,
       rd_reorg_from_height = v_rd_reorg_from_height,
       rd_new_height = v_rd_new_height,
       rd_blocks_rolled_back = v_rd_blocks_rolled_back,
       rd_cancelled_transaction_ids = v_rd_cancelled_transaction_ids,
       rd_reorganized_transactions = v_rd_reorganized_transactions\<rparr>))))))"

definition valid_ReorgDetectedDto :: "ReorgDetectedDto \<Rightarrow> bool" where
  "valid_ReorgDetectedDto x \<longleftrightarrow>
     list_all valid_String (rd_cancelled_transaction_ids x) \<and> fits_i32 (rd_cancelled_transaction_ids x) \<and>
     list_all valid_DisplayedTransactionDto (rd_reorganized_transactions x) \<and> fits_i32 (rd_reorganized_transactions x)"

interpretation c_ReorgDetectedDto: strict_codec encode_ReorgDetectedDto decode_ReorgDetectedDto valid_ReorgDetectedDto
proof
  fix x rest
  assume "valid_ReorgDetectedDto x"
  then show "decode_ReorgDetectedDto (encode_ReorgDetectedDto x @ rest) = Some (x, rest)"
    by (cases x) (simp add: decode_ReorgDetectedDto_def encode_ReorgDetectedDto_def valid_ReorgDetectedDto_def codec_rt)
next
  fix bs x rest
  assume "decode_ReorgDetectedDto bs = Some (x, rest)"
  then show "valid_ReorgDetectedDto x"
    unfolding decode_ReorgDetectedDto_def by (elim decode_thenE) (auto simp: valid_ReorgDetectedDto_def dest!: codec_valid)
qed

lemmas ReorgDetectedDto_rt [codec_rt] = c_ReorgDetectedDto.decode_encode
  and ReorgDetectedDto_valid [codec_valid] = c_ReorgDetectedDto.decode_valid

fun encode_ScanEventDto :: "ScanEventDto encoder" where
  "encode_ScanEventDto (Started account from) = encode_i32 0 @ encode_i64 account @ encode_u64 from"
| "encode_ScanEventDto (Progress account current tip scanned) =
     encode_i32 1 @ encode_i64 account @ encode_u64 current @ encode_u64 tip @ encode_u64 scanned"
| "encode_ScanEventDto (Completed account final_height scanned) =
     encode_i32 2 @ encode_i64 account @ encode_u64 final_height @ encode_u64 scanned"
| "encode_ScanEventDto (Waiting_Event account resume) =
     encode_i32 3 @ encode_i64 account @ encode_u64 resume"
| "encode_ScanEventDto (MoreBlocksAvailable account last_scanned) =
     encode_i32 4 @ encode_i64 account @ encode_u64 last_scanned"
| "encode_ScanEventDto (TransactionsReady x) = encode_i32 5 @ encode_TransactionsReadyDto x"
| "encode_ScanEventDto (TransactionsUpdated x) = encode_i32 6 @ encode_TransactionsUpdatedDto x"
| "encode_ScanEventDto (ReorgDetected x) = encode_i32 7 @ encode_ReorgDetectedDto x"
| "encode_ScanEventDto Cancelled = encode_i32 8"
| "encode_ScanEventDto Superseded = encode_i32 9"
| "encode_ScanEventDto (BudgetExhausted account last_scanned tip) =
     encode_i32 10 @ encode_i64 account @ encode_u64 last_scanned @ encode_u64 tip"
| "encode_ScanEventDto (Error message) = encode_i32 11 @ encode_String message"

definition decode_2 :: "(i64 \<Rightarrow> u64 \<Rightarrow> 'a) \<Rightarrow> 'a decoder" where
  "decode_2 f = decode_then decode_i64 (\<lambda>a. decode_then decode_u64 (\<lambda>b. decode_return (f a b)))"

definition decode_3 :: "(i64 \<Rightarrow> u64 \<Rightarrow> u64 \<Rightarrow> 'a) \<Rightarrow> 'a decoder" where
  "decode_3 f =
     decode_then decode_i64 (\<lambda>a. decode_then decode_u64 (\<lambda>b. decode_then decode_u64 (\<lambda>c.
     decode_return (f a b c))))"

definition decode_4 :: "(i64 \<Rightarrow> u64 \<Rightarrow> u64 \<Rightarrow> u64 \<Rightarrow> 'a) \<Rightarrow> 'a decoder" where
  "decode_4 f =
     decode_then decode_i64 (\<lambda>a. decode_then decode_u64 (\<lambda>b. decode_then decode_u64 (\<lambda>c.
     decode_then decode_u64 (\<lambda>d. decode_return (f a b c d)))))"

definition decode_ScanEventDto :: "ScanEventDto decoder" where
  "decode_ScanEventDto = decode_then decode_i32 (\<lambda>tag.
     if tag = 0 then decode_2 Started
     else if tag = 1 then decode_4 Progress
     else if tag = 2 then decode_3 Completed
     else if tag = 3 then decode_2 Waiting_Event
     else if tag = 4 then decode_2 MoreBlocksAvailable
     else if tag = 5 then decode_then decode_TransactionsReadyDto (\<lambda>x. decode_return (TransactionsReady x))
     else if tag = 6 then decode_then decode_TransactionsUpdatedDto (\<lambda>x. decode_return (TransactionsUpdated x))
     else if tag = 7 then decode_then decode_ReorgDetectedDto (\<lambda>x. decode_return (ReorgDetected x))
     else if tag = 8 then decode_return Cancelled
     else if tag = 9 then decode_return Superseded
     else if tag = 10 then decode_3 BudgetExhausted
     else if tag = 11 then decode_then decode_String (\<lambda>s. decode_return (Error s))
     else decode_panic)"

fun valid_ScanEventDto :: "ScanEventDto \<Rightarrow> bool" where
  "valid_ScanEventDto (TransactionsReady x) = valid_TransactionsReadyDto x"
| "valid_ScanEventDto (TransactionsUpdated x) = valid_TransactionsUpdatedDto x"
| "valid_ScanEventDto (ReorgDetected x) = valid_ReorgDetectedDto x"
| "valid_ScanEventDto (Error message) = valid_String message"
| "valid_ScanEventDto _ = True"

interpretation c_ScanEventDto: strict_codec encode_ScanEventDto decode_ScanEventDto valid_ScanEventDto
proof
  fix x rest
  assume "valid_ScanEventDto x"
  then show "decode_ScanEventDto (encode_ScanEventDto x @ rest) = Some (x, rest)"
    by (cases x) (simp_all add: decode_ScanEventDto_def decode_2_def decode_3_def decode_4_def codec_rt)
next
  fix bs x rest
  assume "decode_ScanEventDto bs = Some (x, rest)"
  then show "valid_ScanEventDto x"
    by (auto simp: decode_ScanEventDto_def decode_2_def decode_3_def decode_4_def dest!: codec_valid
        split: option.splits if_splits)
qed

lemmas ScanEventDto_rt [codec_rt] = c_ScanEventDto.decode_encode
  and ScanEventDto_valid [codec_valid] = c_ScanEventDto.decode_valid

section \<open>Values survive the bridge\<close>

text \<open>
  C30 (roundtrip): the values that cross the bridge come out as they went in, and what follows
  them in the message is left: the event of a scan, whatever its variant and its transactions,
  the configuration of a scan, the details and the result of a send. The strings must be
  sequences of scalar values of fewer than \<open>2 ^ 31\<close> bytes, the vectors shorter than \<open>2 ^ 31\<close>.
\<close>

theorem api_values_survive:
  assumes "valid_ScanEventDto event" "valid_ScanConfiguration config"
    and "valid_MultiSendTransactionDetails request" "valid_SendResultDto outcome"
  shows "decode_ScanEventDto (encode_ScanEventDto event @ rest) = Some (event, rest) \<and>
    decode_ScanConfiguration (encode_ScanConfiguration config @ rest) = Some (config, rest) \<and>
    decode_MultiSendTransactionDetails (encode_MultiSendTransactionDetails request @ rest) = Some (request, rest) \<and>
    decode_SendResultDto (encode_SendResultDto outcome @ rest) = Some (outcome, rest)"
  using assms
  by (simp add: c_ScanEventDto.decode_encode c_ScanConfiguration.decode_encode
      c_MultiSendTransactionDetails.decode_encode c_SendResultDto.decode_encode)

theorem api_values_survive_witness:
  "decode_ScanEventDto (encode_ScanEventDto (BudgetExhausted 7 100 250)) = Some (BudgetExhausted 7 100 250, [])"
proof -
  have s: "valid_String (lit ''w'')"
    by (simp add: valid_String_def lit_def scalar_value_def len_utf8_def)
  have "valid_ScanConfiguration \<lparr>cfg_wallet_name = lit ''w'', cfg_base_url = lit ''w'', cfg_batch_size = 10,
      cfg_continuous = True, cfg_poll_interval_seconds = 30, cfg_required_confirmations = 3,
      cfg_priority = Foreground, cfg_processing_threads = None, cfg_event_buffer = None,
      cfg_deadline_seconds = None, cfg_max_blocks = None\<rparr>"
    using s by (simp add: valid_ScanConfiguration_def)
  moreover have "valid_MultiSendTransactionDetails \<lparr>sd_network = None, sd_base_url = None,
      sd_wallet_name = lit ''w'', sd_recipients = [], sd_send_all = False, sd_confirmation_window = None\<rparr>"
    using s by (simp add: valid_MultiSendTransactionDetails_def fits_i32_def)
  moreover have "valid_SendResultDto \<lparr>sent_transaction = \<lparr>tx_id = lit ''w'', tx_direction = Outgoing,
      tx_source = Transfer, tx_status = Pending, tx_amount = 5, tx_amount_display = lit ''w'',
      tx_message = None, tx_counterparty = None,
      tx_blockchain = \<lparr>block_height = 1, block_timestamp = lit ''w'', confirmations = 0\<rparr>,
      tx_fee = None, tx_payrefs = []\<rparr>,
      sent_accepted_by_node = True, sent_note = None, sent_node_reason = None\<rparr>"
    using s by (simp add: valid_SendResultDto_def valid_DisplayedTransactionDto_def
      valid_BlockchainInfoDto_def fits_i32_def)
  moreover have "valid_ScanEventDto (BudgetExhausted 7 100 250)" by simp
  ultimately show ?thesis
    using api_values_survive [of "BudgetExhausted 7 100 250" _ _ _ "[]"] by (metis append_Nil2)
qed

end
