(* ===== verification/Wire.thy ===== *)
theory Wire
  imports Codec_Types Wallet_Api Signing Height
begin

text \<open>
  The calls of Dart (\<open>src/frb_generated.rs\<close>): each reads its arguments from the message in
  order, runs the function of the API on them and writes the value or the error it returns. The
  runtime that carries the messages and allocates opaque handles is flutter\_rust\_bridge, not
  code of this repository: the pointer of a handle, the text \<open>{:?}\<close> gives an error and the post
  of an event are arguments.
\<close>

section \<open>Replies\<close>

datatype reply = Success "u8 list" | Failure "u8 list" | Panic

definition encode_anyhow :: "('e \<Rightarrow> rstring) \<Rightarrow> 'e \<Rightarrow> u8 list" where
  "encode_anyhow debug e = encode_String (debug e)"

definition decode_anyhow :: "api_error decoder" where
  "decode_anyhow = decode_then decode_String (\<lambda>text. decode_return (Anyhow text))"

text \<open>An error that crossed as its text reads as an error with that text.\<close>

lemma anyhow_text:
  assumes "valid_String (debug e)"
  shows "decode_anyhow (encode_anyhow debug e @ rest) = Some (Anyhow (debug e), rest)"
  using assms by (simp add: decode_anyhow_def encode_anyhow_def codec_rt)

definition respond :: "'b encoder \<Rightarrow> ('e \<Rightarrow> rstring) \<Rightarrow> 'e + 'b \<Rightarrow> reply" where
  "respond enc debug r = (case r of Inr x \<Rightarrow> Success (enc x) | Inl e \<Rightarrow> Failure (encode_anyhow debug e))"

text \<open>The arguments, one after the other.\<close>

definition encode_pair :: "'a encoder \<Rightarrow> 'b encoder \<Rightarrow> ('a \<times> 'b) encoder" where
  "encode_pair e1 e2 x = e1 (fst x) @ e2 (snd x)"

definition decode_pair :: "'a decoder \<Rightarrow> 'b decoder \<Rightarrow> ('a \<times> 'b) decoder" where
  "decode_pair d1 d2 = decode_then d1 (\<lambda>x. decode_then d2 (\<lambda>y. decode_return (x, y)))"

text \<open>
  The shapes of a call: on the process-global state, without it, infallible, and with a stream
  of events. A message that does not decode panics before the function runs.
\<close>

definition wire_call ::
  "'a decoder \<Rightarrow> 'b encoder \<Rightarrow> ('e \<Rightarrow> rstring) \<Rightarrow> ('a \<Rightarrow> 's \<Rightarrow> ('e + 'b) \<times> 's) \<Rightarrow> u8 list \<Rightarrow> 's \<Rightarrow> reply \<times> 's" where
  "wire_call dec enc debug f bytes s =
     (case decode_message dec bytes of
        None \<Rightarrow> (Panic, s)
      | Some a \<Rightarrow> (case f a s of (r, s') \<Rightarrow> (respond enc debug r, s')))"

definition wire_result ::
  "'a decoder \<Rightarrow> 'b encoder \<Rightarrow> ('e \<Rightarrow> rstring) \<Rightarrow> ('a \<Rightarrow> 'e + 'b) \<Rightarrow> u8 list \<Rightarrow> reply" where
  "wire_result dec enc debug f bytes =
     (case decode_message dec bytes of None \<Rightarrow> Panic | Some a \<Rightarrow> respond enc debug (f a))"

definition wire_pure :: "'a decoder \<Rightarrow> 'b encoder \<Rightarrow> ('a \<Rightarrow> 'b) \<Rightarrow> u8 list \<Rightarrow> reply" where
  "wire_pure dec enc f bytes =
     (case decode_message dec bytes of None \<Rightarrow> Panic | Some a \<Rightarrow> Success (enc (f a)))"

definition wire_stream ::
  "'a decoder \<Rightarrow> 'v encoder \<Rightarrow> 'b encoder \<Rightarrow> ('e \<Rightarrow> rstring) \<Rightarrow>
     ('a \<Rightarrow> 's \<Rightarrow> ('v list \<times> ('e + 'b)) \<times> 's) \<Rightarrow> u8 list \<Rightarrow> 's \<Rightarrow> (u8 list list \<times> reply) \<times> 's" where
  "wire_stream dec enc_event enc debug f bytes s =
     (case decode_message dec bytes of
        None \<Rightarrow> (([], Panic), s)
      | Some a \<Rightarrow>
          (case f a s of ((events, r), s') \<Rightarrow> ((map enc_event events, respond enc debug r), s')))"

text \<open>A sink is named by its channel; adding an event posts its bytes.\<close>

definition decode_StreamSink ::
  "(rstring \<Rightarrow> u8 list list \<Rightarrow> u8 list \<Rightarrow> rstring + unit) \<Rightarrow> 'v encoder \<Rightarrow>
     ('v list \<Rightarrow> 'v \<Rightarrow> rstring + unit) decoder" where
  "decode_StreamSink post enc =
     decode_then decode_String (\<lambda>channel.
     decode_return (\<lambda>before event. post channel (map enc before) (enc event)))"

definition decode_ScanSink ::
  "(rstring \<Rightarrow> u8 list list \<Rightarrow> u8 list \<Rightarrow> rstring + unit) \<Rightarrow>
     (ScanEventDto list \<Rightarrow> ScanEventDto \<Rightarrow> rstring + unit) decoder" where
  "decode_ScanSink post = decode_StreamSink post encode_ScanEventDto"

definition decode_SendSink ::
  "(rstring \<Rightarrow> u8 list list \<Rightarrow> u8 list \<Rightarrow> rstring + unit) \<Rightarrow>
     (SendTransactionEvent list \<Rightarrow> SendTransactionEvent \<Rightarrow> rstring + unit) decoder" where
  "decode_SendSink post = decode_StreamSink post encode_SendTransactionEvent"

section \<open>Opaque handles\<close>

text \<open>
  Seed words cross as the pointer of a handle and its size; Dart sends the pointer back. \<open>raw\<close>
  is the pointer and size the runtime gives a value, \<open>deref\<close> what a pointer holds.
\<close>

definition encode_RustOpaque_SensitiveSeeds :: "(rstring list \<Rightarrow> usize \<times> i32) \<Rightarrow> rstring list encoder" where
  "encode_RustOpaque_SensitiveSeeds raw seeds =
     (case raw seeds of (pointer, held) \<Rightarrow> encode_usize pointer @ encode_i32 held)"

definition decode_RustOpaque_SensitiveSeeds :: "(usize \<Rightarrow> rstring list option) \<Rightarrow> rstring list decoder" where
  "decode_RustOpaque_SensitiveSeeds deref =
     decode_then decode_usize (\<lambda>pointer.
       case deref pointer of None \<Rightarrow> decode_panic | Some seeds \<Rightarrow> decode_return seeds)"

definition encode_SensitiveSeeds :: "(rstring list \<Rightarrow> usize \<times> i32) \<Rightarrow> rstring list encoder" where
  "encode_SensitiveSeeds raw = encode_RustOpaque_SensitiveSeeds raw"

definition decode_SensitiveSeeds :: "(usize \<Rightarrow> rstring list option) \<Rightarrow> rstring list decoder" where
  "decode_SensitiveSeeds deref = decode_RustOpaque_SensitiveSeeds deref"

definition encode_Option_SensitiveSeeds :: "(rstring list \<Rightarrow> usize \<times> i32) \<Rightarrow> rstring list option encoder" where
  "encode_Option_SensitiveSeeds raw = encode_option (encode_SensitiveSeeds raw)"

definition decode_Option_SensitiveSeeds :: "(usize \<Rightarrow> rstring list option) \<Rightarrow> rstring list option decoder" where
  "decode_Option_SensitiveSeeds deref = decode_option (decode_SensitiveSeeds deref)"

definition encode_WalletCreationDetails ::
  "(rstring list \<Rightarrow> usize \<times> i32) \<Rightarrow> WalletCreationDetails encoder" where
  "encode_WalletCreationDetails raw x =
     encode_String (tari_address x) @
     encode_u16 (wallet_birthday x) @
     encode_String (spend_public_key_hex x) @
     encode_String (view_private_key_hex x) @
     encode_Option_SensitiveSeeds raw (seed_words x)"

definition decode_WalletCreationDetails ::
  "(usize \<Rightarrow> rstring list option) \<Rightarrow> WalletCreationDetails decoder" where
  "decode_WalletCreationDetails deref =
     decode_then decode_String (\<lambda>v_tari_address.
     decode_then decode_u16 (\<lambda>v_wallet_birthday.
     decode_then decode_String (\<lambda>v_spend_public_key_hex.
     decode_then decode_String (\<lambda>v_view_private_key_hex.
     decode_then (decode_Option_SensitiveSeeds deref) (\<lambda>v_seed_words.
     decode_return \<lparr>tari_address = v_tari_address, wallet_birthday = v_wallet_birthday,
       spend_public_key_hex = v_spend_public_key_hex, view_private_key_hex = v_view_private_key_hex,
       seed_words = v_seed_words\<rparr>)))))"

section \<open>The calls\<close>

text \<open>Sessions and the database.\<close>

definition wire_unlock_wallet where
  "wire_unlock_wallet env M debug =
     wire_call (decode_pair decode_String (decode_pair decode_String decode_String)) encode_unit debug
       (\<lambda>(path, wallet_name, passphrase). unlock_wallet env M path wallet_name passphrase)"

definition wire_lock_wallet where
  "wire_lock_wallet env M debug =
     wire_call decode_String encode_bool debug
       (\<lambda>wallet_name. lock_wallet env M wallet_name)"

definition wire_force_lock_wallet where
  "wire_force_lock_wallet env M debug =
     wire_call decode_String encode_unit debug
       (\<lambda>wallet_name. force_lock_wallet env M wallet_name)"

definition wire_set_database_path where
  "wire_set_database_path debug =
     wire_call decode_String encode_unit debug
       (\<lambda>path. set_database_path path)"

definition wire_checkpoint_database where
  "wire_checkpoint_database M debug =
     wire_call decode_unit encode_unit debug
       (\<lambda>_. checkpoint_database M)"

text \<open>Scans and sends.\<close>

definition wire_create_scan_handle where
  "wire_create_scan_handle debug =
     wire_call decode_String encode_ScanHandle debug
       (\<lambda>wallet_name. create_scan_handle wallet_name)"

definition wire_stop_scan where
  "wire_stop_scan env debug =
     wire_call decode_ScanHandle encode_unit debug
       (\<lambda>handle. stop_scan env handle)"

definition wire_start_scan where
  "wire_start_scan env S L M tx post debug =
     wire_stream (decode_pair (decode_ScanSink post) (decode_pair decode_ScanHandle decode_ScanConfiguration))
       encode_ScanEventDto encode_unit debug
       (\<lambda>(sink_add, handle, config). start_scan env S L M tx debug sink_add handle config)"

definition wire_rescan where
  "wire_rescan env S L M tx post debug =
     wire_stream (decode_pair (decode_ScanSink post) (decode_pair decode_ScanHandle (decode_pair decode_u64 decode_ScanConfiguration)))
       encode_ScanEventDto encode_unit debug
       (\<lambda>(sink_add, handle, from_height, config). rescan env S L M tx debug sink_add handle from_height config)"

definition wire_send_transaction where
  "wire_send_transaction env A N L M S post debug =
     wire_stream (decode_pair (decode_SendSink post) decode_MultiSendTransactionDetails)
       encode_SendTransactionEvent encode_SendResultDto debug
       (\<lambda>(sink_add, d). send_transaction sink_add env A N L M S d)"

definition wire_abandon_send where
  "wire_abandon_send env L M S debug =
     wire_call (decode_pair decode_String (decode_pair decode_String decode_String)) encode_String debug
       (\<lambda>(wallet_name, passphrase, transaction_id). abandon_send env L M S wallet_name passphrase transaction_id)"

text \<open>Wallets.\<close>

definition wire_create_wallet where
  "wire_create_wallet A W N raw debug =
     wire_call (decode_pair decode_String (decode_pair decode_Option_TariNetwork decode_String)) (encode_WalletCreationDetails raw) debug
       (\<lambda>(wallet_name, net, passphrase). create_wallet A W N wallet_name net passphrase)"

definition wire_restore_wallet where
  "wire_restore_wallet A W N raw debug =
     wire_call (decode_pair decode_String (decode_pair decode_Vec_String (decode_pair decode_String decode_Option_TariNetwork))) (encode_WalletCreationDetails raw) debug
       (\<lambda>(wallet_name, seeds, passphrase, net). restore_wallet A W N wallet_name seeds passphrase net)"

definition wire_import_view_only_wallet where
  "wire_import_view_only_wallet A W N raw debug =
     wire_call (decode_pair decode_String (decode_pair decode_String (decode_pair decode_String (decode_pair decode_u16 (decode_pair decode_String decode_Option_TariNetwork))))) (encode_WalletCreationDetails raw) debug
       (\<lambda>(wallet_name, view_hex, spend_hex, birthday, passphrase, net). import_view_only_wallet A W N wallet_name view_hex spend_hex birthday passphrase net)"

definition wire_import_wallet_from_keys where
  "wire_import_wallet_from_keys A W N raw debug =
     wire_call (decode_pair decode_String (decode_pair decode_String (decode_pair decode_String (decode_pair decode_u16 (decode_pair decode_String decode_Option_TariNetwork))))) (encode_WalletCreationDetails raw) debug
       (\<lambda>(wallet_name, view_hex, spend_hex, birthday, passphrase, net). import_wallet_from_keys A W N wallet_name view_hex spend_hex birthday passphrase net)"

definition wire_change_passphrase where
  "wire_change_passphrase env W L M debug =
     wire_call (decode_pair decode_String (decode_pair decode_String decode_String)) encode_unit debug
       (\<lambda>(wallet_name, old_passphrase, new_passphrase). change_passphrase env W L M wallet_name old_passphrase new_passphrase)"

definition wire_get_seed_words where
  "wire_get_seed_words W L M raw debug =
     wire_call (decode_pair decode_String decode_String) (encode_SensitiveSeeds raw) debug
       (\<lambda>(wallet_name, password). get_seed_words W L M wallet_name password)"

definition wire_reveal_seed_words where
  "wire_reveal_seed_words deref =
     wire_pure (decode_RustOpaque_SensitiveSeeds deref) encode_Vec_String
       (\<lambda>handle. reveal_seed_words handle)"

text \<open>
  The accessors of a handle's field: the store of the runtime maps the pointers it gave out to
  what they hold; a pointer it does not know panics.
\<close>

definition decode_handle :: "(usize \<rightharpoonup> rstring list) \<Rightarrow> usize decoder" where
  "decode_handle store =
     decode_then decode_usize (\<lambda>pointer.
       if store pointer = None then decode_panic else decode_return pointer)"

definition wire_get_words :: "u8 list \<Rightarrow> (usize \<rightharpoonup> rstring list) \<Rightarrow> reply \<times> (usize \<rightharpoonup> rstring list)" where
  "wire_get_words bytes store =
     wire_call (decode_handle store) encode_Vec_String (\<lambda>_ :: unit. [])
       (\<lambda>that store. (Inr (case store that of None \<Rightarrow> [] | Some words \<Rightarrow> words), store)) bytes store"

definition wire_set_words :: "u8 list \<Rightarrow> (usize \<rightharpoonup> rstring list) \<Rightarrow> reply \<times> (usize \<rightharpoonup> rstring list)" where
  "wire_set_words bytes store =
     wire_call (decode_pair (decode_handle store) decode_Vec_String) encode_unit (\<lambda>_ :: unit. [])
       (\<lambda>(that, words) store. (Inr (), store(that \<mapsto> words))) bytes store"

definition wire_delete_wallet where
  "wire_delete_wallet env W M debug =
     wire_call decode_String encode_unit debug
       (\<lambda>wallet_name. delete_wallet env W M wallet_name)"

definition wire_rename_wallet where
  "wire_rename_wallet env W M debug =
     wire_call (decode_pair decode_String decode_String) encode_unit debug
       (\<lambda>(current_wallet_name, new_wallet_name). rename_wallet env W M current_wallet_name new_wallet_name)"

definition wire_list_wallets where
  "wire_list_wallets L M debug =
     wire_call decode_unit encode_Vec_String debug
       (\<lambda>_. list_wallets L M)"

definition wire_get_address where
  "wire_get_address A W N M debug =
     wire_call (decode_pair decode_String decode_Option_TariNetwork) encode_String debug
       (\<lambda>(wallet_name, net). get_address A W N M wallet_name net)"

definition wire_get_balance where
  "wire_get_balance L M debug =
     wire_call decode_String encode_AccountBalanceDto debug
       (\<lambda>wallet_name. get_balance L M wallet_name)"

definition wire_get_transactions where
  "wire_get_transactions A L M debug =
     wire_call (decode_pair decode_String (decode_pair decode_i64 decode_i64)) encode_Vec_DisplayedTransactionDto debug
       (\<lambda>(wallet_name, limit, offset). get_transactions A L M wallet_name limit offset)"

text \<open>Fees, signatures, the node and the network.\<close>

definition wire_estimate_transaction_fee where
  "wire_estimate_transaction_fee env F M debug =
     wire_call (decode_pair decode_u64 (decode_pair decode_FeePriority (decode_pair decode_String decode_String))) encode_FeeEstimate debug
       (\<lambda>(amount, priority, base_url, wallet_name). estimate_transaction_fee env F M amount priority base_url wallet_name)"

definition wire_estimate_transaction_fee_for_outputs where
  "wire_estimate_transaction_fee_for_outputs env F M debug =
     wire_call (decode_pair decode_u64 (decode_pair decode_u32 (decode_pair decode_FeePriority (decode_pair decode_String decode_String)))) encode_FeeEstimate debug
       (\<lambda>(amount, num_outputs, priority, base_url, wallet_name). estimate_transaction_fee_for_outputs env F M amount num_outputs priority base_url wallet_name)"

definition wire_estimate_send_all_fee where
  "wire_estimate_send_all_fee A F M debug =
     wire_call (decode_pair decode_String (decode_pair decode_String (decode_pair decode_Option_String (decode_pair decode_Option_TariNetwork decode_Option_u64)))) encode_SendAllFeeEstimate debug
       (\<lambda>(wallet_name, recipient_address, payment_id, net, confirmation_window). estimate_send_all_fee A F M wallet_name recipient_address payment_id net confirmation_window)"

definition wire_sign_message where
  "wire_sign_message M sign_message_unlocked debug =
     wire_call (decode_pair decode_String decode_String) encode_String debug
       (\<lambda>(wallet_name, message). sign_message M sign_message_unlocked wallet_name message)"

definition wire_verify_message where
  "wire_verify_message A lib_verify debug =
     wire_result (decode_pair decode_String (decode_pair decode_String decode_String)) encode_bool debug
       (\<lambda>(message, signature, address). verify_message A lib_verify message signature address)"

definition wire_check_node_health where
  "wire_check_node_health N debug =
     wire_result decode_String encode_bool debug
       (\<lambda>base_url. check_node_health N base_url)"

definition wire_is_node_synced where
  "wire_is_node_synced N debug =
     wire_result decode_String encode_bool debug
       (\<lambda>base_url. is_node_synced N base_url)"

definition wire_get_tip_info where
  "wire_get_tip_info N debug =
     wire_result decode_String encode_Option_TipInfo debug
       (\<lambda>base_url. get_tip_info N base_url)"

definition wire_get_height_at_time where
  "wire_get_height_at_time H debug =
     wire_result (decode_pair decode_String (decode_pair decode_u64 decode_Option_TariNetwork)) encode_u64 debug
       (\<lambda>(base_url, epoch_secs, net). get_height_at_time H base_url epoch_secs net)"

definition wire_estimate_height_at_time where
  "wire_estimate_height_at_time H =
     wire_pure (decode_pair decode_Option_TariNetwork decode_u64) encode_u64
       (\<lambda>(net, epoch_secs). estimate_height_at_time H net epoch_secs)"

definition wire_birthday_from_height where
  "wire_birthday_from_height H =
     wire_pure (decode_pair decode_Option_TariNetwork decode_u64) encode_u16
       (\<lambda>(net, height). birthday_from_height H net height)"

definition wire_birthday_from_date where
  "wire_birthday_from_date H =
     wire_pure decode_u64 encode_u16
       (\<lambda>epoch_secs. birthday_from_date H epoch_secs)"

definition wire_current_network where
  "wire_current_network N wd = wire_pure decode_unit encode_Option_TariNetwork (\<lambda>_. current_network N wd)"

definition wire_format_micro_tari where
  "wire_format_micro_tari =
     wire_pure decode_u64 encode_String
       (\<lambda>micro_tari. format_micro_tari micro_tari)"

text \<open>\<open>list_words\<close> returns the word list of tari.\<close>

definition list_words :: "rstring list \<Rightarrow> rstring list" where
  "list_words english_words = english_words"

definition wire_list_words where
  "wire_list_words english_words = wire_pure decode_unit encode_Vec_String (\<lambda>_. list_words english_words)"

text \<open>The logger, whose state is its own; installing it also calls the file system.\<close>

definition wire_logger_config_default where
  "wire_logger_config_default = wire_pure decode_unit encode_LoggerConfig (\<lambda>_. default_LoggerConfig)"

definition wire_set_log_level where
  "wire_set_log_level debug = wire_call decode_LogLevel encode_unit debug set_log_level"

definition wire_init_logger where
  "wire_init_logger assertions env debug =
     wire_call (decode_pair decode_String decode_Option_LoggerConfig) encode_unit debug
       (\<lambda>(base_path, config) (g, calls).
          case init_logger assertions env base_path config g of (r, g, new) \<Rightarrow> (r, g, calls @ new))"


section \<open>Dispatch\<close>

text \<open>The functions of the wire, and the ids Dart calls them by.\<close>

datatype endpoint =
  Fn_get_words | Fn_set_words | Fn_abandon_send | Fn_birthday_from_date |
  Fn_birthday_from_height | Fn_change_passphrase | Fn_check_node_health |
  Fn_checkpoint_database | Fn_create_scan_handle | Fn_create_wallet | Fn_current_network |
  Fn_delete_wallet | Fn_estimate_height_at_time | Fn_estimate_send_all_fee |
  Fn_estimate_transaction_fee | Fn_estimate_transaction_fee_for_outputs |
  Fn_force_lock_wallet | Fn_format_micro_tari | Fn_get_address | Fn_get_balance |
  Fn_get_height_at_time | Fn_get_seed_words | Fn_get_tip_info | Fn_get_transactions |
  Fn_import_view_only_wallet | Fn_import_wallet_from_keys | Fn_init_logger |
  Fn_is_node_synced | Fn_list_wallets | Fn_list_words | Fn_lock_wallet |
  Fn_logger_config_default | Fn_rename_wallet | Fn_rescan | Fn_restore_wallet |
  Fn_reveal_seed_words | Fn_send_transaction | Fn_set_database_path | Fn_set_log_level |
  Fn_sign_message | Fn_start_scan | Fn_stop_scan | Fn_unlock_wallet | Fn_verify_message

definition primary_table :: "(i32 \<times> endpoint) list" where
  "primary_table =
     [(3, Fn_abandon_send), (6, Fn_change_passphrase), (7, Fn_check_node_health),
      (8, Fn_checkpoint_database), (10, Fn_create_wallet), (12, Fn_delete_wallet),
      (14, Fn_estimate_send_all_fee), (15, Fn_estimate_transaction_fee),
      (16, Fn_estimate_transaction_fee_for_outputs), (17, Fn_force_lock_wallet),
      (18, Fn_format_micro_tari), (19, Fn_get_address), (20, Fn_get_balance),
      (21, Fn_get_height_at_time), (22, Fn_get_seed_words), (23, Fn_get_tip_info),
      (24, Fn_get_transactions), (25, Fn_import_view_only_wallet),
      (26, Fn_import_wallet_from_keys), (28, Fn_is_node_synced), (29, Fn_list_wallets),
      (31, Fn_lock_wallet), (32, Fn_logger_config_default), (33, Fn_rename_wallet),
      (34, Fn_rescan), (35, Fn_restore_wallet), (36, Fn_reveal_seed_words),
      (37, Fn_send_transaction), (38, Fn_set_database_path), (40, Fn_sign_message),
      (41, Fn_start_scan), (42, Fn_stop_scan), (43, Fn_unlock_wallet), (44, Fn_verify_message)]"

definition sync_table :: "(i32 \<times> endpoint) list" where
  "sync_table =
     [(1, Fn_get_words), (2, Fn_set_words), (4, Fn_birthday_from_date),
      (5, Fn_birthday_from_height), (9, Fn_create_scan_handle), (11, Fn_current_network),
      (13, Fn_estimate_height_at_time), (27, Fn_init_logger), (30, Fn_list_words),
      (39, Fn_set_log_level)]"

text \<open>An id that is not in the table is unreachable in the code, and panics.\<close>

definition pde_ffi_dispatcher_primary :: "i32 \<Rightarrow> endpoint option" where
  "pde_ffi_dispatcher_primary func_id = map_of primary_table func_id"

definition pde_ffi_dispatcher_sync :: "i32 \<Rightarrow> endpoint option" where
  "pde_ffi_dispatcher_sync func_id = map_of sync_table func_id"

lemma dispatch_tables:
  "distinct (map fst (primary_table @ sync_table))" "distinct (map snd (primary_table @ sync_table))"
  "length (primary_table @ sync_table) = 44"
  by (simp_all add: primary_table_def sync_table_def)

text \<open>No function is in both dispatchers, and no two ids call the same one.\<close>

lemma same_function_same_id:
  assumes "distinct (map snd xs)" "map_of xs i = Some e" "map_of xs j = Some e"
  shows "i = j"
  using assms by (induction xs) (auto split: if_splits dest!: map_of_SomeD intro: rev_image_eqI)

lemma dispatch_unique:
  "pde_ffi_dispatcher_primary i = Some e \<Longrightarrow> pde_ffi_dispatcher_sync j \<noteq> Some e"
  "pde_ffi_dispatcher_primary i = Some e \<Longrightarrow> pde_ffi_dispatcher_primary j = Some e \<Longrightarrow> i = j"
  "pde_ffi_dispatcher_sync i = Some e \<Longrightarrow> pde_ffi_dispatcher_sync j = Some e \<Longrightarrow> i = j"
proof -
  note distinct = dispatch_tables(2) [unfolded map_append distinct_append]
  show "pde_ffi_dispatcher_sync j \<noteq> Some e" if "pde_ffi_dispatcher_primary i = Some e"
  proof
    assume "pde_ffi_dispatcher_sync j = Some e"
    with that have "e \<in> snd ` set primary_table \<inter> snd ` set sync_table"
      by (force simp: pde_ffi_dispatcher_primary_def pde_ffi_dispatcher_sync_def dest!: map_of_SomeD)
    with distinct show False by simp
  qed
  show "i = j" if "pde_ffi_dispatcher_primary i = Some e" "pde_ffi_dispatcher_primary j = Some e"
    using that distinct same_function_same_id [of primary_table]
    unfolding pde_ffi_dispatcher_primary_def by blast
  show "i = j" if "pde_ffi_dispatcher_sync i = Some e" "pde_ffi_dispatcher_sync j = Some e"
    using that distinct same_function_same_id [of sync_table]
    unfolding pde_ffi_dispatcher_sync_def by blast
qed

section \<open>A call is the function\<close>

lemmas codec_rt_end = codec_rt [where rest = "[]", unfolded append_Nil2]

text \<open>What Dart sets in a handle is what it gets; other handles keep their words.\<close>

lemma set_then_get:
  assumes "store p \<noteq> None" "store q \<noteq> None" "valid_Vec valid_String words"
  shows "wire_get_words (encode_usize q) (snd (wire_set_words (encode_usize p @ encode_Vec_String words) store)) =
    (Success (encode_Vec_String (if q = p then words else the (store q))), store(p \<mapsto> words))"
  using assms
  by (auto simp: wire_get_words_def wire_set_words_def wire_call_def decode_message_def decode_pair_def
      decode_handle_def respond_def codec_rt codec_rt_end)



end
