(* ===== verification/Wire_Types.thy ===== *)
theory Wire_Types
  imports Wire
begin

text \<open>
  What the functions of the API may rely on about their arguments. The bytes of a call come from
  Dart and may be anything; the decoders either panic or yield values of their types: strings of
  Unicode scalar values, vectors and strings whose length an \<open>i32\<close> can count, known variants. So
  a call reaches its function with well-formed arguments, or changes nothing.
\<close>

section \<open>Arguments that were read\<close>

text \<open>\<open>yields\<close>: whatever the bytes, what is read satisfies the predicate.\<close>

definition yields :: "'a decoder \<Rightarrow> ('a \<Rightarrow> bool) \<Rightarrow> bool" where
  "yields decode valid \<longleftrightarrow> (\<forall>bs x rest. decode bs = Some (x, rest) \<longrightarrow> valid x)"

lemma yieldsD: "yields decode valid \<Longrightarrow> decode bs = Some (x, rest) \<Longrightarrow> valid x"
  unfolding yields_def by blast

lemma yields_pair:
  assumes "yields decode1 valid1" "yields decode2 valid2"
  shows "yields (decode_pair decode1 decode2) (\<lambda>(x, y). valid1 x \<and> valid2 y)"
  unfolding yields_def decode_pair_def
proof (intro allI impI)
  fix bs p rest
  assume "decode_then decode1 (\<lambda>x. decode_then decode2 (\<lambda>y. decode_return (x, y))) bs = Some (p, rest)"
  then show "case p of (x, y) \<Rightarrow> valid1 x \<and> valid2 y"
    by (elim decode_thenE) (auto dest!: yieldsD [OF assms(1)] yieldsD [OF assms(2)])
qed

lemma yields_any: "yields decode (\<lambda>_. True)"
  by (simp add: yields_def)

lemma yields_strict: "strict_codec encode decode valid \<Longrightarrow> yields decode valid"
  by (auto simp: yields_def dest: strict_codec.decode_valid)

lemmas yields_args =
  yields_strict [OF str.strict_codec_axioms] yields_strict [OF vec_String.strict_codec_axioms]
  yields_strict [OF c_ScanHandle.strict_codec_axioms]
  yields_strict [OF c_ScanConfiguration.strict_codec_axioms]
  yields_strict [OF c_MultiSendTransactionDetails.strict_codec_axioms]

lemma decode_message_yields:
  "yields decode valid \<Longrightarrow> decode_message decode bytes = Some a \<Longrightarrow> valid a"
  by (auto simp: decode_message_def dest: yieldsD split: option.splits list.splits)

section \<open>Calls with arguments that were read\<close>

lemma wire_call_typed:
  assumes "yields dec valid"
  shows "wire_call dec enc debug f bytes s = (Panic, s) \<or>
    (\<exists>a. valid a \<and> wire_call dec enc debug f bytes s = (case f a s of (r, s') \<Rightarrow> (respond enc debug r, s')))"
  using decode_message_yields [OF assms, of bytes]
  by (cases "decode_message dec bytes") (auto simp: wire_call_def)

lemma wire_stream_typed:
  assumes "yields dec valid"
  shows "wire_stream dec enc_event enc debug f bytes s = (([], Panic), s) \<or>
    (\<exists>a. valid a \<and> wire_stream dec enc_event enc debug f bytes s =
      (case f a s of ((events, r), s') \<Rightarrow> ((map enc_event events, respond enc debug r), s')))"
  using decode_message_yields [OF assms, of bytes]
  by (cases "decode_message dec bytes") (auto simp: wire_stream_def)

text \<open>
  C31 (type): whatever bytes Dart sends, a call either panics before its function runs, with the
  state as it was, or runs its function on well-formed arguments: an unlock gets strings, a restore
  a list of strings, a scan a handle and a configuration whose fields are well formed, a send
  details with well-formed recipients. No malformed string or length reaches the API.
\<close>

theorem calls_are_well_typed:
  "(wire_unlock_wallet env M debug bytes s = (Panic, s) \<or>
    (\<exists>path w pw. valid_String path \<and> valid_String w \<and> valid_String pw \<and>
      wire_unlock_wallet env M debug bytes s =
        (case unlock_wallet env M path w pw s of (r, s') \<Rightarrow> (respond encode_unit debug r, s')))) \<and>
   (wire_restore_wallet A W N raw debug bytes s = (Panic, s) \<or>
    (\<exists>w seeds pw net. valid_String w \<and> list_all valid_String seeds \<and> fits_i32 seeds \<and> valid_String pw \<and>
      wire_restore_wallet A W N raw debug bytes s =
        (case restore_wallet A W N w seeds pw net s of
           (r, s') \<Rightarrow> (respond (encode_WalletCreationDetails raw) debug r, s')))) \<and>
   (wire_start_scan env S L M tx post debug bytes s = (([], Panic), s) \<or>
    (\<exists>sink handle config. valid_ScanHandle handle \<and> valid_ScanConfiguration config \<and>
      wire_start_scan env S L M tx post debug bytes s =
        (case start_scan env S L M tx debug sink handle config s of
           ((events, r), s') \<Rightarrow> ((map encode_ScanEventDto events, respond encode_unit debug r), s')))) \<and>
   (wire_send_transaction env A N L M T post debug bytes s = (([], Panic), s) \<or>
    (\<exists>sink d. valid_MultiSendTransactionDetails d \<and>
      wire_send_transaction env A N L M T post debug bytes s =
        (case send_transaction sink env A N L M T d s of
           ((events, r), s') \<Rightarrow>
             ((map encode_SendTransactionEvent events, respond encode_SendResultDto debug r), s'))))"
  unfolding wire_unlock_wallet_def wire_restore_wallet_def wire_start_scan_def wire_send_transaction_def
proof (intro conjI, goal_cases)
  case 1
  show ?case
    using wire_call_typed [OF yields_pair [OF yields_args(1) yields_pair [OF yields_args(1) yields_args(1)]]]
    by fastforce
next
  case 2
  show ?case
    using wire_call_typed [OF yields_pair [OF yields_args(1) yields_pair [OF yields_args(2)
        yields_pair [OF yields_args(1) yields_any]]]]
    by fastforce
next
  case 3
  show ?case
    using wire_stream_typed [OF yields_pair [OF yields_any yields_pair [OF yields_args(3) yields_args(4)]]]
    by fastforce
next
  case 4
  show ?case
    using wire_stream_typed [OF yields_pair [OF yields_any yields_args(5)]]
    by fastforce
qed

end
