(* ===== verification/Dart_Objects.thy ===== *)
theory Dart_Objects
  imports Wire
begin

text \<open>
  The conversions of the API's values to Dart objects (\<open>IntoDart\<close> in \<open>src/frb_generated.rs\<close>): an
  enum becomes the index of its variant, a struct the array of its fields, an event the array of
  its variant and its fields. \<open>into_into_dart\<close> is the identity on each of these types, so it
  does not appear. What the runtime makes of integers, strings, arrays, options, vectors and
  opaque handles is the argument \<open>D\<close>. The same values also cross the bridge as bytes: both
  forms come from one tree per value, which is what the contract below says of a type.
\<close>

section \<open>The conversions of the runtime\<close>

record 'd dart_lib =
  dart_bool :: "bool \<Rightarrow> 'd"
  dart_i32 :: "i32 \<Rightarrow> 'd"
  dart_u16 :: "u16 \<Rightarrow> 'd"
  dart_u32 :: "u32 \<Rightarrow> 'd"
  dart_u64 :: "u64 \<Rightarrow> 'd"
  dart_i64 :: "i64 \<Rightarrow> 'd"
  dart_usize :: "usize \<Rightarrow> 'd"
  dart_string :: "rstring \<Rightarrow> 'd"
  dart_strings :: "rstring list \<Rightarrow> 'd"
  dart_option :: "'d option \<Rightarrow> 'd"
  dart_vec :: "'d list \<Rightarrow> 'd"
  dart_array :: "'d list \<Rightarrow> 'd"
  dart_opaque :: "rstring list \<Rightarrow> 'd"

text \<open>
  The tree of a value: what its conversion asks of the runtime, and no more. Reading it with the
  functions of a runtime gives the Dart object of that runtime; writing out its leaves, with the
  length before a vector and the flag before an option, gives the bytes.
\<close>

datatype dart_tree =
    T_Bool bool
  | T_I32 i32
  | T_U16 u16
  | T_U32 u32
  | T_U64 u64
  | T_I64 i64
  | T_Usize usize
  | T_String rstring
  | T_Strings "rstring list"
  | T_Option "dart_tree option"
  | T_Vec "dart_tree list"
  | T_Array "dart_tree list"
  | T_Opaque "rstring list"

definition tree_lib :: "dart_tree dart_lib" where
  "tree_lib =
     \<lparr>dart_bool = T_Bool, dart_i32 = T_I32, dart_u16 = T_U16, dart_u32 = T_U32, dart_u64 = T_U64,
      dart_i64 = T_I64, dart_usize = T_Usize, dart_string = T_String, dart_strings = T_Strings,
      dart_option = T_Option, dart_vec = T_Vec, dart_array = T_Array, dart_opaque = T_Opaque\<rparr>"

primrec read_tree :: "'d dart_lib \<Rightarrow> dart_tree \<Rightarrow> 'd" where
  "read_tree D (T_Bool b) = dart_bool D b"
| "read_tree D (T_I32 n) = dart_i32 D n"
| "read_tree D (T_U16 n) = dart_u16 D n"
| "read_tree D (T_U32 n) = dart_u32 D n"
| "read_tree D (T_U64 n) = dart_u64 D n"
| "read_tree D (T_I64 n) = dart_i64 D n"
| "read_tree D (T_Usize n) = dart_usize D n"
| "read_tree D (T_String s) = dart_string D s"
| "read_tree D (T_Strings ss) = dart_strings D ss"
| "read_tree D (T_Option x) = dart_option D (map_option (read_tree D) x)"
| "read_tree D (T_Vec xs) = dart_vec D (map (read_tree D) xs)"
| "read_tree D (T_Array xs) = dart_array D (map (read_tree D) xs)"
| "read_tree D (T_Opaque seeds) = dart_opaque D seeds"

primrec flatten :: "(rstring list \<Rightarrow> usize \<times> i32) \<Rightarrow> dart_tree \<Rightarrow> u8 list" where
  "flatten raw (T_Bool b) = encode_bool b"
| "flatten raw (T_I32 n) = encode_i32 n"
| "flatten raw (T_U16 n) = encode_u16 n"
| "flatten raw (T_U32 n) = encode_u32 n"
| "flatten raw (T_U64 n) = encode_u64 n"
| "flatten raw (T_I64 n) = encode_i64 n"
| "flatten raw (T_Usize n) = encode_usize n"
| "flatten raw (T_String s) = encode_String s"
| "flatten raw (T_Strings ss) = encode_Vec_String ss"
| "flatten raw (T_Option x) =
     encode_bool (x \<noteq> None) @ (case map_option (flatten raw) x of None \<Rightarrow> [] | Some bs \<Rightarrow> bs)"
| "flatten raw (T_Vec xs) = encode_i32 (of_nat (length xs)) @ concat (map (flatten raw) xs)"
| "flatten raw (T_Array xs) = concat (map (flatten raw) xs)"
| "flatten raw (T_Opaque seeds) = encode_SensitiveSeeds raw seeds"

named_theorems dart_simps \<open>reading and flattening the trees of the converted types\<close>

lemma tree_lib_simps [dart_simps]:
  "dart_bool tree_lib = T_Bool" "dart_i32 tree_lib = T_I32" "dart_u16 tree_lib = T_U16"
  "dart_u32 tree_lib = T_U32" "dart_u64 tree_lib = T_U64" "dart_i64 tree_lib = T_I64"
  "dart_usize tree_lib = T_Usize" "dart_string tree_lib = T_String"
  "dart_strings tree_lib = T_Strings" "dart_option tree_lib = T_Option"
  "dart_vec tree_lib = T_Vec" "dart_array tree_lib = T_Array" "dart_opaque tree_lib = T_Opaque"
  by (simp_all add: tree_lib_def)

section \<open>The contract of a converted type\<close>

locale dart_codec =
  fixes to_tree :: "'a \<Rightarrow> dart_tree"
    and to_dart :: "'d dart_lib \<Rightarrow> 'a \<Rightarrow> 'd"
    and encode :: "'a \<Rightarrow> u8 list"
    and raw :: "rstring list \<Rightarrow> usize \<times> i32"
  assumes to_dart_tree: "read_tree D (to_tree x) = to_dart D x"
    and flatten_tree: "flatten raw (to_tree x) = encode x"
begin

text \<open>
  Equal Dart objects of a runtime that keeps trees apart are the objects of one value, when the
  bytes tell values apart.
\<close>

lemma to_dart_inject:
  assumes "inj (read_tree D)" "to_dart D x = to_dart D y"
  shows "encode x = encode y"
  using assms by (metis flatten_tree injD to_dart_tree)

end

text \<open>Options and vectors of converted types: the conversion of the items goes inside.\<close>

lemmas shape_simps = option.map_comp comp_def encode_option_def encode_vec_def

definition into_dart_SensitiveSeeds :: "'d dart_lib \<Rightarrow> rstring list \<Rightarrow> 'd" where
  "into_dart_SensitiveSeeds D seeds = dart_opaque D seeds"

interpretation d_SensitiveSeeds: dart_codec "into_dart_SensitiveSeeds tree_lib" into_dart_SensitiveSeeds
  "encode_SensitiveSeeds raw" raw for raw
  by unfold_locales (simp_all add: into_dart_SensitiveSeeds_def dart_simps)

lemmas SensitiveSeeds_dart [dart_simps] = d_SensitiveSeeds.to_dart_tree d_SensitiveSeeds.flatten_tree

section \<open>Options of primitive types\<close>

section \<open>Transactions\<close>

definition into_dart_AccountBalanceDto :: "'d dart_lib \<Rightarrow> AccountBalanceDto \<Rightarrow> 'd" where
  "into_dart_AccountBalanceDto D x = dart_array D
     [dart_u64 D (bal_total x),
      dart_u64 D (bal_unconfirmed x),
      dart_u64 D (bal_locked x),
      dart_u64 D (bal_available x)]"

interpretation d_AccountBalanceDto: dart_codec "into_dart_AccountBalanceDto tree_lib" into_dart_AccountBalanceDto encode_AccountBalanceDto raw for raw
  by unfold_locales (simp_all add: into_dart_AccountBalanceDto_def encode_AccountBalanceDto_def dart_simps)

lemmas AccountBalanceDto_dart [dart_simps] = d_AccountBalanceDto.to_dart_tree d_AccountBalanceDto.flatten_tree

definition into_dart_BlockchainInfoDto :: "'d dart_lib \<Rightarrow> BlockchainInfoDto \<Rightarrow> 'd" where
  "into_dart_BlockchainInfoDto D x = dart_array D
     [dart_u64 D (block_height x),
      dart_string D (block_timestamp x),
      dart_u64 D (confirmations x)]"

interpretation d_BlockchainInfoDto: dart_codec "into_dart_BlockchainInfoDto tree_lib" into_dart_BlockchainInfoDto encode_BlockchainInfoDto raw for raw
  by unfold_locales (simp_all add: into_dart_BlockchainInfoDto_def encode_BlockchainInfoDto_def dart_simps)

lemmas BlockchainInfoDto_dart [dart_simps] = d_BlockchainInfoDto.to_dart_tree d_BlockchainInfoDto.flatten_tree

definition into_dart_CounterpartyInfoDto :: "'d dart_lib \<Rightarrow> CounterpartyInfoDto \<Rightarrow> 'd" where
  "into_dart_CounterpartyInfoDto D x = dart_array D
     [dart_string D (cp_address x),
      dart_string D (cp_address_emoji x)]"

interpretation d_CounterpartyInfoDto: dart_codec "into_dart_CounterpartyInfoDto tree_lib" into_dart_CounterpartyInfoDto encode_CounterpartyInfoDto raw for raw
  by unfold_locales (simp_all add: into_dart_CounterpartyInfoDto_def encode_CounterpartyInfoDto_def dart_simps)

lemmas CounterpartyInfoDto_dart [dart_simps] = d_CounterpartyInfoDto.to_dart_tree d_CounterpartyInfoDto.flatten_tree

definition into_dart_FeeInfoDto :: "'d dart_lib \<Rightarrow> FeeInfoDto \<Rightarrow> 'd" where
  "into_dart_FeeInfoDto D x = dart_array D
     [dart_u64 D (fee_amount x),
      dart_string D (fee_amount_display x)]"

interpretation d_FeeInfoDto: dart_codec "into_dart_FeeInfoDto tree_lib" into_dart_FeeInfoDto encode_FeeInfoDto raw for raw
  by unfold_locales (simp_all add: into_dart_FeeInfoDto_def encode_FeeInfoDto_def dart_simps)

lemmas FeeInfoDto_dart [dart_simps] = d_FeeInfoDto.to_dart_tree d_FeeInfoDto.flatten_tree

definition into_dart_DisplayedTransactionDirection :: "'d dart_lib \<Rightarrow> DisplayedTransactionDirection \<Rightarrow> 'd" where
  "into_dart_DisplayedTransactionDirection D x = dart_i32 D (case x of
       Incoming \<Rightarrow> 0
     | Outgoing \<Rightarrow> 1)"

interpretation d_DisplayedTransactionDirection: dart_codec "into_dart_DisplayedTransactionDirection tree_lib" into_dart_DisplayedTransactionDirection encode_DisplayedTransactionDirection raw for raw
  by unfold_locales (simp_all add: into_dart_DisplayedTransactionDirection_def encode_DisplayedTransactionDirection_def dart_simps)

lemmas DisplayedTransactionDirection_dart [dart_simps] = d_DisplayedTransactionDirection.to_dart_tree d_DisplayedTransactionDirection.flatten_tree

definition into_dart_DisplayedTransactionSource :: "'d dart_lib \<Rightarrow> DisplayedTransactionSource \<Rightarrow> 'd" where
  "into_dart_DisplayedTransactionSource D x = dart_i32 D (case x of
       Transfer \<Rightarrow> 0
     | Coinbase \<Rightarrow> 1
     | OneSided \<Rightarrow> 2
     | Unknown \<Rightarrow> 3)"

interpretation d_DisplayedTransactionSource: dart_codec "into_dart_DisplayedTransactionSource tree_lib" into_dart_DisplayedTransactionSource encode_DisplayedTransactionSource raw for raw
  by unfold_locales (simp_all add: into_dart_DisplayedTransactionSource_def encode_DisplayedTransactionSource_def dart_simps)

lemmas DisplayedTransactionSource_dart [dart_simps] = d_DisplayedTransactionSource.to_dart_tree d_DisplayedTransactionSource.flatten_tree

definition into_dart_DisplayedTransactionStatus :: "'d dart_lib \<Rightarrow> DisplayedTransactionStatus \<Rightarrow> 'd" where
  "into_dart_DisplayedTransactionStatus D x = dart_i32 D (case x of
       Pending \<Rightarrow> 0
     | Unconfirmed \<Rightarrow> 1
     | Confirmed \<Rightarrow> 2
     | Tx_Cancelled \<Rightarrow> 3
     | Reorganized \<Rightarrow> 4
     | Rejected \<Rightarrow> 5
     | Tx_Locked \<Rightarrow> 6)"

interpretation d_DisplayedTransactionStatus: dart_codec "into_dart_DisplayedTransactionStatus tree_lib" into_dart_DisplayedTransactionStatus encode_DisplayedTransactionStatus raw for raw
  by unfold_locales (simp_all add: into_dart_DisplayedTransactionStatus_def encode_DisplayedTransactionStatus_def dart_simps)

lemmas DisplayedTransactionStatus_dart [dart_simps] = d_DisplayedTransactionStatus.to_dart_tree d_DisplayedTransactionStatus.flatten_tree

definition into_dart_DisplayedTransactionDto :: "'d dart_lib \<Rightarrow> DisplayedTransactionDto \<Rightarrow> 'd" where
  "into_dart_DisplayedTransactionDto D x = dart_array D
     [dart_string D (tx_id x),
      into_dart_DisplayedTransactionDirection D (tx_direction x),
      into_dart_DisplayedTransactionSource D (tx_source x),
      into_dart_DisplayedTransactionStatus D (tx_status x),
      dart_u64 D (tx_amount x),
      dart_string D (tx_amount_display x),
      dart_option D (map_option (dart_string D) (tx_message x)),
      dart_option D (map_option (into_dart_CounterpartyInfoDto D) (tx_counterparty x)),
      into_dart_BlockchainInfoDto D (tx_blockchain x),
      dart_option D (map_option (into_dart_FeeInfoDto D) (tx_fee x)),
      dart_strings D (tx_payrefs x)]"

interpretation d_DisplayedTransactionDto: dart_codec "into_dart_DisplayedTransactionDto tree_lib" into_dart_DisplayedTransactionDto encode_DisplayedTransactionDto raw for raw
  by unfold_locales
    (simp_all add: into_dart_DisplayedTransactionDto_def encode_DisplayedTransactionDto_def dart_simps shape_simps
      encode_Option_String_def encode_Option_CounterpartyInfoDto_def encode_Option_FeeInfoDto_def split: option.split)

lemmas DisplayedTransactionDto_dart [dart_simps] = d_DisplayedTransactionDto.to_dart_tree d_DisplayedTransactionDto.flatten_tree

section \<open>Fees and the node\<close>

definition into_dart_FeeEstimate :: "'d dart_lib \<Rightarrow> FeeEstimate \<Rightarrow> 'd" where
  "into_dart_FeeEstimate D x = dart_array D
     [dart_u64 D (estimated_fee x),
      dart_u64 D (total_amount_required x),
      dart_u64 D (fee_per_gram x),
      dart_usize D (input_count x)]"

interpretation d_FeeEstimate: dart_codec "into_dart_FeeEstimate tree_lib" into_dart_FeeEstimate encode_FeeEstimate raw for raw
  by unfold_locales (simp_all add: into_dart_FeeEstimate_def encode_FeeEstimate_def dart_simps)

lemmas FeeEstimate_dart [dart_simps] = d_FeeEstimate.to_dart_tree d_FeeEstimate.flatten_tree

definition into_dart_FeePriority :: "'d dart_lib \<Rightarrow> FeePriority \<Rightarrow> 'd" where
  "into_dart_FeePriority D x = dart_i32 D (case x of
       Slow \<Rightarrow> 0
     | Medium \<Rightarrow> 1
     | Fast \<Rightarrow> 2)"

interpretation d_FeePriority: dart_codec "into_dart_FeePriority tree_lib" into_dart_FeePriority encode_FeePriority raw for raw
  by unfold_locales (simp_all add: into_dart_FeePriority_def encode_FeePriority_def dart_simps)

lemmas FeePriority_dart [dart_simps] = d_FeePriority.to_dart_tree d_FeePriority.flatten_tree

definition into_dart_SendAllFeeEstimate :: "'d dart_lib \<Rightarrow> SendAllFeeEstimate \<Rightarrow> 'd" where
  "into_dart_SendAllFeeEstimate D x = dart_array D
     [dart_u64 D (sa_fee x),
      dart_u64 D (sa_amount_after_fee x),
      dart_usize D (sa_input_count x),
      dart_usize D (sa_skipped_dust x),
      dart_usize D (sa_skipped_over_cap x)]"

interpretation d_SendAllFeeEstimate: dart_codec "into_dart_SendAllFeeEstimate tree_lib" into_dart_SendAllFeeEstimate encode_SendAllFeeEstimate raw for raw
  by unfold_locales (simp_all add: into_dart_SendAllFeeEstimate_def encode_SendAllFeeEstimate_def dart_simps)

lemmas SendAllFeeEstimate_dart [dart_simps] = d_SendAllFeeEstimate.to_dart_tree d_SendAllFeeEstimate.flatten_tree

definition into_dart_TipInfo :: "'d dart_lib \<Rightarrow> TipInfo \<Rightarrow> 'd" where
  "into_dart_TipInfo D x = dart_array D
     [dart_u64 D (ti_best_block_height x),
      dart_string D (ti_best_block_hash x),
      dart_u64 D (ti_pruning_horizon x),
      dart_u64 D (ti_pruned_height x),
      dart_u64 D (ti_timestamp x)]"

interpretation d_TipInfo: dart_codec "into_dart_TipInfo tree_lib" into_dart_TipInfo encode_TipInfo raw for raw
  by unfold_locales (simp_all add: into_dart_TipInfo_def encode_TipInfo_def dart_simps)

lemmas TipInfo_dart [dart_simps] = d_TipInfo.to_dart_tree d_TipInfo.flatten_tree

definition into_dart_TariNetwork :: "'d dart_lib \<Rightarrow> TariNetwork \<Rightarrow> 'd" where
  "into_dart_TariNetwork D x = dart_i32 D (case x of
       MainNet \<Rightarrow> 0
     | StageNet \<Rightarrow> 1
     | NextNet \<Rightarrow> 2
     | LocalNet \<Rightarrow> 3
     | Igor \<Rightarrow> 4
     | Esmeralda \<Rightarrow> 5)"

interpretation d_TariNetwork: dart_codec "into_dart_TariNetwork tree_lib" into_dart_TariNetwork encode_TariNetwork raw for raw
  by unfold_locales (simp_all add: into_dart_TariNetwork_def encode_TariNetwork_def dart_simps)

lemmas TariNetwork_dart [dart_simps] = d_TariNetwork.to_dart_tree d_TariNetwork.flatten_tree

section \<open>Sends\<close>

definition into_dart_SendRecipient :: "'d dart_lib \<Rightarrow> SendRecipient \<Rightarrow> 'd" where
  "into_dart_SendRecipient D x = dart_array D
     [dart_string D (sr_address x),
      dart_u64 D (sr_amount x),
      dart_option D (map_option (dart_string D) (sr_payment_id x))]"

interpretation d_SendRecipient: dart_codec "into_dart_SendRecipient tree_lib" into_dart_SendRecipient encode_SendRecipient raw for raw
  by unfold_locales
    (simp_all add: into_dart_SendRecipient_def encode_SendRecipient_def dart_simps shape_simps
      encode_Option_String_def split: option.split)

lemmas SendRecipient_dart [dart_simps] = d_SendRecipient.to_dart_tree d_SendRecipient.flatten_tree

definition into_dart_MultiSendTransactionDetails :: "'d dart_lib \<Rightarrow> MultiSendTransactionDetails \<Rightarrow> 'd" where
  "into_dart_MultiSendTransactionDetails D x = dart_array D
     [dart_option D (map_option (into_dart_TariNetwork D) (sd_network x)),
      dart_option D (map_option (dart_string D) (sd_base_url x)),
      dart_string D (sd_wallet_name x),
      dart_vec D (map (into_dart_SendRecipient D) (sd_recipients x)),
      dart_bool D (sd_send_all x),
      dart_option D (map_option (dart_u64 D) (sd_confirmation_window x))]"

interpretation d_MultiSendTransactionDetails: dart_codec "into_dart_MultiSendTransactionDetails tree_lib" into_dart_MultiSendTransactionDetails encode_MultiSendTransactionDetails raw for raw
  by unfold_locales
    (simp_all add: into_dart_MultiSendTransactionDetails_def encode_MultiSendTransactionDetails_def dart_simps shape_simps
      encode_Option_TariNetwork_def encode_Option_String_def encode_Vec_SendRecipient_def encode_Option_u64_def split: option.split)

lemmas MultiSendTransactionDetails_dart [dart_simps] = d_MultiSendTransactionDetails.to_dart_tree d_MultiSendTransactionDetails.flatten_tree

definition into_dart_TransactionStage :: "'d dart_lib \<Rightarrow> TransactionStage \<Rightarrow> 'd" where
  "into_dart_TransactionStage D x = dart_i32 D (case x of
       Initializing \<Rightarrow> 0
     | ValidatingInput \<Rightarrow> 1
     | ConnectingToNetwork \<Rightarrow> 2
     | ConstructingTransaction \<Rightarrow> 3
     | SigningKeyGeneration \<Rightarrow> 4
     | SigningTransaction \<Rightarrow> 5
     | Broadcasting \<Rightarrow> 6
     | Broadcasted \<Rightarrow> 7)"

interpretation d_TransactionStage: dart_codec "into_dart_TransactionStage tree_lib" into_dart_TransactionStage encode_TransactionStage raw for raw
  by unfold_locales (simp_all add: into_dart_TransactionStage_def encode_TransactionStage_def dart_simps)

lemmas TransactionStage_dart [dart_simps] = d_TransactionStage.to_dart_tree d_TransactionStage.flatten_tree

definition into_dart_SendTransactionEvent :: "'d dart_lib \<Rightarrow> SendTransactionEvent \<Rightarrow> 'd" where
  "into_dart_SendTransactionEvent D x = dart_array D
     [into_dart_TransactionStage D (stage x),
      dart_string D (details x)]"

interpretation d_SendTransactionEvent: dart_codec "into_dart_SendTransactionEvent tree_lib" into_dart_SendTransactionEvent encode_SendTransactionEvent raw for raw
  by unfold_locales (simp_all add: into_dart_SendTransactionEvent_def encode_SendTransactionEvent_def dart_simps)

lemmas SendTransactionEvent_dart [dart_simps] = d_SendTransactionEvent.to_dart_tree d_SendTransactionEvent.flatten_tree

definition into_dart_SendResultDto :: "'d dart_lib \<Rightarrow> SendResultDto \<Rightarrow> 'd" where
  "into_dart_SendResultDto D x = dart_array D
     [into_dart_DisplayedTransactionDto D (sent_transaction x),
      dart_bool D (sent_accepted_by_node x),
      dart_option D (map_option (dart_string D) (sent_note x)),
      dart_option D (map_option (dart_string D) (sent_node_reason x))]"

interpretation d_SendResultDto: dart_codec "into_dart_SendResultDto tree_lib" into_dart_SendResultDto encode_SendResultDto raw for raw
  by unfold_locales
    (simp_all add: into_dart_SendResultDto_def encode_SendResultDto_def dart_simps shape_simps
      encode_Option_String_def split: option.split)

lemmas SendResultDto_dart [dart_simps] = d_SendResultDto.to_dart_tree d_SendResultDto.flatten_tree

section \<open>The logger\<close>

definition into_dart_LogLevel :: "'d dart_lib \<Rightarrow> LogLevel \<Rightarrow> 'd" where
  "into_dart_LogLevel D x = dart_i32 D (case x of
       Log_Error \<Rightarrow> 0
     | Log_Warn \<Rightarrow> 1
     | Log_Info \<Rightarrow> 2
     | Log_Debug \<Rightarrow> 3
     | Log_Trace \<Rightarrow> 4
     | Log_Off \<Rightarrow> 5)"

interpretation d_LogLevel: dart_codec "into_dart_LogLevel tree_lib" into_dart_LogLevel encode_LogLevel raw for raw
  by unfold_locales (simp_all add: into_dart_LogLevel_def encode_LogLevel_def dart_simps)

lemmas LogLevel_dart [dart_simps] = d_LogLevel.to_dart_tree d_LogLevel.flatten_tree

definition into_dart_LogModuleConfig :: "'d dart_lib \<Rightarrow> LogModuleConfig \<Rightarrow> 'd" where
  "into_dart_LogModuleConfig D x = dart_array D
     [dart_string D (lm_target x),
      into_dart_LogLevel D (lm_level x)]"

interpretation d_LogModuleConfig: dart_codec "into_dart_LogModuleConfig tree_lib" into_dart_LogModuleConfig encode_LogModuleConfig raw for raw
  by unfold_locales (simp_all add: into_dart_LogModuleConfig_def encode_LogModuleConfig_def dart_simps)

lemmas LogModuleConfig_dart [dart_simps] = d_LogModuleConfig.to_dart_tree d_LogModuleConfig.flatten_tree

definition into_dart_LoggerConfig :: "'d dart_lib \<Rightarrow> LoggerConfig \<Rightarrow> 'd" where
  "into_dart_LoggerConfig D x = dart_array D
     [into_dart_LogLevel D (lc_default_level x),
      dart_vec D (map (into_dart_LogModuleConfig D) (lc_module_levels x)),
      dart_u64 D (lc_max_file_size_mb x),
      dart_usize D (lc_max_files x)]"

interpretation d_LoggerConfig: dart_codec "into_dart_LoggerConfig tree_lib" into_dart_LoggerConfig encode_LoggerConfig raw for raw
  by unfold_locales
    (simp_all add: into_dart_LoggerConfig_def encode_LoggerConfig_def dart_simps shape_simps
      encode_Vec_LogModuleConfig_def split: option.split)

lemmas LoggerConfig_dart [dart_simps] = d_LoggerConfig.to_dart_tree d_LoggerConfig.flatten_tree

section \<open>Scans\<close>

definition into_dart_ScanPriority :: "'d dart_lib \<Rightarrow> ScanPriority \<Rightarrow> 'd" where
  "into_dart_ScanPriority D x = dart_i32 D (case x of
       Foreground \<Rightarrow> 0
     | Background \<Rightarrow> 1)"

interpretation d_ScanPriority: dart_codec "into_dart_ScanPriority tree_lib" into_dart_ScanPriority encode_ScanPriority raw for raw
  by unfold_locales (simp_all add: into_dart_ScanPriority_def encode_ScanPriority_def dart_simps)

lemmas ScanPriority_dart [dart_simps] = d_ScanPriority.to_dart_tree d_ScanPriority.flatten_tree

definition into_dart_ScanHandle :: "'d dart_lib \<Rightarrow> ScanHandle \<Rightarrow> 'd" where
  "into_dart_ScanHandle D x = dart_array D
     [dart_string D (handle_wallet x),
      dart_u64 D (handle_id x)]"

interpretation d_ScanHandle: dart_codec "into_dart_ScanHandle tree_lib" into_dart_ScanHandle encode_ScanHandle raw for raw
  by unfold_locales (simp_all add: into_dart_ScanHandle_def encode_ScanHandle_def dart_simps)

lemmas ScanHandle_dart [dart_simps] = d_ScanHandle.to_dart_tree d_ScanHandle.flatten_tree

definition into_dart_ScanConfiguration :: "'d dart_lib \<Rightarrow> ScanConfiguration \<Rightarrow> 'd" where
  "into_dart_ScanConfiguration D x = dart_array D
     [dart_string D (cfg_wallet_name x),
      dart_string D (cfg_base_url x),
      dart_u64 D (cfg_batch_size x),
      dart_bool D (cfg_continuous x),
      dart_u64 D (cfg_poll_interval_seconds x),
      dart_u64 D (cfg_required_confirmations x),
      into_dart_ScanPriority D (cfg_priority x),
      dart_option D (map_option (dart_u32 D) (cfg_processing_threads x)),
      dart_option D (map_option (dart_u32 D) (cfg_event_buffer x)),
      dart_option D (map_option (dart_u64 D) (cfg_deadline_seconds x)),
      dart_option D (map_option (dart_u64 D) (cfg_max_blocks x))]"

interpretation d_ScanConfiguration: dart_codec "into_dart_ScanConfiguration tree_lib" into_dart_ScanConfiguration encode_ScanConfiguration raw for raw
  by unfold_locales
    (simp_all add: into_dart_ScanConfiguration_def encode_ScanConfiguration_def dart_simps shape_simps
      encode_Option_u32_def encode_Option_u64_def split: option.split)

lemmas ScanConfiguration_dart [dart_simps] = d_ScanConfiguration.to_dart_tree d_ScanConfiguration.flatten_tree

definition into_dart_TransactionsReadyDto :: "'d dart_lib \<Rightarrow> TransactionsReadyDto \<Rightarrow> 'd" where
  "into_dart_TransactionsReadyDto D x = dart_array D
     [dart_i64 D (tr_account_id x),
      dart_vec D (map (into_dart_DisplayedTransactionDto D) (tr_transactions x)),
      dart_option D (map_option (dart_u64 D) (tr_block_height x)),
      dart_bool D (tr_is_initial_sync x)]"

interpretation d_TransactionsReadyDto: dart_codec "into_dart_TransactionsReadyDto tree_lib" into_dart_TransactionsReadyDto encode_TransactionsReadyDto raw for raw
  by unfold_locales
    (simp_all add: into_dart_TransactionsReadyDto_def encode_TransactionsReadyDto_def dart_simps shape_simps
      encode_Vec_DisplayedTransactionDto_def encode_Option_u64_def split: option.split)

lemmas TransactionsReadyDto_dart [dart_simps] = d_TransactionsReadyDto.to_dart_tree d_TransactionsReadyDto.flatten_tree

definition into_dart_TransactionsUpdatedDto :: "'d dart_lib \<Rightarrow> TransactionsUpdatedDto \<Rightarrow> 'd" where
  "into_dart_TransactionsUpdatedDto D x = dart_array D
     [dart_i64 D (tu_account_id x),
      dart_vec D (map (into_dart_DisplayedTransactionDto D) (tu_updated_transactions x))]"

interpretation d_TransactionsUpdatedDto: dart_codec "into_dart_TransactionsUpdatedDto tree_lib" into_dart_TransactionsUpdatedDto encode_TransactionsUpdatedDto raw for raw
  by unfold_locales
    (simp_all add: into_dart_TransactionsUpdatedDto_def encode_TransactionsUpdatedDto_def dart_simps shape_simps
      encode_Vec_DisplayedTransactionDto_def split: option.split)

lemmas TransactionsUpdatedDto_dart [dart_simps] = d_TransactionsUpdatedDto.to_dart_tree d_TransactionsUpdatedDto.flatten_tree

definition into_dart_ReorgDetectedDto :: "'d dart_lib \<Rightarrow> ReorgDetectedDto \<Rightarrow> 'd" where
  "into_dart_ReorgDetectedDto D x = dart_array D
     [dart_i64 D (rd_account_id x),
      dart_u64 D (rd_reorg_from_height x),
      dart_u64 D (rd_new_height x),
      dart_u64 D (rd_blocks_rolled_back x),
      dart_strings D (rd_cancelled_transaction_ids x),
      dart_vec D (map (into_dart_DisplayedTransactionDto D) (rd_reorganized_transactions x))]"

interpretation d_ReorgDetectedDto: dart_codec "into_dart_ReorgDetectedDto tree_lib" into_dart_ReorgDetectedDto encode_ReorgDetectedDto raw for raw
  by unfold_locales
    (simp_all add: into_dart_ReorgDetectedDto_def encode_ReorgDetectedDto_def dart_simps shape_simps
      encode_Vec_DisplayedTransactionDto_def split: option.split)

lemmas ReorgDetectedDto_dart [dart_simps] = d_ReorgDetectedDto.to_dart_tree d_ReorgDetectedDto.flatten_tree

section \<open>Wallets\<close>

definition into_dart_WalletCreationDetails :: "'d dart_lib \<Rightarrow> WalletCreationDetails \<Rightarrow> 'd" where
  "into_dart_WalletCreationDetails D x = dart_array D
     [dart_string D (tari_address x),
      dart_u16 D (wallet_birthday x),
      dart_string D (spend_public_key_hex x),
      dart_string D (view_private_key_hex x),
      dart_option D (map_option (into_dart_SensitiveSeeds D) (seed_words x))]"

interpretation d_WalletCreationDetails: dart_codec "into_dart_WalletCreationDetails tree_lib" into_dart_WalletCreationDetails "encode_WalletCreationDetails raw" raw for raw
  by unfold_locales
    (simp_all add: into_dart_WalletCreationDetails_def encode_WalletCreationDetails_def dart_simps shape_simps
      encode_Option_SensitiveSeeds_def split: option.split)

lemmas WalletCreationDetails_dart [dart_simps] = d_WalletCreationDetails.to_dart_tree d_WalletCreationDetails.flatten_tree

section \<open>The events of a scan\<close>

fun into_dart_ScanEventDto :: "'d dart_lib \<Rightarrow> ScanEventDto \<Rightarrow> 'd" where
  "into_dart_ScanEventDto D (Started account from) =
     dart_array D [dart_i32 D 0, dart_i64 D account, dart_u64 D from]"
| "into_dart_ScanEventDto D (Progress account current tip scanned) =
     dart_array D [dart_i32 D 1, dart_i64 D account, dart_u64 D current, dart_u64 D tip, dart_u64 D scanned]"
| "into_dart_ScanEventDto D (Completed account final_height scanned) =
     dart_array D [dart_i32 D 2, dart_i64 D account, dart_u64 D final_height, dart_u64 D scanned]"
| "into_dart_ScanEventDto D (Waiting_Event account resume) =
     dart_array D [dart_i32 D 3, dart_i64 D account, dart_u64 D resume]"
| "into_dart_ScanEventDto D (MoreBlocksAvailable account last_scanned) =
     dart_array D [dart_i32 D 4, dart_i64 D account, dart_u64 D last_scanned]"
| "into_dart_ScanEventDto D (TransactionsReady x) = dart_array D [dart_i32 D 5, into_dart_TransactionsReadyDto D x]"
| "into_dart_ScanEventDto D (TransactionsUpdated x) = dart_array D [dart_i32 D 6, into_dart_TransactionsUpdatedDto D x]"
| "into_dart_ScanEventDto D (ReorgDetected x) = dart_array D [dart_i32 D 7, into_dart_ReorgDetectedDto D x]"
| "into_dart_ScanEventDto D Cancelled = dart_array D [dart_i32 D 8]"
| "into_dart_ScanEventDto D Superseded = dart_array D [dart_i32 D 9]"
| "into_dart_ScanEventDto D (BudgetExhausted account last_scanned tip) =
     dart_array D [dart_i32 D 10, dart_i64 D account, dart_u64 D last_scanned, dart_u64 D tip]"
| "into_dart_ScanEventDto D (Error message) = dart_array D [dart_i32 D 11, dart_string D message]"

interpretation d_ScanEventDto: dart_codec "into_dart_ScanEventDto tree_lib" into_dart_ScanEventDto encode_ScanEventDto raw for raw
proof
  fix D :: "'d dart_lib" and x :: ScanEventDto
  show "read_tree D (into_dart_ScanEventDto tree_lib x) = into_dart_ScanEventDto D x"
    by (cases x) (simp_all add: dart_simps)
next
  fix x
  show "flatten raw (into_dart_ScanEventDto tree_lib x) = encode_ScanEventDto x"
    by (cases x) (simp_all add: dart_simps)
qed

section \<open>One tree, two forms\<close>

text \<open>
  C32 (equivalence): the two codecs of the bridge agree. The Dart object and the bytes of a value
  are two readings of one tree: the same fields in the same order and the same number for each
  variant, for the events of a scan, the configuration of a scan, the details and the result of
  a send, the details of a new wallet and the configuration of the logger, on whatever runtime.
\<close>

theorem dart_objects_agree_with_bytes:
  "read_tree D (into_dart_ScanEventDto tree_lib event) = into_dart_ScanEventDto D event \<and>
   flatten raw (into_dart_ScanEventDto tree_lib event) = encode_ScanEventDto event \<and>
   read_tree D (into_dart_ScanConfiguration tree_lib config) = into_dart_ScanConfiguration D config \<and>
   flatten raw (into_dart_ScanConfiguration tree_lib config) = encode_ScanConfiguration config \<and>
   read_tree D (into_dart_MultiSendTransactionDetails tree_lib request) = into_dart_MultiSendTransactionDetails D request \<and>
   flatten raw (into_dart_MultiSendTransactionDetails tree_lib request) = encode_MultiSendTransactionDetails request \<and>
   read_tree D (into_dart_SendTransactionEvent tree_lib progress) = into_dart_SendTransactionEvent D progress \<and>
   flatten raw (into_dart_SendTransactionEvent tree_lib progress) = encode_SendTransactionEvent progress \<and>
   read_tree D (into_dart_SendResultDto tree_lib outcome) = into_dart_SendResultDto D outcome \<and>
   flatten raw (into_dart_SendResultDto tree_lib outcome) = encode_SendResultDto outcome \<and>
   read_tree D (into_dart_WalletCreationDetails tree_lib created) = into_dart_WalletCreationDetails D created \<and>
   flatten raw (into_dart_WalletCreationDetails tree_lib created) = encode_WalletCreationDetails raw created \<and>
   read_tree D (into_dart_LoggerConfig tree_lib logging) = into_dart_LoggerConfig D logging \<and>
   flatten raw (into_dart_LoggerConfig tree_lib logging) = encode_LoggerConfig logging"
  by (intro conjI; rule d_ScanEventDto.to_dart_tree d_ScanEventDto.flatten_tree
      d_ScanConfiguration.to_dart_tree d_ScanConfiguration.flatten_tree
      d_MultiSendTransactionDetails.to_dart_tree d_MultiSendTransactionDetails.flatten_tree
      d_SendTransactionEvent.to_dart_tree d_SendTransactionEvent.flatten_tree
      d_SendResultDto.to_dart_tree d_SendResultDto.flatten_tree
      d_WalletCreationDetails.to_dart_tree d_WalletCreationDetails.flatten_tree
      d_LoggerConfig.to_dart_tree d_LoggerConfig.flatten_tree)

end
