(* ===== verification/Bridge_Runtime.thy ===== *)
theory Bridge_Runtime
  imports Config
begin

text \<open>
  The handler that runs the bridge's calls (\<open>src/api/bridge_runtime.rs\<close>): a thread pool and an
  async runtime of fixed sizes, built when it is first used. A runtime library of another version
  than the generated code, and a runtime that cannot be built, panic. The libraries that build
  the two are arguments.
\<close>

definition FLUTTER_RUST_BRIDGE_CODEGEN_VERSION :: rstring where
  "FLUTTER_RUST_BRIDGE_CODEGEN_VERSION = lit ''2.11.1''"

record pool_settings =
  num_threads :: usize
  pool_thread_name :: rstring

record runtime_settings =
  worker_threads :: usize
  runtime_thread_name :: rstring
  all_enabled :: bool

datatype ('pool, 'rt) handler = Handler 'pool 'rt | Handler_Panic rstring

definition FLUTTER_RUST_BRIDGE_HANDLER ::
  "rstring \<Rightarrow> (pool_settings \<Rightarrow> 'pool) \<Rightarrow> (runtime_settings \<Rightarrow> rstring + 'rt) \<Rightarrow> ('pool, 'rt) handler" where
  "FLUTTER_RUST_BRIDGE_HANDLER runtime_version build_pool build_runtime =
     (if FLUTTER_RUST_BRIDGE_CODEGEN_VERSION \<noteq> runtime_version then
        Handler_Panic (lit ''Please ensure flutter_rust_bridge's codegen ('' @ FLUTTER_RUST_BRIDGE_CODEGEN_VERSION @
          lit '') and runtime ('' @ runtime_version @ lit '') versions are the same'')
      else
        let thread_pool = build_pool \<lparr>num_threads = BRIDGE_THREAD_POOL_SIZE, pool_thread_name = lit ''cw-tari-pool''\<rparr>
        in (case build_runtime \<lparr>worker_threads = BRIDGE_ASYNC_WORKER_THREADS,
                runtime_thread_name = BRIDGE_ASYNC_THREAD_NAME, all_enabled = True\<rparr> of
              Inl _ \<Rightarrow> Handler_Panic (lit ''failed to build the bridge tokio runtime'')
            | Inr runtime \<Rightarrow> Handler thread_pool runtime))"

text \<open>
  A handler that was built has the versions checked and the two small pools: two threads for
  blocking calls, two workers for async ones.
\<close>

lemma handler_built:
  "FLUTTER_RUST_BRIDGE_HANDLER v build_pool build_runtime = Handler pool rt \<longleftrightarrow>
     v = lit ''2.11.1'' \<and>
     pool = build_pool \<lparr>num_threads = 2, pool_thread_name = lit ''cw-tari-pool''\<rparr> \<and>
     build_runtime \<lparr>worker_threads = 2, runtime_thread_name = lit ''cw-tari-rt'', all_enabled = True\<rparr> = Inr rt"
  by (auto simp: FLUTTER_RUST_BRIDGE_HANDLER_def FLUTTER_RUST_BRIDGE_CODEGEN_VERSION_def Let_def
      BRIDGE_THREAD_POOL_SIZE_def BRIDGE_ASYNC_WORKER_THREADS_def BRIDGE_ASYNC_THREAD_NAME_def
      split: sum.splits)

end
