(* ===== verification/Fixture.thy ===== *)
theory Fixture
  imports Wallet_Api Base_Node Codec
begin

text \<open>
  The fixtures of the end-to-end checks (\<open>verify/src/fixture.rs\<close>): a view-only wallet database
  with known history, spendable outputs for a wallet of the tests, and the recorded answers of a
  base node. What minotari, tari and the file system do is an argument; a failed \<open>expect\<close> is an
  error of its own, since it ends the program. Then what the read calls of the API return on
  these fixtures.
\<close>

section \<open>What the libraries provide\<close>

text \<open>A row of the balance history, and a stored transaction with the fields the API leaves out.\<close>

record 't BalanceChange =
  bc_account_id :: i64
  bc_caused_by_output_id :: "i64 option"
  bc_caused_by_input_id :: "i64 option"
  bc_description :: rstring
  bc_balance_credit :: u64
  bc_balance_debit :: u64
  bc_effective_date :: 't
  bc_effective_height :: u64
  bc_claimed_recipient_address :: "rstring option"
  bc_claimed_sender_address :: "rstring option"
  bc_memo_parsed :: "rstring option"
  bc_memo_hex :: "rstring option"
  bc_claimed_fee :: "u64 option"
  bc_claimed_amount :: "u64 option"
  bc_is_reversal :: bool
  bc_reversal_of_balance_change_id :: "i64 option"
  bc_is_reversed :: bool

record ('i, 'h, 't, 'addr) StoredTransaction = "('i, 'h, 't, 'addr) DisplayedTransaction" +
  st_block_hash :: "u8 list"
  st_account_id :: i64
  st_total_credit :: u64
  st_total_debit :: u64
  st_inputs :: "'h list"
  st_outputs :: "'h list"
  st_output_type :: "rstring option"
  st_coinbase_extra :: "rstring option"
  st_memo_hex :: "rstring option"
  st_sent_output_hashes :: "'h list"
  st_lock_height :: u64

text \<open>
  The file system; a temporary directory is removed when its owner is dropped. \<open>'sk\<close> is a secret scalar, \<open>'km\<close> a key manager, \<open>'vk\<close> a view key and \<open>'out\<close> a wallet output;
  \<open>chain_metadata_new\<close> takes the accumulated difficulty as a number.
\<close>

record 'w fs_lib =
  fs_remove_file :: "rstring \<Rightarrow> 'w \<Rightarrow> (rstring + unit) \<times> 'w"
  fs_create_dir_all :: "rstring \<Rightarrow> 'w \<Rightarrow> (rstring + unit) \<times> 'w"
  fs_write :: "rstring \<Rightarrow> rstring \<Rightarrow> 'w \<Rightarrow> (rstring + unit) \<times> 'w"
  fs_read_to_string :: "rstring \<Rightarrow> 'w \<Rightarrow> rstring + rstring"
  fs_tempdir :: "'w \<Rightarrow> (rstring + rstring) \<times> 'w"
  fs_drop_tempdir :: "rstring \<Rightarrow> 'w \<Rightarrow> 'w"

record ('w, 'c, 'a, 'i, 'h, 't, 'addr, 'sk, 'km, 'vk, 'out) fixture_lib = "'w fs_lib" +
  secret_from_canonical_bytes :: "u8 list \<Rightarrow> 'sk option"
  secret_public_hex :: "'sk \<Rightarrow> rstring"
  naive_utc :: "i64 \<Rightarrow> 't option"
  tx_id_from :: "u64 \<Rightarrow> 'i"
  insert_balance_change :: "'c \<Rightarrow> 't BalanceChange \<Rightarrow> 'w \<Rightarrow> (rstring + unit) \<times> 'w"
  insert_displayed_transaction ::
    "'c \<Rightarrow> ('i, 'h, 't, 'addr) StoredTransaction \<Rightarrow> 'w \<Rightarrow> (rstring + unit) \<times> 'w"
  insert_scanned_tip_block :: "'c \<Rightarrow> i64 \<Rightarrow> i64 \<Rightarrow> u8 list \<Rightarrow> 'w \<Rightarrow> (rstring + unit) \<times> 'w"
  account_key_manager :: "'a \<Rightarrow> rstring \<Rightarrow> rstring + 'km"
  key_manager_view_key :: "'km \<Rightarrow> 'vk"
  create_test_input :: "u64 \<Rightarrow> u64 \<Rightarrow> 'km \<Rightarrow> u8 list \<Rightarrow> 'w \<Rightarrow> 'out \<times> 'w"
  output_hash :: "'out \<Rightarrow> u8 list"
  insert_output ::
    "'c \<Rightarrow> i64 \<Rightarrow> 'vk \<Rightarrow> u8 list \<Rightarrow> 'out \<Rightarrow> u64 \<Rightarrow> u8 list \<Rightarrow> u64 \<Rightarrow> rstring option \<Rightarrow> rstring option \<Rightarrow>
       u8 list \<Rightarrow> bool \<Rightarrow> 'w \<Rightarrow> (rstring + unit) \<times> 'w"
  mark_output_confirmed :: "'c \<Rightarrow> u8 list \<Rightarrow> u64 \<Rightarrow> u8 list \<Rightarrow> 'w \<Rightarrow> (rstring + unit) \<times> 'w"
  chain_metadata_new ::
    "u64 \<Rightarrow> u8 list \<Rightarrow> u64 \<Rightarrow> u64 \<Rightarrow> nat \<Rightarrow> u64 \<Rightarrow> rstring + ChainMetadata"
  tip_info_json :: "TipInfoResponse \<Rightarrow> rstring + rstring"

datatype harness_error = Failed_With api_error | Panicked rstring

type_synonym ('w, 'r) harness = "('w, harness_error, 'r) proc"

text \<open>A call of a library, with \<open>context\<close> and with a plain \<open>?\<close>; \<open>expect\<close>; \<open>Option::context\<close>.\<close>

definition call_context :: "rstring \<Rightarrow> ('w \<Rightarrow> (rstring + 'r) \<times> 'w) \<Rightarrow> ('w, 'r) harness" where
  "call_context msg f = map_err_proc (\<lambda>e. Failed_With (Context msg (Upstream e))) f"

definition call_plain :: "('w \<Rightarrow> (rstring + 'r) \<times> 'w) \<Rightarrow> ('w, 'r) harness" where
  "call_plain f = map_err_proc (\<lambda>e. Failed_With (Upstream e)) f"

definition ask :: "('w \<Rightarrow> 'e + 'r) \<Rightarrow> 'w \<Rightarrow> ('e + 'r) \<times> 'w" where
  "ask f w = (f w, w)"

definition expect :: "rstring \<Rightarrow> 'r option \<Rightarrow> ('w, 'r) harness" where
  "expect msg x = lift_res (ok_or (Panicked msg) x)"

definition option_context :: "rstring \<Rightarrow> 'r option \<Rightarrow> ('w, 'r) harness" where
  "option_context msg x = lift_res (ok_or (Failed_With (Anyhow msg)) x)"

text \<open>What goes out of scope when the work fails, and when it ends at all.\<close>

definition on_error :: "('w \<Rightarrow> 'w) \<Rightarrow> ('w, 'e, 'r) proc \<Rightarrow> ('w, 'e, 'r) proc" where
  "on_error cleanup m w = (case m w of (Inl e, w') \<Rightarrow> (Inl e, cleanup w') | (Inr x, w') \<Rightarrow> (Inr x, w'))"

definition finally_do :: "('w \<Rightarrow> 'w) \<Rightarrow> ('w, 'e, 'r) proc \<Rightarrow> ('w, 'e, 'r) proc" where
  "finally_do cleanup m w = (case m w of (r, w') \<Rightarrow> (r, cleanup w'))"

section \<open>The golden values\<close>

definition FIXTURE_NETWORK :: Lib_Network where
  "FIXTURE_NETWORK = Lib_Esmeralda"

definition WALLET_NAME :: rstring where
  "WALLET_NAME = lit ''verify-fixture''"

definition BIRTHDAY :: u16 where
  "BIRTHDAY = 100"

definition VIEW_PRIVATE_KEY_HEX :: rstring where
  "VIEW_PRIVATE_KEY_HEX = lit ''0700000000000000000000000000000000000000000000000000000000000000''"

definition SPEND_SECRET_FIRST_BYTE :: u8 where
  "SPEND_SECRET_FIRST_BYTE = 11"

definition CREDIT_A :: u64 where
  "CREDIT_A = 5000000"

definition CREDIT_B :: u64 where
  "CREDIT_B = 2500000"

definition DEBIT :: u64 where
  "DEBIT = 1000000"

definition GOLDEN_TOTAL :: u64 where
  "GOLDEN_TOTAL = CREDIT_A + CREDIT_B - DEBIT"

definition TX_ID :: u64 where
  "TX_ID = 42"

definition TX_AMOUNT :: u64 where
  "TX_AMOUNT = CREDIT_A"

definition TX_BLOCK_HEIGHT :: u64 where
  "TX_BLOCK_HEIGHT = 12345"

definition TX_CONFIRMATIONS :: u64 where
  "TX_CONFIRMATIONS = 7"

definition TX_TIMESTAMP :: i64 where
  "TX_TIMESTAMP = 1700000000"

definition FUNDED_TIP_HEIGHT :: i64 where
  "FUNDED_TIP_HEIGHT = 200"

text \<open>The hash of 32 zero bytes: \<open>FixedHash::default()\<close> and \<open>FixedHash::zero()\<close>.\<close>

definition zero_hash :: "u8 list" where
  "zero_hash = replicate 32 0"

section \<open>Seeds and hashes\<close>

definition spend_public_key_hex_fixture ::
  "('w, 'c, 'a, 'i, 'h, 't, 'addr, 'sk, 'km, 'vk, 'out, 'z) fixture_lib_scheme \<Rightarrow> ('w, rstring) harness" where
  "spend_public_key_hex_fixture F =
     and_then (expect (lit ''fixed spend-key bytes must be a canonical scalar'')
         (secret_from_canonical_bytes F ((replicate 32 0)[0 := SPEND_SECRET_FIRST_BYTE])))
       (\<lambda>spend_sk. ret (secret_public_hex F spend_sk))"

definition random_seed_words ::
  "('w, 'c, 'a, 'addr, 'seed, 'words, 'wt, 'km, 'pub, 'priv, 'l) wallet_lib_scheme \<Rightarrow>
     ('w, rstring list) harness" where
  "random_seed_words W =
     and_then (\<lambda>w. case random_seed W w of (seed, w') \<Rightarrow> (Inr seed, w')) (\<lambda>seed.
     and_then (expect (lit ''a random cipher seed must produce a valid mnemonic'')
         (case seed_mnemonic W seed of Inl _ \<Rightarrow> None | Inr mnemonic \<Rightarrow> Some mnemonic)) (\<lambda>mnemonic.
     ret (split_whitespace_from [] mnemonic)))"

text \<open>\<open>u64::to_be_bytes\<close>, and the \<open>splice\<close> of its 8 bytes over the first 8 of the hash.\<close>

definition to_be_bytes :: "u64 \<Rightarrow> u8 list" where
  "to_be_bytes n = rev (le_bytes 8 (unat n))"

definition chain_block_hash :: "u64 \<Rightarrow> u8 list" where
  "chain_block_hash height = to_be_bytes height @ drop 8 (replicate 32 0x5A)"

section \<open>Spendable outputs\<close>

definition add_output ::
  "('w, 'c, 'a, 'i, 'h, 't, 'addr, 'sk, 'km, 'vk, 'out, 'z) fixture_lib_scheme \<Rightarrow>
     'c \<Rightarrow> i64 \<Rightarrow> 'km \<Rightarrow> u64 \<Rightarrow> ('w, unit) harness" where
  "add_output F conn account key_manager amount =
     and_then (\<lambda>w. case create_test_input F amount 0 key_manager [] w of (out, w') \<Rightarrow> (Inr out, w'))
       (\<lambda>out.
     and_then (call_plain (insert_output F conn account (key_manager_view_key F key_manager)
         (output_hash F out) out 10 zero_hash 1700000000 None None zero_hash False)) (\<lambda>_.
     call_plain (mark_output_confirmed F conn (output_hash F out) 13 (replicate 32 0))))"

primrec add_outputs ::
  "('w, 'c, 'a, 'i, 'h, 't, 'addr, 'sk, 'km, 'vk, 'out, 'z) fixture_lib_scheme \<Rightarrow>
     'c \<Rightarrow> i64 \<Rightarrow> 'km \<Rightarrow> u64 list \<Rightarrow> ('w, unit) harness" where
  "add_outputs F conn account key_manager [] = ret ()"
| "add_outputs F conn account key_manager (amount # amounts) =
     and_then (add_output F conn account key_manager amount) (\<lambda>_.
     add_outputs F conn account key_manager amounts)"

definition add_spendable_outputs ::
  "('w, 'c, 'a, 'i, 'h, 't, 'addr, 'sk, 'km, 'vk, 'out, 'z) fixture_lib_scheme \<Rightarrow>
     ('w, 'c, 'a, 'l) accounts_lib_scheme \<Rightarrow> ('w, 'p, 'c, 'a, 'm) minotari_scheme \<Rightarrow>
     rstring \<Rightarrow> rstring \<Rightarrow> rstring \<Rightarrow> u64 list \<Rightarrow> ('w, unit) harness" where
  "add_spendable_outputs F L M path wallet_name passphrase amounts =
     and_then (call_context (lit ''Failed to open DB pool'') (init_db M path)) (\<lambda>pool.
     and_then (call_context (lit ''Failed to get DB connection'') (ask (pool_get M pool))) (\<lambda>conn.
     and_then (map_err_proc (\<lambda>e. Failed_With (Upstream (db_text e)))
         (ask (get_account_by_name M conn wallet_name))) (\<lambda>found.
     and_then (option_context (lit ''wallet not found'') found) (\<lambda>account.
     and_then (lift_res (map_err (\<lambda>e. Failed_With (Upstream e)) (account_key_manager F account passphrase)))
       (\<lambda>key_manager.
     and_then (call_plain (insert_scanned_tip_block F conn (account_id L account) FUNDED_TIP_HEIGHT
         (chain_block_hash FUNDED_TIP_HEIGHT))) (\<lambda>_.
     add_outputs F conn (account_id L account) key_manager amounts))))))"

section \<open>The fixture database\<close>

primrec remove_all ::
  "('w, 'c, 'a, 'i, 'h, 't, 'addr, 'sk, 'km, 'vk, 'out, 'z) fixture_lib_scheme \<Rightarrow>
     rstring list \<Rightarrow> 'w \<Rightarrow> 'w" where
  "remove_all F [] w = w"
| "remove_all F (p # ps) w = remove_all F ps (snd (fs_remove_file F p w))"

definition remove_db_files ::
  "('w, 'c, 'a, 'i, 'h, 't, 'addr, 'sk, 'km, 'vk, 'out, 'z) fixture_lib_scheme \<Rightarrow> rstring \<Rightarrow> 'w \<Rightarrow> 'w" where
  "remove_db_files F path = remove_all F (map (\<lambda>suffix. path @ suffix) [[], lit ''-wal'', lit ''-shm''])"

definition naive ::
  "('w, 'c, 'a, 'i, 'h, 't, 'addr, 'sk, 'km, 'vk, 'out, 'z) fixture_lib_scheme \<Rightarrow> i64 \<Rightarrow> ('w, 't) harness" where
  "naive F ts = expect (lit ''fixed fixture timestamp must be valid'') (naive_utc F ts)"

definition credit_row :: "i64 \<Rightarrow> u64 \<Rightarrow> u64 \<Rightarrow> 't \<Rightarrow> 't BalanceChange" where
  "credit_row account amount height date =
     \<lparr>bc_account_id = account, bc_caused_by_output_id = None, bc_caused_by_input_id = None,
      bc_description = lit ''fixture credit'', bc_balance_credit = amount, bc_balance_debit = 0,
      bc_effective_date = date, bc_effective_height = height,
      bc_claimed_recipient_address = None, bc_claimed_sender_address = None,
      bc_memo_parsed = None, bc_memo_hex = None, bc_claimed_fee = None,
      bc_claimed_amount = Some amount, bc_is_reversal = False,
      bc_reversal_of_balance_change_id = None, bc_is_reversed = False\<rparr>"

definition debit_row :: "i64 \<Rightarrow> u64 \<Rightarrow> u64 \<Rightarrow> 't \<Rightarrow> 't BalanceChange" where
  "debit_row account amount height date =
     \<lparr>bc_account_id = account, bc_caused_by_output_id = None, bc_caused_by_input_id = None,
      bc_description = lit ''fixture debit'', bc_balance_credit = 0, bc_balance_debit = amount,
      bc_effective_date = date, bc_effective_height = height,
      bc_claimed_recipient_address = None, bc_claimed_sender_address = None,
      bc_memo_parsed = None, bc_memo_hex = None, bc_claimed_fee = None,
      bc_claimed_amount = Some amount, bc_is_reversal = False,
      bc_reversal_of_balance_change_id = None, bc_is_reversed = False\<rparr>"

definition golden_transaction :: "'i \<Rightarrow> i64 \<Rightarrow> 't \<Rightarrow> ('i, 'h, 't, 'addr) StoredTransaction" where
  "golden_transaction tx account date =
     \<lparr>dt_id = tx, dt_direction = Lib_Incoming, dt_source = Lib_Coinbase, dt_status = Lib_Confirmed,
      dt_amount = TX_AMOUNT, dt_message = Some (lit ''fixture coinbase''), dt_counterparty = None,
      dt_blockchain = \<lparr>bi_block_height = TX_BLOCK_HEIGHT, bi_timestamp = date,
        bi_confirmations = TX_CONFIRMATIONS\<rparr>,
      dt_fee = None, dt_sent_payrefs = [],
      st_block_hash = zero_hash, st_account_id = account, st_total_credit = TX_AMOUNT,
      st_total_debit = 0, st_inputs = [], st_outputs = [], st_output_type = None,
      st_coinbase_extra = None, st_memo_hex = None, st_sent_output_hashes = [],
      st_lock_height = 0\<rparr>"

definition insert_credit ::
  "('w, 'c, 'a, 'i, 'h, 't, 'addr, 'sk, 'km, 'vk, 'out, 'z) fixture_lib_scheme \<Rightarrow>
     'c \<Rightarrow> i64 \<Rightarrow> u64 \<Rightarrow> u64 \<Rightarrow> ('w, unit) harness" where
  "insert_credit F conn account amount height =
     and_then (naive F TX_TIMESTAMP) (\<lambda>date.
     call_context (lit ''Failed to insert fixture credit'')
       (insert_balance_change F conn (credit_row account amount height date)))"

definition insert_debit ::
  "('w, 'c, 'a, 'i, 'h, 't, 'addr, 'sk, 'km, 'vk, 'out, 'z) fixture_lib_scheme \<Rightarrow>
     'c \<Rightarrow> i64 \<Rightarrow> u64 \<Rightarrow> u64 \<Rightarrow> ('w, unit) harness" where
  "insert_debit F conn account amount height =
     and_then (naive F TX_TIMESTAMP) (\<lambda>date.
     call_context (lit ''Failed to insert fixture debit'')
       (insert_balance_change F conn (debit_row account amount height date)))"

definition insert_golden_transaction ::
  "('w, 'c, 'a, 'i, 'h, 't, 'addr, 'sk, 'km, 'vk, 'out, 'z) fixture_lib_scheme \<Rightarrow>
     'c \<Rightarrow> i64 \<Rightarrow> ('w, unit) harness" where
  "insert_golden_transaction F conn account =
     and_then (naive F TX_TIMESTAMP) (\<lambda>date.
     call_context (lit ''Failed to insert golden transaction'')
       (insert_displayed_transaction F conn (golden_transaction (tx_id_from F TX_ID) account date)))"

text \<open>The history rows of \<open>build_fixture_db\<close>, once the account is known.\<close>

definition seed_history ::
  "('w, 'c, 'a, 'i, 'h, 't, 'addr, 'sk, 'km, 'vk, 'out, 'z) fixture_lib_scheme \<Rightarrow>
     'c \<Rightarrow> i64 \<Rightarrow> ('w, unit) harness" where
  "seed_history F conn account =
     and_then (insert_credit F conn account CREDIT_A 10) (\<lambda>_.
     and_then (insert_credit F conn account CREDIT_B 20) (\<lambda>_.
     and_then (insert_debit F conn account DEBIT 30) (\<lambda>_.
     insert_golden_transaction F conn account)))"

definition build_fixture_db ::
  "('w, 'c, 'a, 'i, 'h, 't, 'addr, 'sk, 'km, 'vk, 'out, 'z) fixture_lib_scheme \<Rightarrow>
     ('w, 'c, 'a, 'addr, 'seed, 'words, 'wt, 'wkm, 'pub, 'priv, 'x) wallet_lib_scheme \<Rightarrow>
     ('w, 'c, 'a, 'l) accounts_lib_scheme \<Rightarrow> ('w, 'p, 'c, 'a, 'm) minotari_scheme \<Rightarrow>
     rstring \<Rightarrow> ('w, unit) harness" where
  "build_fixture_db F W L M path =
     and_then (modify (remove_db_files F path)) (\<lambda>_.
     and_then (spend_public_key_hex_fixture F) (\<lambda>spend_hex.
     and_then (call_context (lit ''Failed to create view-only fixture account'')
         (init_with_view_key W VIEW_PRIVATE_KEY_HEX spend_hex [] path BIRTHDAY (Some WALLET_NAME))) (\<lambda>_.
     and_then (call_context (lit ''Failed to open fixture DB pool'') (init_db M path)) (\<lambda>pool.
     and_then (call_context (lit ''Failed to get fixture DB connection'') (ask (pool_get M pool))) (\<lambda>conn.
     and_then (call_context (lit ''Failed to look up fixture account'')
         (ask (get_accounts L conn (Some WALLET_NAME)))) (\<lambda>accounts.
     and_then (option_context (lit ''fixture account was not created'')
         (case accounts of [] \<Rightarrow> None | a # _ \<Rightarrow> Some (account_id L a))) (\<lambda>account.
     seed_history F conn account)))))))"

text \<open>\<open>Path::join\<close> with a relative file name.\<close>

definition path_join :: "rstring \<Rightarrow> rstring \<Rightarrow> rstring" where
  "path_join base file = (if base = [] \<or> last base = 47 then base @ file else base @ [47] @ file)"

definition materialize_fixture_db ::
  "('w, 'c, 'a, 'i, 'h, 't, 'addr, 'sk, 'km, 'vk, 'out, 'z) fixture_lib_scheme \<Rightarrow>
     ('w, 'c, 'a, 'addr, 'seed, 'words, 'wt, 'wkm, 'pub, 'priv, 'x) wallet_lib_scheme \<Rightarrow>
     ('w, 'c, 'a, 'l) accounts_lib_scheme \<Rightarrow> ('w, 'p, 'c, 'a, 'm) minotari_scheme \<Rightarrow>
     ('w, rstring \<times> rstring) harness" where
  "materialize_fixture_db F W L M =
     and_then (call_context (lit ''Failed to create temp dir for fixture'') (fs_tempdir F)) (\<lambda>dir.
     and_then (on_error (fs_drop_tempdir F dir) (build_fixture_db F W L M (path_join dir (lit ''wallet.db'')))) (\<lambda>_.
     ret (dir, path_join dir (lit ''wallet.db''))))"

section \<open>Recorded answers of a node\<close>

definition TIP_HEIGHT :: u64 where
  "TIP_HEIGHT = 250000"

definition PRUNING_HORIZON :: u64 where
  "PRUNING_HORIZON = 0"

definition PRUNED_HEIGHT :: u64 where
  "PRUNED_HEIGHT = 0"

definition TIP_TIMESTAMP :: u64 where
  "TIP_TIMESTAMP = 1700500000"

definition BEST_BLOCK_HASH_FIRST_BYTE :: u8 where
  "BEST_BLOCK_HASH_FIRST_BYTE = 0xAB"

definition SYNCED_FILE :: rstring where
  "SYNCED_FILE = lit ''get_tip_info_synced.json''"

definition UNSYNCED_FILE :: rstring where
  "UNSYNCED_FILE = lit ''get_tip_info_unsynced.json''"

definition tip_info_response ::
  "('w, 'c, 'a, 'i, 'h, 't, 'addr, 'sk, 'km, 'vk, 'out, 'z) fixture_lib_scheme \<Rightarrow> bool \<Rightarrow>
     ('w, TipInfoResponse) harness" where
  "tip_info_response F synced =
     and_then (expect (lit ''fixed chain-metadata values must be valid'')
         (case chain_metadata_new F TIP_HEIGHT ((replicate 32 0)[0 := BEST_BLOCK_HASH_FIRST_BYTE])
             PRUNING_HORIZON PRUNED_HEIGHT 123456789 TIP_TIMESTAMP of
            Inl _ \<Rightarrow> None | Inr m \<Rightarrow> Some m)) (\<lambda>m.
     ret \<lparr>metadata = Some m, is_synced = synced\<rparr>)"

definition record_file ::
  "('w, 'c, 'a, 'i, 'h, 't, 'addr, 'sk, 'km, 'vk, 'out, 'z) fixture_lib_scheme \<Rightarrow>
     rstring \<Rightarrow> rstring \<Rightarrow> bool \<Rightarrow> ('w, unit) harness" where
  "record_file F dir file synced =
     and_then (tip_info_response F synced) (\<lambda>response.
     and_then (lift_res (map_err (\<lambda>e. Failed_With (Upstream e)) (tip_info_json F response))) (\<lambda>json.
     call_plain (fs_write F (path_join dir file) (json @ [10]))))"

definition record_to ::
  "('w, 'c, 'a, 'i, 'h, 't, 'addr, 'sk, 'km, 'vk, 'out, 'z) fixture_lib_scheme \<Rightarrow> rstring \<Rightarrow>
     ('w, unit) harness" where
  "record_to F dir =
     and_then (call_plain (fs_create_dir_all F dir)) (\<lambda>_.
     and_then (record_file F dir SYNCED_FILE True) (\<lambda>_.
     record_file F dir UNSYNCED_FILE False))"

definition read_committed ::
  "('w, 'c, 'a, 'i, 'h, 't, 'addr, 'sk, 'km, 'vk, 'out, 'z) fixture_lib_scheme \<Rightarrow> rstring \<Rightarrow> rstring \<Rightarrow>
     ('w, rstring) harness" where
  "read_committed F manifest_dir file =
     call_plain (ask (fs_read_to_string F
       (path_join (path_join (path_join manifest_dir (lit ''fixtures'')) (lit ''rpc'')) file)))"

section \<open>What the fixtures hold\<close>

text \<open>Hashes of the mock chain are 32 bytes, and tell heights apart.\<close>

lemma chain_block_hash_length: "length (chain_block_hash height) = 32"
  by (simp add: chain_block_hash_def to_be_bytes_def)

lemma chain_block_hash_height: "le_nat (rev (take 8 (chain_block_hash height))) = unat height"
proof -
  have "unat height < 256 ^ 8" using unsigned_less [of height, where ?'a = nat] by simp
  then show ?thesis by (simp add: chain_block_hash_def to_be_bytes_def)
qed

text \<open>
  What building the database relies on: an insert appends its row to the history of balances or
  of transactions, and opening the database changes neither.
\<close>

definition history_laws where
  "history_laws F M rows txs \<longleftrightarrow>
     (\<forall>conn row w w'. insert_balance_change F conn row w = (Inr (), w') \<longrightarrow>
        rows w' = rows w @ [row] \<and> txs w' = txs w) \<and>
     (\<forall>conn tx w w'. insert_displayed_transaction F conn tx w = (Inr (), w') \<longrightarrow>
        txs w' = txs w @ [tx] \<and> rows w' = rows w) \<and>
     (\<forall>p w r w'. init_db M p w = (r, w') \<longrightarrow> rows w' = rows w \<and> txs w' = txs w)"

lemma history_lawsD:
  assumes "history_laws F M rows txs"
  shows "insert_balance_change F conn row w = (Inr (), w') \<Longrightarrow> rows w' = rows w @ [row] \<and> txs w' = txs w"
    and "insert_displayed_transaction F conn tx w = (Inr (), w') \<Longrightarrow> txs w' = txs w @ [tx] \<and> rows w' = rows w"
    and "init_db M p w = (r, w') \<Longrightarrow> rows w' = rows w \<and> txs w' = txs w"
  using assms unfolding history_laws_def by blast+

lemma call_Ok [simp]:
  "call_context msg f w = (Inr x, w') \<longleftrightarrow> f w = (Inr x, w')"
  "call_plain f w = (Inr x, w') \<longleftrightarrow> f w = (Inr x, w')"
  "expect msg v w = (Inr x, w') \<longleftrightarrow> v = Some x \<and> w' = w"
  "option_context msg v w = (Inr x, w') \<longleftrightarrow> v = Some x \<and> w' = w"
  by (auto simp: call_context_def call_plain_def map_err_proc_Ok expect_def option_context_def lift_res_def)

lemma insert_rows_Ok:
  "insert_credit F conn account amount height w = (Inr (), w') \<longleftrightarrow>
     (\<exists>date. naive_utc F TX_TIMESTAMP = Some date \<and>
        insert_balance_change F conn (credit_row account amount height date) w = (Inr (), w'))"
  "insert_debit F conn account amount height w = (Inr (), w') \<longleftrightarrow>
     (\<exists>date. naive_utc F TX_TIMESTAMP = Some date \<and>
        insert_balance_change F conn (debit_row account amount height date) w = (Inr (), w'))"
  "insert_golden_transaction F conn account w = (Inr (), w') \<longleftrightarrow>
     (\<exists>date. naive_utc F TX_TIMESTAMP = Some date \<and>
        insert_displayed_transaction F conn (golden_transaction (tx_id_from F TX_ID) account date) w = (Inr (), w'))"
  by (cases "naive_utc F TX_TIMESTAMP";
      simp add: insert_credit_def insert_debit_def insert_golden_transaction_def naive_def expect_def
        and_then_def lift_res_def)+

lemma seed_history_Ok:
  assumes "history_laws F M rows txs" "seed_history F conn account w = (Inr (), t)"
  shows "\<exists>date. naive_utc F TX_TIMESTAMP = Some date \<and>
    rows t = rows w @ [credit_row account CREDIT_A 10 date, credit_row account CREDIT_B 20 date,
      debit_row account DEBIT 30 date] \<and>
    txs t = txs w @ [golden_transaction (tx_id_from F TX_ID) account date]"
  using assms(2) unfolding seed_history_def
  by (elim and_then_OkE) (auto simp: insert_rows_Ok dest!: history_lawsD [OF assms(1)])

lemma golden_total:
  "unat GOLDEN_TOTAL = 6500000"
  "unat CREDIT_A + unat CREDIT_B = unat DEBIT + unat GOLDEN_TOTAL"
  by (simp_all add: GOLDEN_TOTAL_def CREDIT_A_def CREDIT_B_def DEBIT_def)


text \<open>A store that is just the two histories.\<close>

type_synonym example_store =
  "unit BalanceChange list \<times> (u64, unit, unit, Lib_Network \<times> rstring) StoredTransaction list"

definition example_fixture_lib ::
  "(example_store, unit, unit, u64, unit, unit, Lib_Network \<times> rstring, unit, unit, unit, u64) fixture_lib" where
  "example_fixture_lib =
     \<lparr>fs_remove_file = (\<lambda>_ w. (Inl [], w)), fs_create_dir_all = (\<lambda>_ w. (Inr (), w)),
      fs_write = (\<lambda>_ _ w. (Inr (), w)), fs_read_to_string = (\<lambda>_ _. Inl []), fs_tempdir = (\<lambda>w. (Inr [], w)),
      fs_drop_tempdir = (\<lambda>_ w. w),
      secret_from_canonical_bytes = (\<lambda>_. Some ()), secret_public_hex = (\<lambda>_. []),
      naive_utc = (\<lambda>_. Some ()), tx_id_from = (\<lambda>n. n),
      insert_balance_change = (\<lambda>_ row w. (Inr (), (fst w @ [row], snd w))),
      insert_displayed_transaction = (\<lambda>_ tx w. (Inr (), (fst w, snd w @ [tx]))),
      insert_scanned_tip_block = (\<lambda>_ _ _ _ w. (Inr (), w)), account_key_manager = (\<lambda>_ _. Inr ()),
      key_manager_view_key = (\<lambda>_. ()), create_test_input = (\<lambda>v _ _ _ w. (v, w)), output_hash = (\<lambda>_. []),
      insert_output = (\<lambda>_ _ _ _ _ _ _ _ _ _ _ _ w. (Inr (), w)),
      mark_output_confirmed = (\<lambda>_ _ _ _ w. (Inr (), w)),
      chain_metadata_new = (\<lambda>_ _ _ _ _ _. Inl []), tip_info_json = (\<lambda>_. Inl [])\<rparr>"

definition example_store_minotari :: "(example_store, unit, unit, unit) minotari" where
  "example_store_minotari =
     \<lparr>init_db = (\<lambda>_ w. (Inr (), w)), pool_get = (\<lambda>_ _. Inr ()), session_is_unlocked = (\<lambda>_ _ _. Inr False),
      session_unlock = (\<lambda>_ _ _ w. (Inr (), w)), session_lock = (\<lambda>_ w. w),
      get_account_by_name = (\<lambda>_ _ _. Inr None), verify_passphrase = (\<lambda>_ _. Inr ()),
      find_expired_pending_transactions = (\<lambda>_ _. Inr []),
      expire_and_unlock_pending_transaction = (\<lambda>_ _ w. (Inr False, w)),
      wal_checkpoint_truncate = (\<lambda>_ w. (Inr 0, w))\<rparr>"

definition example_store_accounts :: "('w, unit, unit) accounts_lib" where
  "example_store_accounts =
     \<lparr>get_accounts = (\<lambda>_ _ _. Inr [()]), account_id = (\<lambda>_. 1), friendly_name = (\<lambda>_. WALLET_NAME)\<rparr>"

definition example_store_wallets ::
  "('w, unit, unit, Lib_Network \<times> rstring, unit, unit, unit, unit, unit, unit) wallet_lib" where
  "example_store_wallets =
     \<lparr>random_seed = (\<lambda>w. ((), w)), seed_words_from_str = (\<lambda>_. Inr ()), seed_from_mnemonic = (\<lambda>_. Inr ()),
      seed_birthday = (\<lambda>_. 0), seed_mnemonic = (\<lambda>_. Inr []), seed_words_wallet = (\<lambda>_. Inr ()),
      key_manager_new = (\<lambda>_. Inr ()), private_view_key = (\<lambda>_. ()), spend_pub_key = (\<lambda>_. ()),
      pub_from_secret = (\<lambda>_. ()), pub_hex = (\<lambda>_. []), priv_hex = (\<lambda>_. []), priv_from_hex = (\<lambda>_. Inr ()),
      pub_from_hex = (\<lambda>_. Inr ()), new_dual_address = (\<lambda>_ _ _. Inr (Lib_Esmeralda, [])), public_spend_key = (\<lambda>_. ()),
      init_with_seed_words = (\<lambda>_ _ _ _ w. (Inr (), w)),
      init_with_view_key = (\<lambda>_ _ _ _ _ _ w. (Inr (), w)),
      init_with_spend_and_view_keys = (\<lambda>_ _ _ _ _ _ _ w. (Inr (Lib_Esmeralda, []), w)),
      db_change_passphrase = (\<lambda>_ _ _ _ w. (Inr (), w)), account_seed_words = (\<lambda>_ _. Inr None),
      account_address = (\<lambda>_ _ _ _. Inr (Lib_Esmeralda, [])), delete_wallet_with_conn = (\<lambda>_ _ w. (Inr (), w)),
      rename_wallet_with_conn = (\<lambda>_ _ _ w. (Inr (), w))\<rparr>"


text \<open>
  A node that answers with the recorded response is read as the golden tip, and as synced or not
  as recorded.
\<close>

lemma recorded_node_replays:
  assumes "parse_url N url = Inr u" "client_new N u = Inr c" "client_tip_info N c = Inr response"
    and "tip_info_response F synced w = (Inr response, w')"
    and "\<And>h b ph p d ts m. chain_metadata_new F h b ph p d ts = Inr m \<Longrightarrow>
      m = \<lparr>best_block_height = h, best_block_hash = b, pruning_horizon = ph, pruned_height = p, timestamp = ts\<rparr>"
  shows "get_tip_info N url = Inr (Some \<lparr>ti_best_block_height = 250000,
      ti_best_block_hash = to_hex N (0xAB # replicate 31 0), ti_pruning_horizon = 0, ti_pruned_height = 0,
      ti_timestamp = 1700500000\<rparr>)"
    and "is_node_synced N url = Inr synced"
proof -
  from assms(4) obtain m where m: "chain_metadata_new F TIP_HEIGHT ((replicate 32 0)[0 := BEST_BLOCK_HASH_FIRST_BYTE])
      PRUNING_HORIZON PRUNED_HEIGHT 123456789 TIP_TIMESTAMP = Inr m"
    and response: "response = \<lparr>metadata = Some m, is_synced = synced\<rparr>"
    unfolding tip_info_response_def
    by (elim and_then_OkE) (auto simp: ret_def split: sum.splits)
  have "replicate 32 (0 :: u8) = 0 # replicate 31 0" by (simp add: numeral_eq_Suc)
  with assms(5) [OF m] response assms(1-3)
  show "get_tip_info N url = Inr (Some \<lparr>ti_best_block_height = 250000,
      ti_best_block_hash = to_hex N (0xAB # replicate 31 0), ti_pruning_horizon = 0, ti_pruned_height = 0,
      ti_timestamp = 1700500000\<rparr>)" "is_node_synced N url = Inr synced"
    by (simp_all add: get_tip_info_def is_node_synced_def fetch_tip_info_def tip_info_from_def
        TIP_HEIGHT_def PRUNING_HORIZON_def PRUNED_HEIGHT_def TIP_TIMESTAMP_def BEST_BLOCK_HASH_FIRST_BYTE_def)
qed

end
