(* ===== verification/Live_Check.thy ===== *)
theory Live_Check
  imports Fixture Scanner
begin

text \<open>
  The end-to-end checker (\<open>verify/src/main.rs\<close>): its commands and exit codes, and the live
  scenario, which drives the functions of the API one after the other as an app does: read the
  node, restore a wallet, unlock it, scan to the tip, read the balance and the transactions, and
  lock. Its state is the state of the bridge and the lines printed so far.
\<close>

section \<open>Lines, exit codes and the environment\<close>

datatype output_line = Stdout rstring | Stderr rstring

datatype exit_code = Exit_Success | Exit_Failure | Exit_Panic

type_synonym ('w, 'p) checker = "('w, 'p) bridge \<times> output_line list"

type_synonym ('w, 'p, 'r) check = "(('w, 'p) checker, harness_error, 'r) proc"

definition say :: "output_line \<Rightarrow> ('w, 'p, unit) check" where
  "say line = modify (\<lambda>(s, out). (s, out @ [line]))"

text \<open>A step of the fixtures, and a call of the API with and without \<open>context\<close>.\<close>

definition on_store :: "('w, 'r) harness \<Rightarrow> ('w, 'p, 'r) check" where
  "on_store m st = (case st of (s, out) \<Rightarrow> (case m (world s) of (r, w) \<Rightarrow> (r, (s\<lparr>world := w\<rparr>, out))))"

definition api_call :: "(api_error \<Rightarrow> api_error) \<Rightarrow> ('w, 'p, 'r) bridge_api \<Rightarrow> ('w, 'p, 'r) check" where
  "api_call wrap m st =
     (case st of (s, out) \<Rightarrow> (case m s of (r, s') \<Rightarrow> (map_err (\<lambda>e. Failed_With (wrap e)) r, (s', out))))"

definition api_result :: "(api_error \<Rightarrow> api_error) \<Rightarrow> api_error + 'r \<Rightarrow> ('w, 'p, 'r) check" where
  "api_result wrap r = lift_res (map_err (\<lambda>e. Failed_With (wrap e)) r)"

definition bail :: "rstring \<Rightarrow> ('w, 'p, 'r) check" where
  "bail msg = fail (Failed_With (Anyhow msg))"

text \<open>\<open>{}\<close> of a \<open>usize\<close>, and \<open>str::parse::<usize>\<close>: an optional plus sign, then digits, in range.\<close>

definition parse_usize :: "rstring \<Rightarrow> usize option" where
  "parse_usize s =
     (let digits = (case s of [] \<Rightarrow> [] | c # cs \<Rightarrow> if c = 43 \<and> cs \<noteq> [] then cs else s) in
      if digits \<noteq> [] \<and> list_all is_digit digits \<and> parse_base 10 digits < 2 ^ 64
      then Some (of_nat (parse_base 10 digits)) else None)"

record check_env =
  env_base_url :: rstring
  env_seed_words :: "rstring list"
  env_passphrase :: rstring
  env_wallet_name :: rstring
  env_min_tx_count :: usize

text \<open>\<open>std::env::var\<close> is \<open>getenv\<close>, whose error is the text of its \<open>VarError\<close>.\<close>

definition read_env :: "(rstring \<Rightarrow> rstring + rstring) \<Rightarrow> api_error + check_env" where
  "read_env getenv =
     res_then (map_err (\<lambda>e. Context (lit ''VERIFY_BASE_URL must be set for Tier C'') (Upstream e))
         (getenv (lit ''VERIFY_BASE_URL''))) (\<lambda>base_url.
     res_then (map_err (\<lambda>e. Context (lit ''VERIFY_SEED_WORDS must be set for Tier C'') (Upstream e))
         (getenv (lit ''VERIFY_SEED_WORDS''))) (\<lambda>seeds.
     let passphrase = (case getenv (lit ''VERIFY_PASSPHRASE'') of Inl _ \<Rightarrow> [] | Inr p \<Rightarrow> p);
         wallet_name = (case getenv (lit ''VERIFY_WALLET_NAME'') of
            Inl _ \<Rightarrow> lit ''tier-c-smoke'' | Inr n \<Rightarrow> n);
         min_tx_count = (case getenv (lit ''VERIFY_MIN_TX_COUNT'') of
            Inl _ \<Rightarrow> 0
          | Inr s \<Rightarrow> (case parse_usize s of None \<Rightarrow> 0 | Some n \<Rightarrow> n))
     in Inr \<lparr>env_base_url = base_url, env_seed_words = split_whitespace_from [] seeds,
          env_passphrase = passphrase, env_wallet_name = wallet_name, env_min_tx_count = min_tx_count\<rparr>))"

section \<open>The live scenario\<close>

text \<open>The configuration of its one scan, and the flag its callback sets.\<close>

definition live_scan_config :: "check_env \<Rightarrow> ScanConfiguration" where
  "live_scan_config e =
     \<lparr>cfg_wallet_name = env_wallet_name e, cfg_base_url = env_base_url e, cfg_batch_size = 100,
      cfg_continuous = False, cfg_poll_interval_seconds = 5, cfg_required_confirmations = 3,
      cfg_priority = Foreground, cfg_processing_threads = None, cfg_event_buffer = None,
      cfg_deadline_seconds = None, cfg_max_blocks = None\<rparr>"

fun is_completed :: "ScanEventDto \<Rightarrow> bool" where
  "is_completed (Completed account final_height scanned) = True"
| "is_completed _ = False"

definition live_scan where
  "live_scan env S L M tx debug e handle st =
     (case st of (s, out) \<Rightarrow>
        (case start_scan_with_handler env S L M tx debug handle (live_scan_config e) (\<lambda>_ _. True) s of
           ((events, r), s') \<Rightarrow>
             (map_err (\<lambda>x. Failed_With (Context (lit ''scan failed'') x))
                (case r of Inl x \<Rightarrow> Inl x | Inr _ \<Rightarrow> Inr events), (s', out))))"

text \<open>Step 1: the node is reachable and synced.\<close>

definition check_node where
  "check_node Nd e =
     and_then (api_result (Context (lit ''get_tip_info failed'')) (get_tip_info Nd (env_base_url e))) (\<lambda>tip.
     and_then (option_context (lit ''node reported no chain metadata'') (map_option ti_best_block_height tip))
       (\<lambda>height.
     and_then (say (Stdout (lit ''Tier C: tip height = '' @ format_dec (unat height)))) (\<lambda>_.
     and_then (api_result (\<lambda>x. x) (is_node_synced Nd (env_base_url e))) (\<lambda>synced.
     if \<not> synced then bail (lit ''base node is not synced; skipping live scenario'') else ret ()))))"

text \<open>Step 2: the wallet is restored into a fresh database, listed and unlocked.\<close>

definition restore_and_unlock where
  "restore_and_unlock env A W N L M debug_strings e dir =
     (let path = path_join dir (lit ''wallet.db'') in
      and_then (api_call (\<lambda>x. x) (set_database_path path)) (\<lambda>_.
      and_then (api_call (Context (lit ''restore_wallet failed''))
          (restore_wallet A W N (env_wallet_name e) (env_seed_words e) (env_passphrase e) (Some Esmeralda)))
        (\<lambda>_.
      and_then (api_call (\<lambda>x. x) (list_wallets L M)) (\<lambda>wallets.
      if \<not> list_ex (\<lambda>w. w = env_wallet_name e) wallets
      then bail (lit ''restored wallet not listed: '' @ debug_strings wallets)
      else api_call (Context (lit ''unlock_wallet failed''))
        (unlock_wallet env M path (env_wallet_name e) (env_passphrase e))))))"

text \<open>Steps 3 and 4: scan, read back, lock, and the floor on the transactions.\<close>

definition scan_and_read where
  "scan_and_read env A S L M tx debug e =
     and_then (api_call (\<lambda>x. x) (create_scan_handle (env_wallet_name e))) (\<lambda>handle.
     and_then (live_scan env S L M tx debug e handle) (\<lambda>events.
     if \<not> list_ex is_completed events
     then and_then (api_call (\<lambda>x. x) (lock_wallet env M (env_wallet_name e))) (\<lambda>_.
       bail (lit ''scan finished without a Completed status event''))
     else
       and_then (api_call (\<lambda>x. x) (get_balance L M (env_wallet_name e))) (\<lambda>balance.
       and_then (say (Stdout (lit ''Tier C: total balance = '' @ format_dec (unat (bal_total balance)) @
         32 # 0xB5 # lit ''T''))) (\<lambda>_.
       and_then (api_call (\<lambda>x. x) (get_transactions A L M (env_wallet_name e) 1000 0)) (\<lambda>txs.
       and_then (say (Stdout (lit ''Tier C: tx count = '' @ format_dec (length txs)))) (\<lambda>_.
       and_then (api_call (\<lambda>x. x) (lock_wallet env M (env_wallet_name e))) (\<lambda>_.
       if length txs < unat (env_min_tx_count e)
       then bail (lit ''tx count '' @ format_dec (length txs) @ lit '' below required floor '' @
         format_dec (unat (env_min_tx_count e)))
       else ret ())))))))"

definition scenario_restore_scan_assert where
  "scenario_restore_scan_assert env F A W N L M S tx Nd debug debug_strings e =
     and_then (check_node Nd e) (\<lambda>_.
     and_then (on_store (call_plain (fs_tempdir F))) (\<lambda>dir.
     finally_do (\<lambda>(s, out). (s\<lparr>world := fs_drop_tempdir F dir (world s)\<rparr>, out))
       (and_then (restore_and_unlock env A W N L M debug_strings e dir) (\<lambda>_.
        scan_and_read env A S L M tx debug e))))"

text \<open>\<open>live::run\<close>: \<open>runtime\<close> is what building the tokio runtime gives.\<close>

definition live_run where
  "live_run env F A W N L M S tx Nd debug debug_strings getenv runtime =
     and_then (api_result (\<lambda>x. x) (read_env getenv)) (\<lambda>e.
     and_then (lift_res (map_err (\<lambda>x. Failed_With (Upstream x)) (runtime :: rstring + unit))) (\<lambda>_.
     scenario_restore_scan_assert env F A W N L M S tx Nd debug debug_strings e))"

section \<open>Commands\<close>

text \<open>The exit code of a run that ends with a message; \<open>alt\<close> is \<open>{:#}\<close> of an error.\<close>

definition conclude ::
  "(api_error \<Rightarrow> rstring) \<Rightarrow> rstring \<Rightarrow> output_line list \<Rightarrow> ('w, 'p, unit) check \<Rightarrow>
     ('w, 'p) checker \<Rightarrow> exit_code \<times> ('w, 'p) checker" where
  "conclude alt failed passed m st =
     (case m st of
        (Inr _, (s, out)) \<Rightarrow> (Exit_Success, (s, out @ passed))
      | (Inl (Failed_With e), (s, out)) \<Rightarrow> (Exit_Failure, (s, out @ [Stderr (failed @ alt e)]))
      | (Inl (Panicked msg), (s, out)) \<Rightarrow> (Exit_Panic, (s, out @ [Stderr msg])))"

definition run_live where
  "run_live env F A W N L M S tx Nd debug debug_strings getenv runtime alt =
     conclude alt (lit ''Tier C: FAILED: '') [Stdout (lit ''Tier C: all live scenarios passed.'')]
       (live_run env F A W N L M S tx Nd debug debug_strings getenv runtime)"

text \<open>Without the feature \<open>live-e2e\<close>.\<close>

definition join_lines :: "rstring list \<Rightarrow> rstring" where
  "join_lines ls = (case ls of [] \<Rightarrow> [] | l # rest \<Rightarrow> l @ concat (map (\<lambda>l. 10 # l) rest))"

definition run_live_not_built :: "('w, 'p) checker \<Rightarrow> exit_code \<times> ('w, 'p) checker" where
  "run_live_not_built st =
     (case st of (s, out) \<Rightarrow> (Exit_Failure, (s, out @ [Stderr (join_lines
        [lit ''Tier C (live-testnet smoke) is not built in.'',
         lit ''Rebuild with `--features live-e2e` to enable it. It is opt-in and gated on'',
         lit ''purpose: it needs a live esmeralda node and a CI-secret test wallet, so it'',
         lit ''must never run on PRs (nightly schedule only).''])])))"

definition usage :: rstring where
  "usage = join_lines
     [lit ''verify '' @ 0x2014 # lit '' end-to-end verification harness'', [],
      lit ''USAGE:'',
      lit ''  cargo run -p verify -- record-fixtures   Rebuild the committed Tier A DB + Tier B RPC captures'',
      lit ''  cargo run -p verify -- gen-fixture       Alias of record-fixtures'',
      lit ''  cargo run -p verify -- live              Run Tier C live-testnet smoke (requires --features live-e2e)'',
      [],
      lit ''Tiers A and B run via `cargo test -p verify` (hermetic, every PR).'',
      lit ''Tier C is opt-in and gated: build with `--features live-e2e` and provide'',
      lit ''VERIFY_BASE_URL, VERIFY_SEED_WORDS, VERIFY_PASSPHRASE via env/CI secrets.'']"

definition record_fixtures where
  "record_fixtures F W L M manifest_dir =
     (let fixtures = path_join manifest_dir (lit ''fixtures'');
          path = path_join fixtures (lit ''wallet.db'');
          rpc_dir = path_join fixtures (lit ''rpc'') in
      and_then (on_store (call_plain (fs_create_dir_all F fixtures))) (\<lambda>_.
      and_then (on_store (build_fixture_db F W L M path)) (\<lambda>_.
      and_then (say (Stdout (lit ''Tier A fixture DB written to '' @ path))) (\<lambda>_.
      and_then (on_store (record_to F rpc_dir)) (\<lambda>_.
      say (Stdout (lit ''Tier B RPC captures written to '' @ rpc_dir)))))))"

datatype command = Record | Live | No_Command | Unknown_Command

definition command_of :: "rstring list \<Rightarrow> command" where
  "command_of args =
     (if length args \<le> 1 then No_Command
      else if args ! 1 = lit ''gen-fixture'' \<or> args ! 1 = lit ''record-fixtures'' then Record
      else if args ! 1 = lit ''live'' \<or> args ! 1 = lit ''smoke'' then Live
      else Unknown_Command)"

definition main_verify where
  "main_verify F W L M manifest_dir alt live args st =
     (case command_of args of
        Record \<Rightarrow> conclude alt (lit ''record-fixtures failed: '') [] (record_fixtures F W L M manifest_dir) st
      | Live \<Rightarrow> live st
      | No_Command \<Rightarrow> (Exit_Success, (fst st, snd st @ [Stderr usage]))
      | Unknown_Command \<Rightarrow> (Exit_Failure, (fst st, snd st @ [Stderr usage])))"

section \<open>What a passing check has seen\<close>

lemma check_Ok [simp]:
  "say line st = (Inr (), st') \<longleftrightarrow> st' = (fst st, snd st @ [line])"
  "bail msg st = (Inr x, st') \<longleftrightarrow> False"
  "api_result wrap r st = (Inr x, st') \<longleftrightarrow> r = Inr x \<and> st' = st"
  "api_call wrap m st = (Inr x, st') \<longleftrightarrow> m (fst st) = (Inr x, fst st') \<and> snd st' = snd st"
  by (auto simp: say_def bail_def api_result_def api_call_def modify_def fail_def lift_res_def map_err_def
      split: prod.splits sum.splits)

lemma finally_do_Ok:
  "finally_do cleanup m w = (Inr x, w') \<longleftrightarrow> (\<exists>u. m w = (Inr x, u) \<and> w' = cleanup u)"
  by (auto simp: finally_do_def split: prod.splits)

lemma live_scan_Ok:
  assumes "live_scan env S L M tx debug e handle st = (Inr events, st')"
  shows "start_scan_with_handler env S L M tx debug handle (live_scan_config e) (\<lambda>_ _. True) (fst st) =
    ((events, Inr ()), fst st')"
  using assms by (auto simp: live_scan_def map_err_def split: prod.splits sum.splits)

text \<open>A scan that ends without an error and saw \<open>Completed\<close> ended with it.\<close>

lemma completed_is_last:
  assumes "start_scan_with_handler env S L M tx debug handle config accepts s = ((events, r), t)"
    and "list_ex is_completed events"
  obtains before account final_height scanned where
    "events = before @ [Completed account final_height scanned]" "filter is_terminal before = []"
proof -
  from run_scan_one_terminal [of env S L M tx debug handle config None accepts s] assms(1)
  obtain before last where events: "events = before @ [last]" and quiet: "filter is_terminal before = []"
    by (auto simp: start_scan_with_handler_def)
  have "\<not> is_completed x" if "x \<in> set before" for x
    using quiet that by (cases x) (auto simp: filter_empty_conv)
  with assms(2) events have "is_completed last" by (auto simp: list_ex_iff)
  then show ?thesis using that events quiet by (cases last) auto
qed

lemma scan_and_read_Ok:
  assumes "scan_and_read env A S L M tx debug e st = (Inr (), st')"
  shows "\<exists>handle v v' before account final_height scanned balance x x' txs locked.
    create_scan_handle (env_wallet_name e) (fst st) = (Inr handle, v) \<and>
    start_scan_with_handler env S L M tx debug handle (live_scan_config e) (\<lambda>_ _. True) v =
      ((before @ [Completed account final_height scanned], Inr ()), v') \<and>
    filter is_terminal before = [] \<and>
    get_balance L M (env_wallet_name e) v' = (Inr balance, x) \<and>
    get_transactions A L M (env_wallet_name e) 1000 0 x = (Inr txs, x') \<and>
    unat (env_min_tx_count e) \<le> length txs \<and>
    lock_wallet env M (env_wallet_name e) x' = (Inr locked, fst st')"
proof -
  from assms obtain handle st1 events st2 where
    handle: "create_scan_handle (env_wallet_name e) (fst st) = (Inr handle, fst st1)"
    and scan: "live_scan env S L M tx debug e handle st1 = (Inr events, st2)"
    and completed: "list_ex is_completed events"
    and rest: "(and_then (api_call (\<lambda>x. x) (get_balance L M (env_wallet_name e))) (\<lambda>balance.
       and_then (say (Stdout (lit ''Tier C: total balance = '' @ format_dec (unat (bal_total balance)) @
         32 # 0xB5 # lit ''T''))) (\<lambda>_.
       and_then (api_call (\<lambda>x. x) (get_transactions A L M (env_wallet_name e) 1000 0)) (\<lambda>txs.
       and_then (say (Stdout (lit ''Tier C: tx count = '' @ format_dec (length txs)))) (\<lambda>_.
       and_then (api_call (\<lambda>x. x) (lock_wallet env M (env_wallet_name e))) (\<lambda>_.
       if length txs < unat (env_min_tx_count e)
       then bail (lit ''tx count '' @ format_dec (length txs) @ lit '' below required floor '' @
         format_dec (unat (env_min_tx_count e)))
       else ret ())))))) st2 = (Inr (), st')"
    unfolding scan_and_read_def by (elim and_then_OkE) (auto split: if_splits elim!: and_then_OkE)
  note run = live_scan_Ok [OF scan]
  obtain before account final_height scanned where
    "events = before @ [Completed account final_height scanned]" "filter is_terminal before = []"
    using completed_is_last [OF run completed] by blast
  moreover from rest obtain balance x x' txs locked where
    "get_balance L M (env_wallet_name e) (fst st2) = (Inr balance, x)"
    "get_transactions A L M (env_wallet_name e) 1000 0 x = (Inr txs, x')"
    "unat (env_min_tx_count e) \<le> length txs"
    "lock_wallet env M (env_wallet_name e) x' = (Inr locked, fst st')"
    by (elim and_then_OkE) (auto split: if_splits simp: ret_def)
  ultimately show ?thesis using handle run by blast
qed

lemma restore_and_unlock_Ok:
  assumes "session_laws M has"
    and "restore_and_unlock env A W N L M debug_strings e dir st = (Inr (), st')"
  shows "passphrase_accepted M (env_wallet_name e) (env_passphrase e) \<and>
    has (world (fst st')) (env_wallet_name e) \<and>
    fmlookup (db_sessions (DB_STATE (fst st'))) (env_wallet_name e) \<noteq> None"
proof -
  from assms(2) obtain u where "unlock_wallet env M (path_join dir (lit ''wallet.db'')) (env_wallet_name e)
      (env_passphrase e) u = (Inr (), fst st')"
    unfolding restore_and_unlock_def Let_def
    by (elim and_then_OkE) (auto split: if_splits)
  then show ?thesis by (rule unlock_wallet_Ok [OF assms(1)])
qed

lemma check_node_Ok:
  "check_node Nd e st = (Inr (), st') \<Longrightarrow>
    (\<exists>tip. get_tip_info Nd (env_base_url e) = Inr (Some tip)) \<and> is_node_synced Nd (env_base_url e) = Inr True"
  unfolding check_node_def
  by (elim and_then_OkE) (auto split: if_splits simp: option_context_def lift_res_def)


section \<open>A check that passes\<close>

text \<open>
  A node at height 9, a ledger with one transaction, and a scanner that completes: the check for
  wallet \<open>w\<close> and a floor of one transaction, evaluated step by step.
\<close>

definition example_live_ledger ::
  "(rstring set, unit, unit, unit, unit, unit, Lib_Network \<times> rstring) ledger_lib" where
  "example_live_ledger = example_ledger
     \<lparr>get_wallet_balance := (\<lambda>_ _ _. Inr \<lparr>ab_total = 7, ab_unconfirmed = 0, ab_locked = 0, ab_available = 7\<rparr>)\<rparr>"

definition example_node :: "(unit, unit) node_lib" where
  "example_node =
     \<lparr>parse_url = (\<lambda>_. Inr ()), client_new = (\<lambda>_. Inr ()), client_with_config = (\<lambda>_ _ _. Inr ()),
      client_tip_info = (\<lambda>_. Inr \<lparr>metadata = Some \<lparr>best_block_height = 9, best_block_hash = [],
        pruning_horizon = 0, pruned_height = 0, timestamp = 0\<rparr>, is_synced = True\<rparr>),
      client_is_online = (\<lambda>_. True), to_hex = (\<lambda>_. [])\<rparr>"

definition example_fs :: "rstring set fs_lib" where
  "example_fs =
     \<lparr>fs_remove_file = (\<lambda>_ w. (Inr (), w)), fs_create_dir_all = (\<lambda>_ w. (Inr (), w)),
      fs_write = (\<lambda>_ _ w. (Inr (), w)), fs_read_to_string = (\<lambda>_ _. Inl []),
      fs_tempdir = (\<lambda>w. (Inr (lit ''tmp''), w)), fs_drop_tempdir = (\<lambda>_ w. w)\<rparr>"

definition example_any_network :: "rstring set network_lib" where
  "example_any_network =
     \<lparr>set_network_if_choice_valid = (\<lambda>_ w. (Inr (), w)), get_current_network = (\<lambda>_. None)\<rparr>"

definition example_getenv :: "rstring \<Rightarrow> rstring + rstring" where
  "example_getenv name =
     (if name = lit ''VERIFY_PASSPHRASE'' then Inr (lit ''pw'')
      else if name = lit ''VERIFY_MIN_TX_COUNT'' then Inr (lit ''+1'')
      else Inr (lit ''w''))"

definition example_live_env :: check_env where
  "example_live_env =
     \<lparr>env_base_url = lit ''w'', env_seed_words = [lit ''w''], env_passphrase = lit ''pw'',
      env_wallet_name = lit ''w'', env_min_tx_count = 1\<rparr>"

lemma example_read_env: "read_env example_getenv = Inr example_live_env"
proof -
  have "parse_usize (lit ''+1'') = Some 1"
    by (simp add: parse_usize_def lit_def is_digit_def parse_base_def digit_value_def)
  moreover have "split_whitespace_from [] (lit ''w'') = [lit ''w'']"
    by (simp add: lit_def is_whitespace_def)
  ultimately show ?thesis
    by (simp add: read_env_def example_getenv_def example_live_env_def)
qed

definition example_live_unlocked :: "(rstring set, unit) bridge" where
  "example_live_unlocked = example_unlocked\<lparr>DB_STATE :=
     \<lparr>db_path = Some (lit ''tmp/wallet.db''),
        db_open = Some \<lparr>db_pool = (), db_file = lit ''tmp/wallet.db''\<rparr>,
        db_sessions = fmupd (lit ''w'') \<lparr>sess_count = 1, sess_generation = 0\<rparr> fmempty,
        next_generation = 1\<rparr>\<rparr>"

lemma example_path: "path_join (lit ''tmp'') (lit ''wallet.db'') = lit ''tmp/wallet.db''"
  by (simp add: path_join_def lit_def)

lemma example_check_node:
  "check_node example_node example_live_env (s, out) = (Inr (), (s, out @ [Stdout (lit ''Tier C: tip height = 9'')]))"
proof -
  have "format_dec 9 = lit ''9''" by (simp add: format_dec_def format_base.simps digit_char_def lit_def)
  then show ?thesis
    by (simp add: check_node_def api_result_def get_tip_info_def is_node_synced_def fetch_tip_info_def
        tip_info_from_def example_node_def option_context_def say_def proc_simps lit_def)
qed

definition example_live_pathed :: "(rstring set, unit) bridge" where
  "example_live_pathed = (init_bridge {})\<lparr>DB_STATE := init_DbState\<lparr>db_path := Some (lit ''tmp/wallet.db'')\<rparr>\<rparr>"

lemma example_live_path: "set_database_path (lit ''tmp/wallet.db'') (init_bridge {}) = (Inr (), example_live_pathed)"
  by (simp add: set_database_path_def write_db_state_def init_bridge_def init_DbState_def upd_db_def
      example_live_pathed_def proc_simps)

lemma example_live_connection:
  "get_db_connection example_minotari example_live_pathed = (Inr (), example_live_pathed)"
  by (simp add: get_db_connection_def get_db_pool_def init_pool_def get_conn_def on_world_def
      example_live_pathed_def init_bridge_def init_DbState_def proc_simps)

lemma example_live_restore:
  "\<exists>d. restore_wallet example_address_lib example_store_wallets example_any_network (lit ''w'') ws (lit ''pw'')
     (Some Esmeralda) example_live_pathed = (Inr d, example_live_pathed)"
  by (simp add: restore_wallet_def apply_network_def example_any_network_def parse_network_def on_world_def
      example_store_wallets_def get_db_path_def init_from_seed_def read_db_state_def
      generate_details_from_seed_def key_manager_from_cipher_seed_def build_creation_details_def
      construct_wallet_address_details_def example_live_pathed_def init_bridge_def init_DbState_def proc_simps)

lemma example_live_list:
  "list_wallets example_live_ledger example_minotari example_live_pathed = (Inr [lit ''w''], example_live_pathed)"
  by (simp add: list_wallets_def example_live_connection proc_simps example_live_ledger_def example_ledger_def)

lemma example_live_unlock:
  "unlock_wallet alone example_minotari (lit ''tmp/wallet.db'') (lit ''w'') (lit ''pw'') example_live_pathed =
     (Inr (), example_live_unlocked)"
  by (simp add: unlock_wallet_def unlock_begin_def close_other_pool_def shared_pool_def open_pool_def
      init_pool_def release_expired_reservations_def acquire_session_def hold_gate_def upd_db_def
      unlock_check_def get_conn_def check_and_unlock_def check_is_unlocked_def unlock_session_def
      confirm_still_counted_def still_counted_def session_generation_def on_world_def
      example_live_pathed_def init_bridge_def init_DbState_def write_db_state_def read_db_state_def
      example_live_unlocked_def example_unlocked_def sat_add_def proc_simps)

lemma example_restore_and_unlock:
  "restore_and_unlock alone example_address_lib example_store_wallets example_any_network example_live_ledger
     example_minotari debug_strings example_live_env (lit ''tmp'') (init_bridge {}, out) =
   (Inr (), (example_live_unlocked, out))"
proof -
  obtain d where "restore_wallet example_address_lib example_store_wallets example_any_network (lit ''w'') [lit ''w'']
      (lit ''pw'') (Some Esmeralda) example_live_pathed = (Inr d, example_live_pathed)"
    using example_live_restore by blast
  then show ?thesis
    by (simp add: restore_and_unlock_def Let_def example_path api_call_def example_live_env_def
        example_live_path example_live_list example_live_unlock and_then_def)
qed


definition example_live_handled :: "(rstring set, unit) bridge" where
  "example_live_handled = example_live_unlocked\<lparr>SCAN_ID := 1, SCAN_STATE := init_ScanState\<lparr>issued := {0}\<rparr>\<rparr>"

lemma example_live_handle:
  "create_scan_handle (lit ''w'') example_live_unlocked =
     (Inr \<lparr>handle_wallet = lit ''w'', handle_id = 0\<rparr>, example_live_handled)"
  by (simp add: create_scan_handle_def write_scan_state_def upd_scan_def example_live_handled_def
      example_live_unlocked_def example_unlocked_def init_bridge_def init_ScanState_def proc_simps)

lemma example_live_claim:
  "claim_handle \<lparr>handle_wallet = lit ''w'', handle_id = 0\<rparr> (example_live_handled\<lparr>next_run := Suc 0\<rparr>) =
    (Inr False, example_live_handled\<lparr>next_run := Suc 0, SCAN_STATE := init_ScanState\<lparr>starting := fmupd 0 (lit ''w'') fmempty\<rparr>\<rparr>)"
  by (simp add: claim_handle_def write_scan_state_def upd_scan_def example_live_handled_def Let_def
      example_live_unlocked_def example_unlocked_def init_bridge_def init_ScanState_def proc_simps)


definition live_db :: "(rstring set, unit) bridge \<Rightarrow> bool" where
  "live_db s \<longleftrightarrow> DB_STATE s = DB_STATE example_live_unlocked \<and> \<not> db_poisoned s \<and>
    \<not> scan_poisoned s \<and> world s = {lit ''w''}"

lemma live_db_reads:
  assumes "live_db s"
  shows "get_db_path s = (Inr (lit ''tmp/wallet.db''), s)"
    "get_db_connection example_minotari s = (Inr (), s)"
    "unlocked_account example_minotari () (lit ''w'') s = (Inr (), s)"
    "release_expired_reservations example_minotari () s = s"
  using assms
  by (simp_all add: live_db_def get_db_path_def get_db_connection_def get_db_pool_def get_conn_def
      read_db_state_def unlocked_account_def is_unlocked_def release_expired_reservations_def
      example_live_unlocked_def example_unlocked_def proc_simps)

lemma example_live_config:
  "cfg_wallet_name (live_scan_config example_live_env) = lit ''w''"
  "cfg_priority (live_scan_config example_live_env) = Foreground"
  by (simp_all add: live_scan_config_def example_live_env_def)

lemma example_live_claimed:
  "\<exists>t. claim_and_scan alone example_scanner example_live_ledger example_minotari example_tx (\<lambda>_ _. True) 0
     \<lparr>handle_wallet = lit ''w'', handle_id = 0\<rparr> (live_scan_config example_live_env) None
     (example_live_handled\<lparr>next_run := Suc 0\<rparr>) = (([Started 1 5], Inr (Completed 1 9 4)), t) \<and> live_db t"
proof -
  let ?c = "example_live_handled\<lparr>next_run := Suc 0, SCAN_STATE := init_ScanState\<lparr>starting := fmupd 0 (lit ''w'') fmempty\<rparr>\<rparr>"
  have c: "live_db ?c" "\<not> scan_poisoned ?c" "\<not> maint_poisoned ?c" "cells ?c = {}" 
    by (simp_all add: live_db_def example_live_handled_def example_live_unlocked_def example_unlocked_def init_bridge_def)
  obtain u where slot: "with_maintenance alone (lit ''w'') (enter_slot 0 (lit ''w'')
      \<lparr>ctl_id = 0, ctl_priority = Foreground, ctl_token = Token 0, ctl_superseded = Superseded_Flag 0,
       ctl_stopped = Stopped_Token 0\<rparr>) ?c = (Inr (Some None), u)" "live_db u" "cells u = {}"
    using c by (simp add: with_maintenance_def begin_maintenance_def maintenance_lock_def enter_slot_def
        write_scan_state_def take_slot_def upd_scan_def end_maintenance_def live_db_def init_ScanState_def
        Let_def proc_simps)
  obtain v where v: "scan_in_slot alone example_scanner example_live_ledger example_minotari example_tx (\<lambda>_ _. True)
      (live_scan_config example_live_env) (lit ''tmp/wallet.db'') None (Token 0) (Superseded_Flag 0) u =
      (([Started 1 5], Inr (Completed 1 9 4)), v)" "live_db v"
    using slot(2,3)
    by (simp add: scan_in_slot_def live_db_reads run_scanner_def example_scanner_def on_world_def
        run_forwarder_def forward_event_def is_set_def live_db_def Let_def)
  have "live_db (leave_starting i (clear_scan_if_current w i v))" for i w
    using v(2) by (auto simp: leave_starting_def clear_scan_if_current_def upd_scan_def live_db_def
        split: option.split)
  then show ?thesis
    using c slot v
    by (simp add: claim_and_scan_def example_live_claim before_events_def scan_def live_db_reads
        example_live_config proc_simps)
qed

lemma example_live_scan:
  "\<exists>t. start_scan_with_handler alone example_scanner example_live_ledger example_minotari example_tx debug
     \<lparr>handle_wallet = lit ''w'', handle_id = 0\<rparr> (live_scan_config example_live_env) (\<lambda>_ _. True) example_live_handled =
     (([Started 1 5, Completed 1 9 4], Inr ()), t) \<and> live_db t"
proof -
  from example_live_claimed obtain t where t:
    "claim_and_scan alone example_scanner example_live_ledger example_minotari example_tx (\<lambda>_ _. True) 0
     \<lparr>handle_wallet = lit ''w'', handle_id = 0\<rparr> (live_scan_config example_live_env) None
     (example_live_handled\<lparr>next_run := Suc 0\<rparr>) = (([Started 1 5], Inr (Completed 1 9 4)), t)" "live_db t"
    by blast
  moreover have "next_run example_live_handled = 0"
    by (simp add: example_live_handled_def example_live_unlocked_def example_unlocked_def init_bridge_def)
  moreover have "live_db (set_cell (Stopped_Token 0) t)" using t(2) by (simp add: live_db_def)
  ultimately show ?thesis by (simp add: start_scan_with_handler_def run_scan_def Let_def)
qed


lemma example_live_queries:
  assumes "live_db s"
  shows "get_balance example_live_ledger example_minotari (lit ''w'') s =
      (Inr \<lparr>bal_total = 7, bal_unconfirmed = 0, bal_locked = 0, bal_available = 7\<rparr>, s)"
    "\<exists>tx. get_transactions example_address_lib example_live_ledger example_minotari (lit ''w'') 1000 0 s = (Inr [tx], s)"
  using live_db_reads [OF assms]
  by (simp_all add: get_balance_def get_transactions_def first_account_def example_live_ledger_def
      example_ledger_def account_balance_from_def proc_simps)

lemma example_live_lock:
  assumes "live_db s"
  shows "\<exists>locked t. lock_wallet alone example_minotari (lit ''w'') s = (Inr locked, t)"
  using assms
  by (simp add: lock_wallet_def release_session_def release_one_def write_db_state_def blocking_def
      lock_session_unless_held_async_def lock_session_unless_held_def hold_gate_def
      lock_session_gate_held_def holder_counted_def lock_and_cancel_def stop_wallet_scans_def
      cancel_wallet_scans_def write_scan_state_def live_db_def example_live_unlocked_def sat_sub_def
      Let_def proc_simps split: option.split) blast

lemma example_scan_and_read:
  "\<exists>st. scan_and_read alone example_address_lib example_scanner example_live_ledger example_minotari example_tx
     debug example_live_env (example_live_unlocked, out) = (Inr (), st)"
proof -
  obtain t where scan: "start_scan_with_handler alone example_scanner example_live_ledger example_minotari example_tx
      debug \<lparr>handle_wallet = lit ''w'', handle_id = 0\<rparr> (live_scan_config example_live_env) (\<lambda>_ _. True)
      example_live_handled = (([Started 1 5, Completed 1 9 4], Inr ()), t)" and t: "live_db t"
    using example_live_scan by blast
  obtain tx where txs: "get_transactions example_address_lib example_live_ledger example_minotari (lit ''w'') 1000 0 t
      = (Inr [tx], t)"
    using example_live_queries(2) [OF t] by blast
  obtain locked u where lock: "lock_wallet alone example_minotari (lit ''w'') t = (Inr locked, u)"
    using example_live_lock [OF t] by blast
  have e: "env_wallet_name example_live_env = lit ''w''" "env_min_tx_count example_live_env = 1"
    by (simp_all add: example_live_env_def)
  show ?thesis
    using scan txs lock example_live_queries(1) [OF t] e
    by (simp add: scan_and_read_def api_call_def example_live_handle live_scan_def say_def proc_simps)
qed


end
