(* ===== verification/Tests_Values.thy ===== *)
theory Tests_Values
  imports Wallet_Api Signing Fee Base_Node Height Bridge_Runtime "HOL-Library.Code_Target_Nat"
begin

text \<open>
  The unit tests of the modules that keep no state: each test of the crate is a definition with
  the test's name, what the test asserts on the model, and a lemma that it passes. What a test
  takes from a library is an argument; when a test only passes for a library with a certain
  behaviour, the lemma has that behaviour as its hypothesis, so it says what the test demands of
  the library.
\<close>

section \<open>Errors (\<open>src/api/error.rs\<close>)\<close>

definition display_strings_match_legacy_contract :: bool where
  "display_strings_match_legacy_contract \<longleftrightarrow>
     display NotInitialized = lit ''Database is not initialized'' \<and>
     display NoAccounts = lit ''No accounts found for this wallet'' \<and>
     display (InvalidNetwork (lit ''bitcoin'')) = lit ''Invalid network option: bitcoin'' \<and>
     display (invalid_address (lit ''bad'')) = lit ''Invalid Recipient Address: bad'' \<and>
     display (invalid_seed_words (lit ''oops'')) = lit ''Invalid Seed Words: oops'' \<and>
     display InvalidPassphrase = lit ''Invalid Passphrase'' \<and>
     display (wallet (lit ''Amount must be greater than zero'')) =
       lit ''Wallet Error: Amount must be greater than zero'' \<and>
     display (signing (lit ''boom'')) = lit ''Signing Error: boom'' \<and>
     display (network (lit ''down'')) = lit ''Network Error: down'' \<and>
     display (database (lit ''locked'')) = lit ''Database Error: locked'' \<and>
     display Aborted = lit ''Aborted by User'' \<and>
     display Locked = lit ''Wallet is locked'' \<and>
     display SameName = lit ''The new wallet name is the same as the current one'' \<and>
     display ForegroundScanActive = lit ''A foreground scan of this wallet is already running'' \<and>
     display (internal (lit ''Failed to init wallet'')) = lit ''Failed to init wallet'' \<and>
     display (scan_error (lit ''closed'')) = lit ''Sink error: closed''"

definition boundary_conversion_preserves_display_byte_for_byte :: bool where
  "boundary_conversion_preserves_display_byte_for_byte \<longleftrightarrow>
     list_all (\<lambda>e. let expected = display e; converted = Wallet_Err e in to_string converted = expected)
       [NotInitialized, NoAccounts, InvalidNetwork (lit ''x''), invalid_address (lit ''a''),
        invalid_seed_words (lit ''b''), InvalidPassphrase, wallet (lit ''c''), signing (lit ''d''),
        network (lit ''e''), database (lit ''f''), Aborted, internal (lit ''g''), scan_error (lit ''h'')]"

definition boundary :: "api_error + unit" where
  "boundary =
     res_then (map_err Wallet_Err (Inl (wallet (lit ''Amount must be greater than zero'')) :: wallet_error + unit)) (\<lambda>_. Inr ())"

definition boundary_conversion_propagates_through_question_mark :: bool where
  "boundary_conversion_propagates_through_question_mark \<longleftrightarrow>
     (case boundary of
        Inr _ \<Rightarrow> False
      | Inl e \<Rightarrow> to_string e = lit ''Wallet Error: Amount must be greater than zero'')"

text \<open>
  The derived \<open>Debug\<close> text of an error: the variant's name and its field, quoted. A string is
  quoted character by character; what the standard library does with a character outside
  printable ASCII, other than the escapes with a letter of their own, is the argument \<open>esc\<close>.
\<close>

definition debug_char :: "(rchar \<Rightarrow> rstring) \<Rightarrow> rchar \<Rightarrow> rstring" where
  "debug_char esc c =
     (if c = 0 then [92, 48] else if c = 9 then [92, 116] else if c = 10 then [92, 110]
      else if c = 13 then [92, 114] else if c = 34 \<or> c = 92 then [92, c]
      else if 32 \<le> c \<and> c \<le> 126 then [c] else esc c)"

definition debug_field :: "(rchar \<Rightarrow> rstring) \<Rightarrow> string \<Rightarrow> string \<Rightarrow> rstring \<Rightarrow> rstring" where
  "debug_field esc variant field s =
     lit variant @ lit '' { '' @ lit field @ lit '': '' @ [34] @ concat (map (debug_char esc) s) @ [34] @ lit '' }''"

fun wallet_error_debug :: "(rchar \<Rightarrow> rstring) \<Rightarrow> wallet_error \<Rightarrow> rstring" where
  "wallet_error_debug esc NotInitialized = lit ''NotInitialized''"
| "wallet_error_debug esc NoAccounts = lit ''NoAccounts''"
| "wallet_error_debug esc (InvalidNetwork v) = debug_field esc ''InvalidNetwork'' ''value'' v"
| "wallet_error_debug esc (InvalidAddress d) = debug_field esc ''InvalidAddress'' ''details'' d"
| "wallet_error_debug esc (InvalidSeedWords d) = debug_field esc ''InvalidSeedWords'' ''details'' d"
| "wallet_error_debug esc InvalidPassphrase = lit ''InvalidPassphrase''"
| "wallet_error_debug esc (Wallet d) = debug_field esc ''Wallet'' ''details'' d"
| "wallet_error_debug esc (Signing d) = debug_field esc ''Signing'' ''details'' d"
| "wallet_error_debug esc (Network_Error d) = debug_field esc ''Network'' ''details'' d"
| "wallet_error_debug esc (Database d) = debug_field esc ''Database'' ''details'' d"
| "wallet_error_debug esc Aborted = lit ''Aborted''"
| "wallet_error_debug esc (Scan d) = debug_field esc ''Scan'' ''details'' d"
| "wallet_error_debug esc (Internal d) = debug_field esc ''Internal'' ''details'' d"
| "wallet_error_debug esc Locked = lit ''Locked''"
| "wallet_error_debug esc SameName = lit ''SameName''"
| "wallet_error_debug esc ForegroundScanActive = lit ''ForegroundScanActive''"

definition SECRETS :: "rstring list" where
  "SECRETS =
     [lit ''abandon ability able about above absent absorb abstract'',
      lit ''hunter2-super-secret-passphrase'',
      lit ''deadbeefcafef00d-private-key-material'']"

definition debug_and_display_never_leak_secret_material :: "(rchar \<Rightarrow> rstring) \<Rightarrow> bool" where
  "debug_and_display_never_leak_secret_material esc \<longleftrightarrow>
     list_all (\<lambda>e. list_all (\<lambda>secret. \<not> str_contains (display e) secret \<and> \<not> str_contains (wallet_error_debug esc e) secret) SECRETS)
       [invalid_address (lit ''could not decode base58''), invalid_seed_words (lit ''checksum mismatch''),
        wallet (lit ''construction failed''), signing (lit ''signature failed''),
        network (lit ''connection refused''), database (lit ''disk i/o error''),
        internal (lit ''Failed to init wallet''), scan_error (lit ''sink closed''),
        InvalidPassphrase, NotInitialized, NoAccounts, Aborted] \<and>
     display InvalidPassphrase = lit ''Invalid Passphrase'' \<and>
     \<not> str_contains (wallet_error_debug esc InvalidPassphrase) (SECRETS ! 1)"

lemma error_tests_pass:
  "display_strings_match_legacy_contract"
  "boundary_conversion_preserves_display_byte_for_byte"
  "boundary_conversion_propagates_through_question_mark"
  "debug_and_display_never_leak_secret_material esc"
  by code_simp+

section \<open>Amounts (\<open>src/api/utils.rs\<close>)\<close>

definition sub_one_xtm_is_zero_whole_with_padded_fraction :: bool where
  "sub_one_xtm_is_zero_whole_with_padded_fraction \<longleftrightarrow>
     format_micro_tari 1 = lit ''0.000001 XTM'' \<and>
     format_micro_tari 0 = lit ''0.000000 XTM''"

definition exact_one_xtm :: bool where
  "exact_one_xtm \<longleftrightarrow>
     format_micro_tari 1000000 = lit ''1.000000 XTM''"

definition fractional_zero_padding :: bool where
  "fractional_zero_padding \<longleftrightarrow>
     format_micro_tari 1500000 = lit ''1.500000 XTM''"

definition no_separator_just_below_one_thousand_xtm :: bool where
  "no_separator_just_below_one_thousand_xtm \<longleftrightarrow>
     format_micro_tari 999000000 = lit ''999.000000 XTM'' \<and>
     format_micro_tari 999999999 = lit ''999.999999 XTM''"

definition thousands_separator_boundary :: bool where
  "thousands_separator_boundary \<longleftrightarrow>
     format_micro_tari 1000000000 = lit ''1,000.000000 XTM''"

definition large_value_with_multiple_separators :: bool where
  "large_value_with_multiple_separators \<longleftrightarrow>
     format_micro_tari 1234567000000 = lit ''1,234,567.000000 XTM''"

definition u64_max_does_not_panic_and_matches_computed_string :: bool where
  "u64_max_does_not_panic_and_matches_computed_string \<longleftrightarrow>
     (let v = (- 1 :: u64); whole = v div 1000000; frac = v mod 1000000;
          expected = format_with_thousands_separator whole @ lit ''.'' @
            pad_zero 6 (format_dec (unat frac)) @ lit '' XTM'' in
      format_micro_tari v = expected \<and>
      format_micro_tari v = lit ''18,446,744,073,709.551615 XTM'')"

definition thousands_separator_groups_in_threes :: bool where
  "thousands_separator_groups_in_threes \<longleftrightarrow>
     format_with_thousands_separator 0 = lit ''0'' \<and>
     format_with_thousands_separator 999 = lit ''999'' \<and>
     format_with_thousands_separator 1000 = lit ''1,000'' \<and>
     format_with_thousands_separator 1000000 = lit ''1,000,000'' \<and>
     format_with_thousands_separator 12345 = lit ''12,345''"

lemma amount_tests_pass:
  "sub_one_xtm_is_zero_whole_with_padded_fraction"
  "exact_one_xtm"
  "fractional_zero_padding"
  "no_separator_just_below_one_thousand_xtm"
  "thousands_separator_boundary"
  "large_value_with_multiple_separators"
  "u64_max_does_not_panic_and_matches_computed_string"
  "thousands_separator_groups_in_threes"
  by code_simp+

section \<open>Networks (\<open>src/api/network.rs\<close>)\<close>

definition from_str_accepts_every_canonical_name :: "(rchar \<Rightarrow> rstring) \<Rightarrow> bool" where
  "from_str_accepts_every_canonical_name lower \<longleftrightarrow>
     from_str lower (lit ''mainnet'') = Inr MainNet \<and>
     from_str lower (lit ''stagenet'') = Inr StageNet \<and>
     from_str lower (lit ''nextnet'') = Inr NextNet \<and>
     from_str lower (lit ''localnet'') = Inr LocalNet \<and>
     from_str lower (lit ''igor'') = Inr Igor \<and>
     from_str lower (lit ''esmeralda'') = Inr Esmeralda"

definition from_str_esme_is_alias_for_esmeralda :: "(rchar \<Rightarrow> rstring) \<Rightarrow> bool" where
  "from_str_esme_is_alias_for_esmeralda lower \<longleftrightarrow> from_str lower (lit ''esme'') = Inr Esmeralda"

definition from_str_is_case_insensitive :: "(rchar \<Rightarrow> rstring) \<Rightarrow> bool" where
  "from_str_is_case_insensitive lower \<longleftrightarrow>
     from_str lower (lit ''MainNet'') = Inr MainNet \<and>
     from_str lower (lit ''MAINNET'') = Inr MainNet \<and>
     from_str lower (lit ''EsMe'') = Inr Esmeralda \<and>
     from_str lower (lit ''ESMERALDA'') = Inr Esmeralda"

definition from_str_rejects_unknown_names :: "(rchar \<Rightarrow> rstring) \<Rightarrow> bool" where
  "from_str_rejects_unknown_names lower \<longleftrightarrow>
     \<not> is_ok (from_str lower []) \<and> \<not> is_ok (from_str lower (lit ''bitcoin'')) \<and>
     \<not> is_ok (from_str lower (lit ''main net''))"

definition from_str_error_message_is_stable_after_wallet_error_migration :: "(rchar \<Rightarrow> rstring) \<Rightarrow> bool" where
  "from_str_error_message_is_stable_after_wallet_error_migration lower \<longleftrightarrow>
     map_err to_string (from_str lower (lit ''bitcoin'')) = Inl (lit ''Invalid network option: bitcoin'')"

definition tari_network_maps_to_lib_network_exhaustively :: bool where
  "tari_network_maps_to_lib_network_exhaustively \<longleftrightarrow>
     network_from_tari MainNet = Lib_MainNet \<and> network_from_tari StageNet = Lib_StageNet \<and>
     network_from_tari NextNet = Lib_NextNet \<and> network_from_tari LocalNet = Lib_LocalNet \<and>
     network_from_tari Igor = Lib_Igor \<and> network_from_tari Esmeralda = Lib_Esmeralda"

definition lib_network_maps_back_to_tari_network :: bool where
  "lib_network_maps_back_to_tari_network \<longleftrightarrow>
     list_all (\<lambda>variant. tari_from_network (network_from_tari variant) = variant)
       [MainNet, StageNet, NextNet, LocalNet, Igor, Esmeralda]"

definition parse_network_none_is_mainnet :: bool where
  "parse_network_none_is_mainnet \<longleftrightarrow> parse_network None = Lib_MainNet"

definition parse_network_some_round_trips_each_variant :: bool where
  "parse_network_some_round_trips_each_variant \<longleftrightarrow>
     list_all (\<lambda>(variant, expected). parse_network (Some variant) = expected)
       [(MainNet, Lib_MainNet), (StageNet, Lib_StageNet), (NextNet, Lib_NextNet),
        (LocalNet, Lib_LocalNet), (Igor, Lib_Igor), (Esmeralda, Lib_Esmeralda)]"

lemma network_tests_pass:
  "from_str_accepts_every_canonical_name lower"
  "from_str_esme_is_alias_for_esmeralda lower"
  "from_str_is_case_insensitive lower"
  "from_str_rejects_unknown_names lower"
  "from_str_error_message_is_stable_after_wallet_error_migration lower"
  "tari_network_maps_to_lib_network_exhaustively"
  "lib_network_maps_back_to_tari_network"
  "parse_network_none_is_mainnet"
  "parse_network_some_round_trips_each_variant"
  by code_simp+

section \<open>Node-supplied text (\<open>src/domain/text.rs\<close>)\<close>

definition strips_invisible_characters :: bool where
  "strips_invisible_characters \<longleftrightarrow>
     strip_format_chars (lit ''Rejected'' @ [0x202E] @ lit ''gnp.exe'' @ [0x200B] @ lit '' by'' @ [0xFEFF] @
         lit '' node'' @ [0x2066] @ lit ''x'' @ [0x2069, 0x00AD]) = lit ''Rejectedgnp.exe by nodex'' \<and>
     strip_format_chars ([97, 0x2028, 98, 0x2029, 99, 0x034F, 100, 0x115F, 0x1160, 101, 0x3164, 102, 0xFFA0,
         103, 0xFE0F, 104, 0xE0100, 105, 0x180B, 0x180D, 0x180F, 106]) = lit ''abcdefghij''"

definition keeps_visible_text :: bool where
  "keeps_visible_text \<longleftrightarrow>
     (let text = lit ''plain ascii, '' @ [0xFC, 110, 0xEF] @ lit ''code ok, '' @ [0x65E5, 0x672C, 0x8A9E] @
            lit '', emoji '' @ [0x1F642] in
      strip_format_chars text = text)"

lemma text_tests_pass: "strips_invisible_characters" "keeps_visible_text"
  by code_simp+

section \<open>Constants (\<open>src/api/config.rs\<close>)\<close>

definition default_confirmation_window_is_three :: bool where
  "default_confirmation_window_is_three \<longleftrightarrow> DEFAULT_CONFIRMATION_WINDOW = 3"

definition default_base_url_is_tari_mainnet_rpc :: bool where
  "default_base_url_is_tari_mainnet_rpc \<longleftrightarrow> DEFAULT_BASE_URL = lit ''https://rpc.tari.com''"

definition seconds_to_lock_utxo_is_twenty_four_hours :: bool where
  "seconds_to_lock_utxo_is_twenty_four_hours \<longleftrightarrow>
     SECONDS_TO_LOCK_UTXO = 60 * 60 * 24 \<and> SECONDS_TO_LOCK_UTXO = 86400"

definition default_num_outputs_is_one :: bool where
  "default_num_outputs_is_one \<longleftrightarrow> DEFAULT_NUM_OUTPUTS = 1"

definition send_fee_per_gram_is_five :: bool where
  "send_fee_per_gram_is_five \<longleftrightarrow> SEND_FEE_PER_GRAM = 5"

definition health_timeout_secs_is_five :: bool where
  "health_timeout_secs_is_five \<longleftrightarrow> HEALTH_TIMEOUT_SECS = 5"

definition health_max_retries_is_one :: bool where
  "health_max_retries_is_one \<longleftrightarrow> HEALTH_MAX_RETRIES = 1"

definition log_field_max_bytes_is_4096 :: bool where
  "log_field_max_bytes_is_4096 \<longleftrightarrow> LOG_FIELD_MAX_BYTES = 4096"

lemma config_tests_pass:
  "default_confirmation_window_is_three"
  "default_base_url_is_tari_mainnet_rpc"
  "seconds_to_lock_utxo_is_twenty_four_hours"
  "default_num_outputs_is_one"
  "send_fee_per_gram_is_five"
  "health_timeout_secs_is_five"
  "health_max_retries_is_one"
  "log_field_max_bytes_is_4096"
  by code_simp+

section \<open>Enums that mirror minotari's (\<open>src/api/fee.rs\<close>, \<open>src/api/transactions.rs\<close>)\<close>

definition fee_priority_maps_to_lib_priority_exhaustively :: bool where
  "fee_priority_maps_to_lib_priority_exhaustively \<longleftrightarrow>
     fee_priority_from Slow = Lib_Slow \<and> fee_priority_from Medium = Lib_Medium \<and>
     fee_priority_from Fast = Lib_Fast"

definition direction_maps_exhaustively :: bool where
  "direction_maps_exhaustively \<longleftrightarrow>
     direction_from Lib_Incoming = Incoming \<and> direction_from Lib_Outgoing = Outgoing"

definition source_maps_exhaustively :: bool where
  "source_maps_exhaustively \<longleftrightarrow>
     source_from Lib_Transfer = Transfer \<and> source_from Lib_Coinbase = Coinbase \<and>
     source_from Lib_OneSided = OneSided \<and> source_from Lib_Unknown = Unknown"

definition status_maps_exhaustively :: bool where
  "status_maps_exhaustively \<longleftrightarrow>
     status_from Lib_Pending = Pending \<and> status_from Lib_Unconfirmed = Unconfirmed \<and>
     status_from Lib_Confirmed = Confirmed \<and> status_from Lib_Cancelled = Tx_Cancelled \<and>
     status_from Lib_Reorganized = Reorganized \<and> status_from Lib_Rejected = Rejected \<and>
     status_from Lib_Locked = Tx_Locked"

lemma enum_tests_pass:
  "fee_priority_maps_to_lib_priority_exhaustively"
  "direction_maps_exhaustively"
  "source_maps_exhaustively"
  "status_maps_exhaustively"
  by code_simp+

section \<open>The base node and heights (\<open>src/api/base_node.rs\<close>, \<open>src/api/height.rs\<close>)\<close>

definition check_node_health_unparseable_url_is_false_not_err :: "('u, 'c, 'n) node_lib_scheme \<Rightarrow> bool" where
  "check_node_health_unparseable_url_is_false_not_err N \<longleftrightarrow>
     check_node_health N (lit ''not a url'') = Inr False"

lemma node_test_passes:
  "parse_url N (lit ''not a url'') = Inl e \<Longrightarrow> check_node_health_unparseable_url_is_false_not_err N"
  by (simp add: check_node_health_unparseable_url_is_false_not_err_def check_node_health_def)

definition MAINNET_GENESIS :: u64 where
  "MAINNET_GENESIS = 1746511200"

definition DAY :: u64 where
  "DAY = 24 * 60 * 60"

definition estimate_height_counts_two_minute_blocks_since_genesis :: "'h height_lib_scheme \<Rightarrow> bool" where
  "estimate_height_counts_two_minute_blocks_since_genesis H \<longleftrightarrow>
     estimate_height_at_time H None 0 = 0 \<and>
     estimate_height_at_time H (Some MainNet) (MAINNET_GENESIS + DAY) = 720"

definition birthday_from_date_and_height_agree :: "'h height_lib_scheme \<Rightarrow> bool" where
  "birthday_from_date_and_height_agree H \<longleftrightarrow>
     (let at_genesis = birthday_from_date H MAINNET_GENESIS in
      birthday_from_height H (Some MainNet) 0 = at_genesis \<and>
      birthday_from_height H (Some MainNet) (720 * 10) = at_genesis + 10 \<and>
      birthday_from_date H (- 1) = - 1)"

definition plausible_height_allows_two_days :: "'h height_lib_scheme \<Rightarrow> bool" where
  "plausible_height_allows_two_days H \<longleftrightarrow>
     max_plausible_height H 0 = 1440 \<and> max_plausible_height H 100000 = 101440 \<and>
     max_plausible_height H (- 1) = - 1"

definition real_mainnet_heights_are_plausible :: "'h height_lib_scheme \<Rightarrow> bool" where
  "real_mainnet_heights_are_plausible H \<longleftrightarrow>
     list_all (\<lambda>(time, node_height).
         let estimate = estimate_height_at_time H (Some MainNet) time in
         node_height \<le> max_plausible_height H estimate)
       [(1751328000, 40194), (1767225600, 170622), (1788220800, 335339)]"

definition get_height_at_time_bad_url_is_network_error :: "'h height_lib_scheme \<Rightarrow> bool" where
  "get_height_at_time_bad_url_is_network_error H \<longleftrightarrow>
     (case get_height_at_time H (lit ''not a url'') 0 None of
        Inr _ \<Rightarrow> False
      | Inl e \<Rightarrow> starts_with (to_string e) (lit ''Network Error: ''))"

text \<open>
  What the tests demand of minotari: a target block time of two minutes; and for the real
  heights an offline estimate that is at most two days of blocks below the height.
\<close>

lemma two_days_of_blocks:
  "plausible_height_allows_two_days H \<longleftrightarrow> TARGET_BLOCK_TIME_SECS H = 120"
proof
  assume "TARGET_BLOCK_TIME_SECS H = 120"
  then have "unat (max_plausible_height H e) = min (unat e + 1440) (2 ^ 64 - 1)" for e
    by (simp add: unat_max_plausible_height)
  from this [of 0] this [of 100000] this [of "- 1"] show "plausible_height_allows_two_days H"
    by (auto simp: plausible_height_allows_two_days_def word_unat_eq_iff
        unsigned_minus_1_eq_mask mask_eq_exp_minus_1)
next
  assume "plausible_height_allows_two_days H"
  then have "unat (max_plausible_height H 0) = 1440" by (simp add: plausible_height_allows_two_days_def)
  then have "172800 div unat (TARGET_BLOCK_TIME_SECS H) = 1440"
    by (simp add: unat_max_plausible_height min_def split: if_splits)
  moreover from this have "0 < unat (TARGET_BLOCK_TIME_SECS H)" by (rule contrapos_pp) simp
  ultimately have "unat (TARGET_BLOCK_TIME_SECS H) = 120"
    using div_times_less_eq_dividend [of 172800 "unat (TARGET_BLOCK_TIME_SECS H)"]
      dividend_less_times_div [of "unat (TARGET_BLOCK_TIME_SECS H)" 172800] by simp
  then show "TARGET_BLOCK_TIME_SECS H = 120" by (simp add: word_unat_eq_iff)
qed

lemma real_heights_need:
  assumes "TARGET_BLOCK_TIME_SECS H = 120"
  shows "real_mainnet_heights_are_plausible H \<longleftrightarrow>
    40194 \<le> unat (estimate_height_at_time H (Some MainNet) 1751328000) + 1440 \<and>
    170622 \<le> unat (estimate_height_at_time H (Some MainNet) 1767225600) + 1440 \<and>
    335339 \<le> unat (estimate_height_at_time H (Some MainNet) 1788220800) + 1440"
  using assms
  by (auto simp: real_mainnet_heights_are_plausible_def Let_def word_le_nat_alt
      unat_max_plausible_height min_def)

lemma bad_url_height_passes:
  "node_height_at_time H (lit ''not a url'') 0 = Inl e \<Longrightarrow> get_height_at_time_bad_url_is_network_error H"
  by (simp add: get_height_at_time_bad_url_is_network_error_def get_height_at_time_def starts_with_iff)

section \<open>The bridge's threads (\<open>src/api/bridge_runtime.rs\<close>)\<close>

text \<open>The test reads back the sizes and the name the pool and the runtime were built with.\<close>

definition bridge_handler_uses_small_fixed_thread_budget ::
  "(pool_settings, runtime_settings) handler \<Rightarrow> bool" where
  "bridge_handler_uses_small_fixed_thread_budget handler \<longleftrightarrow>
     (case handler of
        Handler pool runtime \<Rightarrow> num_threads pool = 2 \<and> worker_threads runtime = 2
      | Handler_Panic _ \<Rightarrow> False)"

definition bridge_runtime_threads_are_named :: "(pool_settings, runtime_settings) handler \<Rightarrow> bool" where
  "bridge_runtime_threads_are_named handler \<longleftrightarrow>
     (case handler of
        Handler _ runtime \<Rightarrow> runtime_thread_name runtime = lit ''cw-tari-rt''
      | Handler_Panic _ \<Rightarrow> False)"

lemma handler_tests_pass:
  "bridge_handler_uses_small_fixed_thread_budget (FLUTTER_RUST_BRIDGE_HANDLER (lit ''2.11.1'') id Inr)"
  "bridge_runtime_threads_are_named (FLUTTER_RUST_BRIDGE_HANDLER (lit ''2.11.1'') id Inr)"
  by code_simp+

end
