(* ===== verification/Tests_Keys.thy ===== *)
theory Tests_Keys
  imports Wallet_Api Signing "HOL-Library.Code_Target_Nat"
begin

text \<open>
  The unit tests of recipients, addresses, keys and signatures (\<open>mod tests\<close> of
  \<open>src/domain/validation.rs\<close>, \<open>src/domain/address.rs\<close>, \<open>src/domain/keys.rs\<close> and
  \<open>src/api/signing.rs\<close>). The tests mint keys, addresses and signatures with Tari's libraries;
  here those are arguments, and each lemma names what it needs of the libraries, which is what
  the test checks of them beside this crate's code.
\<close>

section \<open>Recipients (\<open>src/domain/validation.rs\<close>)\<close>

text \<open>
  \<open>recipient net\<close> is the base58 text of the fixed address on a network
  (\<open>deterministic_recipient_base58\<close>): it parses, to an address on that network.
\<close>

definition parses_on :: "('addr, 'l) address_lib_scheme \<Rightarrow> (Lib_Network \<Rightarrow> rstring) \<Rightarrow> Lib_Network \<Rightarrow> bool" where
  "parses_on L recipient net \<longleftrightarrow>
     (case from_base58 L (recipient net) of Inl _ \<Rightarrow> False | Inr a \<Rightarrow> addr_network L a = net)"

definition rejects_zero_amount :: "('addr, 'l) address_lib_scheme \<Rightarrow> (Lib_Network \<Rightarrow> rstring) \<Rightarrow> bool" where
  "rejects_zero_amount L recipient \<longleftrightarrow>
     (case validate_recipient L Lib_MainNet (recipient Lib_MainNet) 0 False of
        Inl (Wallet details) \<Rightarrow> details = lit ''Amount must be greater than zero''
      | _ \<Rightarrow> False)"

definition send_all_accepts_zero_amount ::
  "('addr, 'l) address_lib_scheme \<Rightarrow> (Lib_Network \<Rightarrow> rstring) \<Rightarrow> bool" where
  "send_all_accepts_zero_amount L recipient \<longleftrightarrow>
     is_ok (validate_recipient L Lib_MainNet (recipient Lib_MainNet) 0 True)"

definition rejects_malformed_recipient_address :: "('addr, 'l) address_lib_scheme \<Rightarrow> bool" where
  "rejects_malformed_recipient_address L \<longleftrightarrow>
     (case validate_recipient L Lib_MainNet (lit ''not-a-valid-base58-address'') 1000 False of
        Inl (InvalidAddress _) \<Rightarrow> True
      | _ \<Rightarrow> False)"

definition accepts_matching_network_with_nonzero_amount ::
  "('addr, 'l) address_lib_scheme \<Rightarrow> (Lib_Network \<Rightarrow> rstring) \<Rightarrow> bool" where
  "accepts_matching_network_with_nonzero_amount L recipient \<longleftrightarrow>
     list_all (\<lambda>net. case validate_recipient L net (recipient net) 1000 False of
         Inl _ \<Rightarrow> False
       | Inr address \<Rightarrow> addr_network L address = net) [Lib_MainNet, Lib_Esmeralda]"

definition rejects_recipient_on_wrong_network ::
  "('addr, 'l) address_lib_scheme \<Rightarrow> (Lib_Network \<Rightarrow> rstring) \<Rightarrow> bool" where
  "rejects_recipient_on_wrong_network L recipient \<longleftrightarrow>
     (case validate_recipient L Lib_MainNet (recipient Lib_Esmeralda) 1000 False of
        Inl (InvalidAddress _) \<Rightarrow> True
      | _ \<Rightarrow> False)"

definition recipient_count_rules :: bool where
  "recipient_count_rules \<longleftrightarrow>
     is_ok (validate_recipient_count 1 False) \<and> is_ok (validate_recipient_count 3 False) \<and>
     is_ok (validate_recipient_count 1 True) \<and>
     map_err display (validate_recipient_count 0 False) =
       Inl (lit ''Wallet Error: At least one recipient is required'') \<and>
     map_err display (validate_recipient_count 2 True) =
       Inl (lit ''Wallet Error: A send-all pays exactly one recipient'')"

lemma recipient_tests_pass:
  assumes "parses_on L recipient Lib_MainNet" "parses_on L recipient Lib_Esmeralda"
    and "from_base58 L (lit ''not-a-valid-base58-address'') = Inl e"
  shows "rejects_zero_amount L recipient" "send_all_accepts_zero_amount L recipient"
    "rejects_malformed_recipient_address L" "accepts_matching_network_with_nonzero_amount L recipient"
    "rejects_recipient_on_wrong_network L recipient" "recipient_count_rules"
  using assms
  by (auto simp: parses_on_def rejects_zero_amount_def send_all_accepts_zero_amount_def
      rejects_malformed_recipient_address_def accepts_matching_network_with_nonzero_amount_def
      rejects_recipient_on_wrong_network_def recipient_count_rules_def validate_recipient_def
      validate_recipient_count_def lit_append [symmetric] split: sum.splits)

section \<open>Addresses and keys (\<open>src/domain/address.rs\<close>, \<open>src/domain/keys.rs\<close>)\<close>

type_synonym ('w, 'c, 'a, 'addr, 'seed, 'words, 'wt, 'km, 'pub, 'priv, 'l) wlib =
  "('w, 'c, 'a, 'addr, 'seed, 'words, 'wt, 'km, 'pub, 'priv, 'l) wallet_lib_scheme"

text \<open>\<open>fixed_keys\<close>: the spend key of one fixed secret and another fixed secret as the view key.\<close>

definition fixed_keys ::
  "('w, 'c, 'a, 'addr, 'seed, 'words, 'wt, 'km, 'pub, 'priv, 'l) wlib \<Rightarrow> (u8 list \<Rightarrow> 'priv) \<Rightarrow> 'pub \<times> 'priv" where
  "fixed_keys W from_canonical_bytes =
     (let view_sk = from_canonical_bytes (7 # replicate 31 0);
          spend_sk = from_canonical_bytes (11 # replicate 31 0)
      in (pub_from_secret W spend_sk, view_sk))"

definition known_keys_network_produce_golden_address ::
  "('addr, 'k) address_lib_scheme \<Rightarrow>
     ('w, 'c, 'a, 'addr, 'seed, 'words, 'wt, 'km, 'pub, 'priv, 'l) wlib \<Rightarrow> (u8 list \<Rightarrow> 'priv) \<Rightarrow> bool" where
  "known_keys_network_produce_golden_address A W key \<longleftrightarrow>
     (let (spend_pk, view_sk) = fixed_keys W key in
      case construct_wallet_address_details A W spend_pk view_sk Lib_MainNet of
        Inl _ \<Rightarrow> False
      | Inr details \<Rightarrow>
          is_ok (from_base58 A (wad_tari_address details)) \<and>
          wad_view_private_key_hex details = lit ''07'' @ replicate 62 48)"

definition address_is_deterministic_for_fixed_inputs ::
  "('addr, 'k) address_lib_scheme \<Rightarrow>
     ('w, 'c, 'a, 'addr, 'seed, 'words, 'wt, 'km, 'pub, 'priv, 'l) wlib \<Rightarrow> (u8 list \<Rightarrow> 'priv) \<Rightarrow> bool" where
  "address_is_deterministic_for_fixed_inputs A W key \<longleftrightarrow>
     (let (spend_pk, view_sk) = fixed_keys W key; (spend_pk2, view_sk2) = fixed_keys W key in
      case (construct_wallet_address_details A W spend_pk view_sk Lib_MainNet,
            construct_wallet_address_details A W spend_pk2 view_sk2 Lib_MainNet) of
        (Inr a, Inr b) \<Rightarrow>
          wad_tari_address a = wad_tari_address b \<and>
          wad_spend_public_key_hex a = wad_spend_public_key_hex b
      | _ \<Rightarrow> False)"

definition network_changes_the_address ::
  "('addr, 'k) address_lib_scheme \<Rightarrow>
     ('w, 'c, 'a, 'addr, 'seed, 'words, 'wt, 'km, 'pub, 'priv, 'l) wlib \<Rightarrow> (u8 list \<Rightarrow> 'priv) \<Rightarrow> bool" where
  "network_changes_the_address A W key \<longleftrightarrow>
     (let (spend_pk, view_sk) = fixed_keys W key; (spend_pk2, view_sk2) = fixed_keys W key in
      case (construct_wallet_address_details A W spend_pk view_sk Lib_MainNet,
            construct_wallet_address_details A W spend_pk2 view_sk2 Lib_Esmeralda) of
        (Inr main, Inr esme) \<Rightarrow> wad_tari_address main \<noteq> wad_tari_address esme
      | _ \<Rightarrow> False)"

definition split_hidden_words_splits_on_whitespace :: bool where
  "split_hidden_words_splits_on_whitespace \<longleftrightarrow>
     split_hidden_words (lit ''abandon ability  able'') = [lit ''abandon'', lit ''ability'', lit ''able'']"

definition same_cipher_seed_derives_identical_keys ::
  "('w, 'c, 'a, 'addr, 'seed, 'words, 'wt, 'km, 'pub, 'priv, 'l) wlib \<Rightarrow> 'seed \<Rightarrow> bool" where
  "same_cipher_seed_derives_identical_keys W seed \<longleftrightarrow>
     (case (key_manager_from_cipher_seed W seed, key_manager_from_cipher_seed W seed) of
        (Inr km1, Inr km2) \<Rightarrow>
          priv_hex W (private_view_key W km1) = priv_hex W (private_view_key W km2) \<and>
          pub_hex W (spend_pub_key W km1) = pub_hex W (spend_pub_key W km2)
      | _ \<Rightarrow> False)"

lemma split_test_passes: "split_hidden_words_splits_on_whitespace"
  by code_simp

text \<open>
  The address tests pass when the fixed keys make an address on both networks, base58 reads back
  what it wrote and tells the two networks' addresses apart, and the view key is written as the
  hexadecimal digits of its bytes.
\<close>

lemma address_tests_pass:
  assumes addr: "\<And>net. new_dual_address W (pub_from_secret W (snd (fixed_keys W key))) (fst (fixed_keys W key)) net
        = Inr (addr net)"
    and parse: "\<And>a. from_base58 A (to_base58 A a) = Inr a"
    and other: "addr Lib_MainNet \<noteq> addr Lib_Esmeralda"
    and hex: "priv_hex W (key (7 # replicate 31 0)) = lit ''07'' @ replicate 62 48"
  shows "known_keys_network_produce_golden_address A W key"
    "address_is_deterministic_for_fixed_inputs A W key" "network_changes_the_address A W key"
proof -
  have "to_base58 A (addr Lib_MainNet) \<noteq> to_base58 A (addr Lib_Esmeralda)"
    using parse other by (metis Inr_inject)
  with addr parse hex show "known_keys_network_produce_golden_address A W key"
    "address_is_deterministic_for_fixed_inputs A W key" "network_changes_the_address A W key"
    by (simp_all add: known_keys_network_produce_golden_address_def fixed_keys_def
        address_is_deterministic_for_fixed_inputs_def network_changes_the_address_def
        construct_wallet_address_details_def Let_def)
qed

lemma same_seed_test_passes:
  "same_cipher_seed_derives_identical_keys W seed \<longleftrightarrow> is_ok (key_manager_from_cipher_seed W seed)"
  by (auto simp: same_cipher_seed_derives_identical_keys_def is_ok_def split: sum.splits)

section \<open>Signatures (\<open>src/api/signing.rs\<close>)\<close>

text \<open>
  \<open>V\<close> is minotari's \<open>verify_message\<close>; \<open>sign secret msg\<close> the signature the test mints
  (\<open>sign_for_test\<close>), two hexadecimal texts around a bar.
\<close>

definition malformed_address_is_invalid_recipient_address ::
  "('addr, 'k) address_lib_scheme \<Rightarrow> ('addr \<Rightarrow> rstring \<Rightarrow> rstring \<Rightarrow> SigningError + bool) \<Rightarrow> rstring \<Rightarrow> bool" where
  "malformed_address_is_invalid_recipient_address A V sig \<longleftrightarrow>
     (case verify_message A V (lit ''m'') sig (lit ''not-base58'') of
        Inr _ \<Rightarrow> False
      | Inl e \<Rightarrow> starts_with (to_string e) (lit ''Invalid Recipient Address: ''))"

definition malformed_address_error_shape_is_frozen ::
  "('addr, 'k) address_lib_scheme \<Rightarrow> ('addr \<Rightarrow> rstring \<Rightarrow> rstring \<Rightarrow> SigningError + bool) \<Rightarrow> bool" where
  "malformed_address_error_shape_is_frozen A V \<longleftrightarrow>
     (case verify_message A V (lit ''m'') (lit ''a|b'') (lit ''definitely-not-base58'') of
        Inr _ \<Rightarrow> False
      | Inl e \<Rightarrow> starts_with (to_string e) (lit ''Invalid Recipient Address: ''))"

text \<open>\<open>valid_address_and_signature\<close>: the base58 address of the fixed keys, and a signature with the spend key.\<close>

definition valid_address_and_signature ::
  "('addr, 'k) address_lib_scheme \<Rightarrow>
     ('w, 'c, 'a, 'addr, 'seed, 'words, 'wt, 'km, 'pub, 'priv, 'l) wlib \<Rightarrow> (u8 list \<Rightarrow> 'priv) \<Rightarrow>
     ('priv \<Rightarrow> rstring \<Rightarrow> rstring) \<Rightarrow> rstring \<Rightarrow> wallet_error + rstring \<times> rstring" where
  "valid_address_and_signature A W key sign msg =
     (let (spend_pk, view_sk) = fixed_keys W key in
      res_then (construct_wallet_address_details A W spend_pk view_sk Lib_MainNet) (\<lambda>details.
        Inr (wad_tari_address details, sign (key (11 # replicate 31 0)) msg)))"

definition end_to_end_verify_true_with_address_spend_key ::
  "('addr, 'k) address_lib_scheme \<Rightarrow>
     ('w, 'c, 'a, 'addr, 'seed, 'words, 'wt, 'km, 'pub, 'priv, 'l) wlib \<Rightarrow> (u8 list \<Rightarrow> 'priv) \<Rightarrow>
     ('priv \<Rightarrow> rstring \<Rightarrow> rstring) \<Rightarrow> ('addr \<Rightarrow> rstring \<Rightarrow> rstring \<Rightarrow> SigningError + bool) \<Rightarrow> bool" where
  "end_to_end_verify_true_with_address_spend_key A W key sign V \<longleftrightarrow>
     (case valid_address_and_signature A W key sign (lit ''verify me'') of
        Inl _ \<Rightarrow> False
      | Inr (address, sig) \<Rightarrow> verify_message A V (lit ''verify me'') sig address = Inr True)"

text \<open>\<open>str::split_once\<close> with a character.\<close>

definition split_once :: "rchar \<Rightarrow> rstring \<Rightarrow> (rstring \<times> rstring) option" where
  "split_once c s =
     (case dropWhile (\<lambda>x. x \<noteq> c) s of [] \<Rightarrow> None | _ # after \<Rightarrow> Some (takeWhile (\<lambda>x. x \<noteq> c) s, after))"

definition BAD_FORMAT :: rstring where
  "BAD_FORMAT = lit ''Signing Error: signature must be in '' @ [39] @
     lit ''<signature_hex>|<public_nonce_hex>'' @ [39] @ lit '' format''"

definition signing_error_strings_are_frozen ::
  "('addr, 'k) address_lib_scheme \<Rightarrow> ('addr \<Rightarrow> rstring \<Rightarrow> rstring \<Rightarrow> SigningError + bool) \<Rightarrow>
     rstring \<times> rstring \<Rightarrow> bool" where
  "signing_error_strings_are_frozen A V address_sig \<longleftrightarrow>
     (let (address, sig) = address_sig in
      case split_once 124 sig of
        None \<Rightarrow> False
      | Some (good_sig, good_nonce) \<Rightarrow>
          map_err to_string (verify_message A V (lit ''m'') (lit ''no-pipe'') address) = Inl BAD_FORMAT \<and>
          map_err to_string (verify_message A V (lit ''m'') (lit ''zz|'' @ good_nonce) address) =
            Inl (lit ''Signing Error: invalid signature component'') \<and>
          map_err to_string (verify_message A V (lit ''m'') (good_sig @ lit ''|zz'') address) =
            Inl (lit ''Signing Error: invalid public nonce''))"

definition malformed_signature_format_errors ::
  "('addr, 'k) address_lib_scheme \<Rightarrow> ('addr \<Rightarrow> rstring \<Rightarrow> rstring \<Rightarrow> SigningError + bool) \<Rightarrow> rstring \<Rightarrow> bool" where
  "malformed_signature_format_errors A V address \<longleftrightarrow>
     list_all (\<lambda>bad. map_err to_string (verify_message A V (lit ''m'') bad address) = Inl BAD_FORMAT)
       [[], lit ''abc'', lit ''a|b|c'']"

text \<open>\<open>view_only\<close> is the text minotari's \<open>SigningError::ViewOnlyWallet\<close> displays as.\<close>

definition view_only_error_string :: "rstring \<Rightarrow> wallet_db_error \<Rightarrow> wallet_db_error \<Rightarrow> bool" where
  "view_only_error_string view_only decryption_failed not_unlocked \<longleftrightarrow>
     display (map_signing_error (SE_ViewOnlyWallet view_only)) =
       lit ''Signing Error: View-only wallets cannot sign messages'' \<and>
     display (map_signing_error (SE_Db (decryption_failed\<lparr>db_kind := DbDecryptionFailed\<rparr>))) =
       lit ''Invalid Passphrase'' \<and>
     display (map_signing_error (SE_Db (not_unlocked\<lparr>db_kind := DbNotUnlocked\<rparr>))) = lit ''Wallet is locked''"

definition MESSAGE :: rstring where
  "MESSAGE = lit ''Tari message signing cross-compat vector''"

definition ADDRESS :: rstring where
  "ADDRESS =
     lit ''1275wmA8j3bwNkY4hWGyjkq3ccB2EDZC4DEApYn1MP3B6E3Y6tsTcj8pnxPTkT3hW68wU5kZbJdjmFgkWwfPgj5QuQY''"

definition SIGNATURE :: rstring where
  "SIGNATURE =
     lit ''63d1199d278eab8eb2ec05844be2e4cd3c89518bd75bcf5fdfc5b06ea09dc704'' @ [124] @
     lit ''862705ed9c05b18e2729a3dc0991c68d4f576ea5f1db6c45deb8d6639c10065b''"

definition verifies_reference_tari_signature ::
  "('addr, 'k) address_lib_scheme \<Rightarrow> ('addr \<Rightarrow> rstring \<Rightarrow> rstring \<Rightarrow> SigningError + bool) \<Rightarrow> bool" where
  "verifies_reference_tari_signature A V \<longleftrightarrow> verify_message A V MESSAGE SIGNATURE ADDRESS = Inr True"

text \<open>
  The library's part of the signature format: a text without exactly one bar is malformed, the
  first half that is no scalar and the second that is no point are errors of their own, with
  these texts.
\<close>

definition component :: "(rstring \<Rightarrow> bool) \<Rightarrow> (rstring \<Rightarrow> bool) \<Rightarrow> rstring \<Rightarrow> SigningError option" where
  "component scalar point sig =
     (case split_once 124 sig of
        None \<Rightarrow> Some (SE_MalformedSignature (drop 15 BAD_FORMAT))
      | Some (s, n) \<Rightarrow>
          if 124 \<in> set n then Some (SE_MalformedSignature (drop 15 BAD_FORMAT))
          else if \<not> scalar s then Some (SE_InvalidSignatureComponent (lit ''invalid signature component''))
          else if \<not> point n then Some (SE_InvalidPublicNonce (lit ''invalid public nonce''))
          else None)"

lemma split_once_bar: "c \<notin> set s \<Longrightarrow> split_once c (s @ c # t) = Some (s, t)"
proof -
  assume "c \<notin> set s"
  then have "dropWhile (\<lambda>x. x \<noteq> c) (s @ c # t) = c # t" "takeWhile (\<lambda>x. x \<noteq> c) (s @ c # t) = s"
    by (induction s) auto
  then show ?thesis by (simp add: split_once_def)
qed

lemma bad_address_tests_pass:
  "from_base58 A (lit ''not-base58'') = Inl e \<Longrightarrow> malformed_address_is_invalid_recipient_address A V sig"
  "from_base58 A (lit ''definitely-not-base58'') = Inl e \<Longrightarrow> malformed_address_error_shape_is_frozen A V"
  by (simp_all add: malformed_address_is_invalid_recipient_address_def verify_message_def
      malformed_address_error_shape_is_frozen_def starts_with_iff)

lemma end_to_end_test_passes:
  assumes "new_dual_address W (pub_from_secret W (snd (fixed_keys W key))) (fst (fixed_keys W key)) Lib_MainNet
      = Inr addr" "from_base58 A (to_base58 A addr) = Inr addr"
    and "V addr (lit ''verify me'') (sign (key (11 # replicate 31 0)) (lit ''verify me'')) = Inr True"
  shows "end_to_end_verify_true_with_address_spend_key A W key sign V"
  using assms
  by (simp add: end_to_end_verify_true_with_address_spend_key_def valid_address_and_signature_def
      construct_wallet_address_details_def verify_message_def fixed_keys_def Let_def)

lemma signature_format_tests_pass:
  assumes addr: "from_base58 A address = Inr addr"
    and V: "\<And>msg sig e. component scalar point sig = Some e \<Longrightarrow> V addr msg sig = Inl e"
    and scalar: "\<not> scalar (lit ''zz'')" and point: "\<not> point (lit ''zz'')"
    and good: "scalar good_sig" "124 \<notin> set good_sig" "124 \<notin> set good_nonce"
  shows "signing_error_strings_are_frozen A V (address, good_sig @ 124 # good_nonce)"
    "malformed_signature_format_errors A V address"
proof -
  have verify: "component scalar point sig = Some e \<Longrightarrow>
      map_err to_string (verify_message A V msg sig address) = Inl (display (map_signing_error e))"
    for sig e msg by (simp add: verify_message_def addr V)
  have bar: "lit ''zz|'' @ good_nonce = lit ''zz'' @ 124 # good_nonce"
    "good_sig @ lit ''|zz'' = good_sig @ 124 # lit ''zz''" by (simp_all add: lit_def)
  have "component scalar point (lit ''zz|'' @ good_nonce) =
      Some (SE_InvalidSignatureComponent (lit ''invalid signature component''))"
    unfolding bar component_def using split_once_bar [of 124 "lit ''zz''" good_nonce] scalar good
    by (simp add: lit_def)
  moreover have "component scalar point (good_sig @ lit ''|zz'') =
      Some (SE_InvalidPublicNonce (lit ''invalid public nonce''))"
    unfolding bar component_def using split_once_bar [of 124 good_sig "lit ''zz''"] point good
    by (simp add: lit_def)
  moreover have malformed: "list_all (\<lambda>bad. component scalar point bad =
      Some (SE_MalformedSignature (drop 15 BAD_FORMAT))) [lit ''no-pipe'', [], lit ''abc'', lit ''a|b|c'']"
    by (simp add: component_def split_once_def lit_def)
  moreover have prefixed: "display (signing (drop 15 BAD_FORMAT)) = BAD_FORMAT"
    by (simp add: BAD_FORMAT_def lit_def)
  ultimately show "signing_error_strings_are_frozen A V (address, good_sig @ 124 # good_nonce)"
    using good split_once_bar [of 124 good_sig good_nonce]
    by (simp add: signing_error_strings_are_frozen_def verify lit_append [symmetric])
  show "malformed_signature_format_errors A V address"
    using malformed prefixed by (simp add: malformed_signature_format_errors_def verify)
qed

lemma view_only_test_passes: "view_only_error_string (lit ''View-only wallets cannot sign messages'') d n"
  by (simp add: view_only_error_string_def lit_def)

lemma reference_signature_test_passes:
  "from_base58 A ADDRESS = Inr addr \<Longrightarrow> V addr MESSAGE SIGNATURE = Inr True \<Longrightarrow>
    verifies_reference_tari_signature A V"
  by (simp add: verifies_reference_tari_signature_def verify_message_def)

end
