(* ===== verification/Session_Contract.thy ===== *)
theory Session_Contract
  imports Session_Laws
begin

text \<open>
  The session functions use minotari only through its interface. An abstraction of one
  minotari by another (a function on what it keeps, on pools, connections and account rows,
  which commutes with every call) carries over to the whole of \<open>unlock_wallet\<close>, \<open>lock_wallet\<close>,
  \<open>force_lock_wallet\<close> and the accessors: run on the concrete minotari and on the abstract one, they return
  the same and stay related. So whatever holds of the crate on an abstract minotari (a few
  sets and maps) holds on every minotari it abstracts.
\<close>

section \<open>Simulation along a function\<close>

text \<open>
  \<open>hom h f m m'\<close>: from states related by \<open>h\<close>, \<open>m\<close> and \<open>m'\<close> end in related states with results
  related by \<open>f\<close>, or with the same error.
\<close>

definition hom :: "('s \<Rightarrow> 't) \<Rightarrow> ('a \<Rightarrow> 'b) \<Rightarrow> ('s, 'e, 'a) proc \<Rightarrow> ('t, 'e, 'b) proc \<Rightarrow> bool" where
  "hom h f m m' \<longleftrightarrow> (\<forall>s. m' (h s) = map_prod (map_sum id f) h (m s))"

named_theorems hom_intros \<open>simulation rules of the combinators and of the procedures\<close>

lemma homI: "(\<And>s. m' (h s) = map_prod (map_sum id f) h (m s)) \<Longrightarrow> hom h f m m'"
  by (simp add: hom_def)

lemma homD: "hom h f m m' \<Longrightarrow> m' (h s) = map_prod (map_sum id f) h (m s)"
  by (simp add: hom_def)

lemma hom_ret: "y = f x \<Longrightarrow> hom h f (ret x) (ret y)"
  by (simp add: hom_def proc_simps)

lemma hom_ret_same [hom_intros]: "hom h (\<lambda>x. x) (ret x) (ret x)"
  by (rule hom_ret) simp

lemma hom_fail [hom_intros]: "hom h f (fail e) (fail e)"
  by (simp add: hom_def proc_simps)

lemma hom_err [hom_intros]: "hom h f (err e) (err e)"
  by (simp add: hom_def proc_simps)

lemma hom_lift_res_same [hom_intros]: "hom h (\<lambda>x. x) (lift_res r) (lift_res r)"
  by (cases r) (simp_all add: hom_def proc_simps)

lemma hom_ok_or [hom_intros]: "hom h f (lift_res (ok_or e x)) (lift_res (ok_or e (map_option f x)))"
  by (cases x) (simp_all add: hom_def proc_simps)

lemma hom_and_then [hom_intros]:
  assumes "hom h f m m'" "\<And>x. hom h g (k x) (k' (f x))"
  shows "hom h g (and_then m k) (and_then m' k')"
proof (rule homI)
  fix s
  show "and_then m' k' (h s) = map_prod (map_sum id g) h (and_then m k s)"
    using homD [OF assms(1), of s] homD [OF assms(2)]
    by (cases "m s"; cases "fst (m s)") (auto simp: and_then_def)
qed

lemma hom_if [hom_intros]:
  "(b \<Longrightarrow> hom h f m m') \<Longrightarrow> (\<not> b \<Longrightarrow> hom h f n n') \<Longrightarrow>
    hom h f (if b then m else n) (if b then m' else n')"
  by simp

lemma hom_case_option [hom_intros]:
  "hom h f m m' \<Longrightarrow> (\<And>y. hom h f (k y) (k' y)) \<Longrightarrow>
    hom h f (case x of None \<Rightarrow> m | Some y \<Rightarrow> k y) (case x of None \<Rightarrow> m' | Some y \<Rightarrow> k' y)"
  by (cases x) simp_all

lemma hom_gets: "(\<And>s. a' (h s) = f (a s)) \<Longrightarrow> hom h f (gets a) (gets a')"
  by (simp add: hom_def proc_simps)

lemma hom_modify: "(\<And>s. a' (h s) = h (a s)) \<Longrightarrow> hom h (\<lambda>x. x) (modify a) (modify a')"
  by (simp add: hom_def proc_simps)

lemma map_sum_same [simp]: "map_sum id (\<lambda>x. x) r = r"
  by (cases r) simp_all

lemma map_sum_map_err: "map_err g (map_sum id f r) = map_sum id f (map_err g r)"
  by (cases r) simp_all

lemma hom_map_err_proc [hom_intros]:
  "hom h f m m' \<Longrightarrow> hom h f (map_err_proc g m) (map_err_proc g m')"
  by (simp add: hom_def map_err_proc_def map_sum_map_err split: prod.split)

section \<open>States and environments\<close>

definition abs_db :: "('p \<Rightarrow> 'q) \<Rightarrow> 'p DbState \<Rightarrow> 'q DbState" where
  "abs_db hp d =
     \<lparr>db_path = db_path d,
      db_open = map_option (\<lambda>db. \<lparr>db_pool = hp (db_pool db), db_file = db_file db\<rparr>) (db_open d),
      db_sessions = db_sessions d, next_generation = next_generation d\<rparr>"

definition abs_bridge :: "('w \<Rightarrow> 'v) \<Rightarrow> ('p \<Rightarrow> 'q) \<Rightarrow> ('w, 'p) bridge \<Rightarrow> ('v, 'q) bridge" where
  "abs_bridge hw hp s =
     \<lparr>DB_STATE = abs_db hp (DB_STATE s), db_poisoned = db_poisoned s, SCAN_STATE = SCAN_STATE s,
      scan_poisoned = scan_poisoned s, SCAN_ID = SCAN_ID s, MAINT_HELD = MAINT_HELD s,
      maint_poisoned = maint_poisoned s, cells = cells s, next_run = next_run s, world = hw (world s)\<rparr>"

lemma abs_db_simps [simp]:
  "db_path (abs_db hp d) = db_path d"
  "db_open (abs_db hp d) = map_option (\<lambda>db. \<lparr>db_pool = hp (db_pool db), db_file = db_file db\<rparr>) (db_open d)"
  "db_sessions (abs_db hp d) = db_sessions d"
  "next_generation (abs_db hp d) = next_generation d"
  by (simp_all add: abs_db_def)

lemma abs_bridge_simps [simp]:
  "DB_STATE (abs_bridge hw hp s) = abs_db hp (DB_STATE s)"
  "db_poisoned (abs_bridge hw hp s) = db_poisoned s"
  "SCAN_STATE (abs_bridge hw hp s) = SCAN_STATE s"
  "scan_poisoned (abs_bridge hw hp s) = scan_poisoned s"
  "SCAN_ID (abs_bridge hw hp s) = SCAN_ID s"
  "MAINT_HELD (abs_bridge hw hp s) = MAINT_HELD s"
  "maint_poisoned (abs_bridge hw hp s) = maint_poisoned s"
  "cells (abs_bridge hw hp s) = cells s"
  "next_run (abs_bridge hw hp s) = next_run s"
  "world (abs_bridge hw hp s) = hw (world s)"
  by (simp_all add: abs_bridge_def)

text \<open>Updates of a field that is not abstracted commute with the abstraction.\<close>

lemma abs_bridge_updates:
  "(abs_bridge hw hp s)\<lparr>SCAN_STATE := st\<rparr> = abs_bridge hw hp (s\<lparr>SCAN_STATE := st\<rparr>)"
  "(abs_bridge hw hp s)\<lparr>SCAN_ID := i\<rparr> = abs_bridge hw hp (s\<lparr>SCAN_ID := i\<rparr>)"
  "(abs_bridge hw hp s)\<lparr>MAINT_HELD := ws\<rparr> = abs_bridge hw hp (s\<lparr>MAINT_HELD := ws\<rparr>)"
  "(abs_bridge hw hp s)\<lparr>cells := cs\<rparr> = abs_bridge hw hp (s\<lparr>cells := cs\<rparr>)"
  "(abs_bridge hw hp s)\<lparr>world := hw wd\<rparr> = abs_bridge hw hp (s\<lparr>world := wd\<rparr>)"
  "(abs_bridge hw hp s)\<lparr>DB_STATE := abs_db hp d\<rparr> = abs_bridge hw hp (s\<lparr>DB_STATE := d\<rparr>)"
  by (simp_all add: abs_bridge_def)

lemma abs_bridge_cells:
  "upd_scan f (abs_bridge hw hp s) = abs_bridge hw hp (upd_scan f s)"
  "set_cell c (abs_bridge hw hp s) = abs_bridge hw hp (set_cell c s)"
  "is_set c (abs_bridge hw hp s) = is_set c s"
  by (simp_all add: upd_scan_def set_cell_def is_set_def abs_bridge_def)

text \<open>Other tasks may run at every await, as long as they run the same on both sides.\<close>

definition env_hom ::
  "('w \<Rightarrow> 'v) \<Rightarrow> ('p \<Rightarrow> 'q) \<Rightarrow> ('w, 'p) environment \<Rightarrow> ('v, 'q) environment \<Rightarrow> bool" where
  "env_hom hw hp env env' \<longleftrightarrow>
     (\<forall>p s. env_run env' p (abs_bridge hw hp s) = abs_bridge hw hp (env_run env p s)) \<and>
     (\<forall>s. join_error env' (abs_bridge hw hp s) = join_error env s)"

lemma env_hom_alone [simp]: "env_hom hw hp alone alone"
  by (simp add: env_hom_def)

section \<open>Abstraction of a minotari\<close>

definition minotari_hom ::
  "('w \<Rightarrow> 'v) \<Rightarrow> ('p \<Rightarrow> 'q) \<Rightarrow> ('c \<Rightarrow> 'd) \<Rightarrow> ('a \<Rightarrow> 'b) \<Rightarrow>
     ('w, 'p, 'c, 'a, 'm) minotari_scheme \<Rightarrow> ('v, 'q, 'd, 'b, 'n) minotari_scheme \<Rightarrow> bool" where
  "minotari_hom hw hp hc ha M M' \<longleftrightarrow>
     (\<forall>path wd. init_db M' path (hw wd) = map_prod (map_sum id hp) hw (init_db M path wd)) \<and>
     (\<forall>p wd. pool_get M' (hp p) (hw wd) = map_sum id hc (pool_get M p wd)) \<and>
     (\<forall>c w wd. session_is_unlocked M' (hc c) w (hw wd) = session_is_unlocked M c w wd) \<and>
     (\<forall>c w pw wd. session_unlock M' (hc c) w pw (hw wd) = map_prod id hw (session_unlock M c w pw wd)) \<and>
     (\<forall>w wd. session_lock M' w (hw wd) = hw (session_lock M w wd)) \<and>
     (\<forall>c w wd. get_account_by_name M' (hc c) w (hw wd) =
        map_sum id (map_option ha) (get_account_by_name M c w wd)) \<and>
     (\<forall>a pw. verify_passphrase M' (ha a) pw = verify_passphrase M a pw) \<and>
     (\<forall>c wd. find_expired_pending_transactions M' (hc c) (hw wd) = find_expired_pending_transactions M c wd) \<and>
     (\<forall>c i wd. expire_and_unlock_pending_transaction M' (hc c) i (hw wd) =
        map_prod id hw (expire_and_unlock_pending_transaction M c i wd)) \<and>
     (\<forall>c wd. wal_checkpoint_truncate M' (hc c) (hw wd) = map_prod id hw (wal_checkpoint_truncate M c wd))"

lemma minotari_homD:
  assumes "minotari_hom hw hp hc ha M M'"
  shows "init_db M' path (hw wd) = map_prod (map_sum id hp) hw (init_db M path wd)"
    "pool_get M' (hp p) (hw wd) = map_sum id hc (pool_get M p wd)"
    "session_is_unlocked M' (hc c) w (hw wd) = session_is_unlocked M c w wd"
    "session_unlock M' (hc c) w pw (hw wd) = map_prod id hw (session_unlock M c w pw wd)"
    "session_lock M' w (hw wd) = hw (session_lock M w wd)"
    "get_account_by_name M' (hc c) w (hw wd) = map_sum id (map_option ha) (get_account_by_name M c w wd)"
    "verify_passphrase M' (ha a) pw = verify_passphrase M a pw"
    "find_expired_pending_transactions M' (hc c) (hw wd) = find_expired_pending_transactions M c wd"
    "expire_and_unlock_pending_transaction M' (hc c) i (hw wd) =
      map_prod id hw (expire_and_unlock_pending_transaction M c i wd)"
    "wal_checkpoint_truncate M' (hc c) (hw wd) = map_prod id hw (wal_checkpoint_truncate M c wd)"
  using assms by (simp_all add: minotari_hom_def)

lemma hom_on_world:
  "(\<And>wd. a' (hw wd) = map_prod (map_sum id f) hw (a wd)) \<Longrightarrow>
    hom (abs_bridge hw hp) f (on_world a) (on_world a')"
  by (rule homI) (simp add: on_world_def abs_bridge_updates split: prod.split)

lemma hom_on_world_same:
  "(\<And>wd. a' (hw wd) = map_prod id hw (a wd)) \<Longrightarrow> hom (abs_bridge hw hp) (\<lambda>x. x) (on_world a) (on_world a')"
  by (rule hom_on_world) (simp add: prod_eq_iff)

lemma hom_await [hom_intros]:
  "env_hom hw hp env env' \<Longrightarrow> hom (abs_bridge hw hp) (\<lambda>x. x) (await env p) (await env' p)"
  by (rule homI) (simp add: env_hom_def proc_simps)

section \<open>The scan state and maintenance\<close>

text \<open>None of these calls minotari; they read and write fields that are kept as they are.\<close>

lemma hom_scan_sections [hom_intros]:
  "hom (abs_bridge hw hp) (\<lambda>x. x) write_scan_state write_scan_state"
  "hom (abs_bridge hw hp) (\<lambda>x. x) (create_scan_handle w) (create_scan_handle w)"
  "hom (abs_bridge hw hp) (\<lambda>x. x) (stop_scan_begin handle) (stop_scan_begin handle)"
  "hom (abs_bridge hw hp) (\<lambda>x. x) (cancel_wallet_scans w) (cancel_wallet_scans w)"
  "hom (abs_bridge hw hp) (\<lambda>x. x) (claim_handle handle) (claim_handle handle)"
  "hom (abs_bridge hw hp) (\<lambda>x. x) (maintenance_lock w) (maintenance_lock w)"
  by (rule homI;
      simp add: scan_sections maintenance_lock_def proc_simps Let_def abs_bridge_updates abs_bridge_cells
        split: option.split)+

lemma hom_stop_wallet_scans [hom_intros]:
  "env_hom hw hp env env' \<Longrightarrow>
    hom (abs_bridge hw hp) (\<lambda>x. x) (stop_wallet_scans env w) (stop_wallet_scans env' w)"
  unfolding stop_wallet_scans_def by (rule hom_intros | assumption)+

lemma hom_with_maintenance [hom_intros]:
  assumes "env_hom hw hp env env'" "hom (abs_bridge hw hp) f body body'"
  shows "hom (abs_bridge hw hp) f (with_maintenance env w body) (with_maintenance env' w body')"
proof -
  have start: "hom (abs_bridge hw hp) (\<lambda>x. x) (begin_maintenance env w) (begin_maintenance env' w)"
    unfolding begin_maintenance_def
    by (rule hom_intros hom_modify assms(1) | simp add: abs_bridge_updates)+
  have body: "hom (abs_bridge hw hp) f (\<lambda>s. case body s of (r, s') \<Rightarrow> (r, end_maintenance lock s'))
      (\<lambda>s. case body' s of (r, s') \<Rightarrow> (r, end_maintenance lock s'))" for lock
    using homD [OF assms(2)]
    by (intro homI) (simp add: end_maintenance_def abs_bridge_updates split: prod.split)
  show ?thesis
    unfolding with_maintenance_def by (rule hom_and_then [OF start body])
qed

lemma hom_blocking [hom_intros]:
  assumes "env_hom hw hp env env'" "hom (abs_bridge hw hp) f work work'"
  shows "hom (abs_bridge hw hp) f (blocking env work) (blocking env' work')"
proof -
  have "hom (abs_bridge hw hp) f
      (\<lambda>s. case join_error env s of None \<Rightarrow> work s | Some e \<Rightarrow> err (internal (lit ''Blocking task failed: '' @ e)) s)
      (\<lambda>s. case join_error env' s of None \<Rightarrow> work' s | Some e \<Rightarrow> err (internal (lit ''Blocking task failed: '' @ e)) s)"
    using assms homD [OF assms(2)]
    by (intro homI) (simp add: env_hom_def proc_simps split: option.split)
  then show ?thesis
    unfolding blocking_def by (intro hom_and_then [OF hom_await [OF assms(1)]])
qed

section \<open>The database and the sessions\<close>

lemma acquire_session_abs:
  "acquire_session w (abs_db hp d) = map_prod id (abs_db hp) (acquire_session w d)"
  by (simp add: acquire_session_def abs_db_def Let_def split: option.split)

lemma release_one_abs: "release_one w (abs_db hp d) = map_prod id (abs_db hp) (release_one w d)"
  by (simp add: release_one_def close_pool_def abs_db_def Let_def split: option.split)

lemma remove_session_abs: "remove_session w (abs_db hp d) = abs_db hp (remove_session w d)"
  by (simp add: remove_session_def close_pool_def abs_db_def Let_def)

lemma upd_db_abs:
  "(\<And>d. f' (abs_db hp d) = abs_db hp (f d)) \<Longrightarrow>
    upd_db f' (abs_bridge hw hp s) = abs_bridge hw hp (upd_db f s)"
  by (simp add: upd_db_def abs_bridge_updates)

lemma hom_upd_db:
  "(\<And>d. f' (abs_db hp d) = abs_db hp (f d)) \<Longrightarrow>
    hom (abs_bridge hw hp) (\<lambda>x. x) (modify (upd_db f)) (modify (upd_db f'))"
  by (rule hom_modify) (rule upd_db_abs)

lemma hom_db_guards [hom_intros]:
  "hom (abs_bridge hw hp) (\<lambda>x. x) write_db_state write_db_state"
  "hom (abs_bridge hw hp) (abs_db hp) read_db_state read_db_state"
  by (simp_all add: hom_def proc_simps)

lemma hom_sections [hom_intros]:
  "hom (abs_bridge hw hp) (\<lambda>x. x) (release_session w) (release_session w)"
  "hom (abs_bridge hw hp) (\<lambda>x. x) (release_if_generation w g) (release_if_generation w g)"
  "hom (abs_bridge hw hp) (\<lambda>x. x) (still_counted w g) (still_counted w g)"
  "hom (abs_bridge hw hp) (\<lambda>x. x) (set_database_path path) (set_database_path path)"
  "hom (abs_bridge hw hp) (\<lambda>x. x) (close_other_pool path) (close_other_pool path)"
  "hom (abs_bridge hw hp) (\<lambda>x. x) get_db_path get_db_path"
proof -
  show "hom (abs_bridge hw hp) (\<lambda>x. x) (release_session w) (release_session w)"
    "hom (abs_bridge hw hp) (\<lambda>x. x) (release_if_generation w g) (release_if_generation w g)"
    "hom (abs_bridge hw hp) (\<lambda>x. x) (still_counted w g) (still_counted w g)"
    by (rule homI; auto simp: release_session_def release_if_generation_def still_counted_def
        session_generation_def release_one_abs proc_simps abs_bridge_updates split: prod.split)+
  have path: "abs_db hp d\<lparr>db_path := x\<rparr> = abs_db hp (d\<lparr>db_path := x\<rparr>)"
    "close_pool (abs_db hp d) = abs_db hp (close_pool d)" for d x
    by (simp_all add: abs_db_def close_pool_def)
  show "hom (abs_bridge hw hp) (\<lambda>x. x) (set_database_path path) (set_database_path path)"
    "hom (abs_bridge hw hp) (\<lambda>x. x) (close_other_pool path) (close_other_pool path)"
    "hom (abs_bridge hw hp) (\<lambda>x. x) get_db_path get_db_path"
    by (rule homI; simp add: set_database_path_def close_other_pool_def get_db_path_def proc_simps
        upd_db_def path abs_bridge_updates split: option.split)+
qed

text \<open>The calls of minotari.\<close>

lemma hom_minotari_calls [hom_intros]:
  assumes M: "minotari_hom hw hp hc ha M M'"
  shows "hom (abs_bridge hw hp) hc (get_conn M pool) (get_conn M' (hp pool))"
    "hom (abs_bridge hw hp) (\<lambda>x. x) (check_is_unlocked M conn w) (check_is_unlocked M' (hc conn) w)"
    "hom (abs_bridge hw hp) (\<lambda>x. x) (verify_stored M conn w pw) (verify_stored M' (hc conn) w pw)"
    "hom (abs_bridge hw hp) (\<lambda>x. x) (is_unlocked M conn w) (is_unlocked M' (hc conn) w)"
    "hom (abs_bridge hw hp) (\<lambda>x. x) (unlock_session M conn w pw) (unlock_session M' (hc conn) w pw)"
    "hom (abs_bridge hw hp) hp (init_pool M path) (init_pool M' path)"
proof -
  note call = minotari_homD [OF M]
  show "hom (abs_bridge hw hp) hc (get_conn M pool) (get_conn M' (hp pool))"
    by (rule homI) (simp add: get_conn_def call map_sum_map_err)
  show "hom (abs_bridge hw hp) (\<lambda>x. x) (check_is_unlocked M conn w) (check_is_unlocked M' (hc conn) w)"
    "hom (abs_bridge hw hp) (\<lambda>x. x) (is_unlocked M conn w) (is_unlocked M' (hc conn) w)"
    by (rule homI; simp add: check_is_unlocked_def is_unlocked_def call)+
  show "hom (abs_bridge hw hp) (\<lambda>x. x) (verify_stored M conn w pw) (verify_stored M' (hc conn) w pw)"
    by (rule homI)
       (auto simp: verify_stored_def call res_then_def map_err_def ok_or_def split: sum.splits option.splits)
  show "hom (abs_bridge hw hp) (\<lambda>x. x) (unlock_session M conn w pw) (unlock_session M' (hc conn) w pw)"
    unfolding unlock_session_def
    by (intro hom_map_err_proc hom_on_world_same) (rule call)
  show "hom (abs_bridge hw hp) hp (init_pool M path) (init_pool M' path)"
    unfolding init_pool_def by (intro hom_map_err_proc hom_on_world) (rule call)
qed

lemma release_expired_abs:
  assumes M: "minotari_hom hw hp hc ha M M'"
  shows "release_expired_reservations M' (hc conn) (abs_bridge hw hp s) =
    abs_bridge hw hp (release_expired_reservations M conn s)"
proof -
  note call = minotari_homD [OF M]
  have one: "snd (on_world (expire_and_unlock_pending_transaction M' (hc conn) i) (abs_bridge hw hp s)) =
      abs_bridge hw hp (snd (on_world (expire_and_unlock_pending_transaction M conn i) s))" for i s
    by (simp add: on_world_def call abs_bridge_updates split: prod.split)
  have "fold (\<lambda>i s. snd (on_world (expire_and_unlock_pending_transaction M' (hc conn) i) s)) ids (abs_bridge hw hp s) =
      abs_bridge hw hp (fold (\<lambda>i s. snd (on_world (expire_and_unlock_pending_transaction M conn i) s)) ids s)" for ids
    by (induction ids arbitrary: s) (simp_all add: one)
  then show ?thesis
    by (simp add: release_expired_reservations_def call split: sum.split)
qed

lemma hom_open_pool [hom_intros]:
  assumes M: "minotari_hom hw hp hc ha M M'"
  shows "hom (abs_bridge hw hp) hp (open_pool M path) (open_pool M' path)"
proof -
  have "hom (abs_bridge hw hp) hp
      (\<lambda>s. case pool_get M pool (world s) of Inl _ \<Rightarrow> ret pool s
         | Inr conn \<Rightarrow> ret pool (release_expired_reservations M conn s))
      (\<lambda>s. case pool_get M' (hp pool) (world s) of Inl _ \<Rightarrow> ret (hp pool) s
         | Inr conn \<Rightarrow> ret (hp pool) (release_expired_reservations M' conn s))" for pool
    by (rule homI) (simp add: minotari_homD [OF M] release_expired_abs [OF M] proc_simps split: sum.split)
  then show ?thesis
    unfolding open_pool_def by (rule hom_and_then [OF hom_minotari_calls(6) [OF M]])
qed

lemma hom_get_db_pool [hom_intros]:
  assumes "minotari_hom hw hp hc ha M M'"
  shows "hom (abs_bridge hw hp) hp (get_db_pool M) (get_db_pool M')"
proof -
  have "hom (abs_bridge hw hp) hp
      (case db_open d of Some db \<Rightarrow> ret (db_pool db)
         | None \<Rightarrow> and_then (lift_res (ok_or (Wallet_Err NotInitialized) (db_path d))) (init_pool M))
      (case db_open (abs_db hp d) of Some db \<Rightarrow> ret (db_pool db)
         | None \<Rightarrow> and_then (lift_res (ok_or (Wallet_Err NotInitialized) (db_path (abs_db hp d)))) (init_pool M'))" for d
  proof (cases "db_open d")
    case None
    have "hom (abs_bridge hw hp) hp
        (and_then (lift_res (ok_or (Wallet_Err NotInitialized) (db_path d))) (init_pool M))
        (and_then (lift_res (ok_or (Wallet_Err NotInitialized) (db_path d))) (init_pool M'))"
      by (rule hom_intros assms)+
    with None show ?thesis by simp
  qed (simp add: hom_ret)
  then show ?thesis
    unfolding get_db_pool_def by (rule hom_and_then [OF hom_db_guards(2)])
qed

lemma hom_get_db_connection [hom_intros]:
  assumes "minotari_hom hw hp hc ha M M'"
  shows "hom (abs_bridge hw hp) hc (get_db_connection M) (get_db_connection M')"
  unfolding get_db_connection_def by (rule hom_intros assms)+

section \<open>Locking and unlocking\<close>

lemma hom_lock_gate_held [hom_intros]:
  assumes M: "minotari_hom hw hp hc ha M M'"
  shows "hom (abs_bridge hw hp) (\<lambda>x. x) (lock_session_gate_held M w) (lock_session_gate_held M' w)"
proof -
  have lock: "hom (abs_bridge hw hp) (\<lambda>x. x) (lock_and_cancel M w) (lock_and_cancel M' w)"
    unfolding lock_and_cancel_def
    by (rule hom_intros hom_modify | simp add: minotari_homD [OF M] abs_bridge_updates)+
  show ?thesis
    by (rule homI) (simp add: lock_session_gate_held_def holder_counted_def homD [OF lock] proc_simps)
qed

lemma hom_lock_wallet [hom_intros]:
  assumes "minotari_hom hw hp hc ha M M'" "env_hom hw hp env env'"
  shows "hom (abs_bridge hw hp) (\<lambda>x. x) (lock_wallet env M w) (lock_wallet env' M' w)"
  unfolding lock_wallet_def lock_session_unless_held_async_def lock_session_unless_held_def hold_gate_def
  by (rule hom_intros assms)+

lemma hom_lock_wallet_everywhere [hom_intros]:
  assumes "minotari_hom hw hp hc ha M M'" "env_hom hw hp env env'"
  shows "hom (abs_bridge hw hp) (\<lambda>x. x) (lock_wallet_everywhere env M w) (lock_wallet_everywhere env' M' w)"
  unfolding lock_wallet_everywhere_def lock_session_unless_held_async_def lock_session_unless_held_def
    hold_gate_def
  by (rule hom_intros hom_upd_db remove_session_abs assms)+

lemma hom_force_lock_wallet [hom_intros]:
  assumes "minotari_hom hw hp hc ha M M'" "env_hom hw hp env env'"
  shows "hom (abs_bridge hw hp) (\<lambda>x. x) (force_lock_wallet env M w) (force_lock_wallet env' M' w)"
  unfolding force_lock_wallet_def by (rule hom_intros assms)+

lemma hom_check_and_unlock [hom_intros]:
  assumes "minotari_hom hw hp hc ha M M'"
  shows "hom (abs_bridge hw hp) (\<lambda>x. x) (check_and_unlock M conn w pw) (check_and_unlock M' (hc conn) w pw)"
  unfolding check_and_unlock_def by (rule hom_intros assms)+

lemma hom_unlock_begin [hom_intros]:
  assumes "minotari_hom hw hp hc ha M M'"
  shows "hom (abs_bridge hw hp) (map_prod hp id) (unlock_begin M path w) (unlock_begin M' path w)"
proof -
  have opened: "hom (abs_bridge hw hp) hp
      (and_then (open_pool M path) (\<lambda>pool.
        and_then (modify (upd_db (\<lambda>d. d\<lparr>db_open := Some \<lparr>db_pool = pool, db_file = path\<rparr>\<rparr>))) (\<lambda>_. ret pool)))
      (and_then (open_pool M' path) (\<lambda>pool.
        and_then (modify (upd_db (\<lambda>d. d\<lparr>db_open := Some \<lparr>db_pool = pool, db_file = path\<rparr>\<rparr>))) (\<lambda>_. ret pool)))"
    by (rule hom_intros hom_upd_db hom_ret refl assms | simp add: abs_db_def)+
  have shared: "hom (abs_bridge hw hp) hp (shared_pool M path) (shared_pool M' path)"
    by (rule homI) (simp add: shared_pool_def homD [OF opened] ret_def split: option.split)
  have acquired: "hom (abs_bridge hw hp) (map_prod hp id)
      (\<lambda>s. case acquire_session w (DB_STATE s) of (generation, d) \<Rightarrow> ret (pool, generation) (s\<lparr>DB_STATE := d\<rparr>))
      (\<lambda>s. case acquire_session w (DB_STATE s) of (generation, d) \<Rightarrow> ret (hp pool, generation) (s\<lparr>DB_STATE := d\<rparr>))"
    for pool
    by (rule homI) (simp add: acquire_session_abs proc_simps abs_bridge_updates split: prod.split)
  show ?thesis
    unfolding unlock_begin_def
    by (rule hom_intros hom_upd_db shared acquired | simp add: abs_db_def)+
qed

lemma hom_confirm [hom_intros]:
  assumes "minotari_hom hw hp hc ha M M'"
  shows "hom (abs_bridge hw hp) (\<lambda>x. x) (confirm_still_counted M w g) (confirm_still_counted M' w g)"
    "hom (abs_bridge hw hp) (\<lambda>x. x) (release_failed_unlock M w g) (release_failed_unlock M' w g)"
  unfolding confirm_still_counted_def release_failed_unlock_def by (rule hom_intros assms)+

text \<open>The rest of \<open>unlock_wallet\<close>, once the wallet's gate is held.\<close>

definition unlock_finish ::
  "('w, 'p, 'c, 'a, 'm) minotari_scheme \<Rightarrow> rstring \<Rightarrow> rstring \<Rightarrow> 'p \<times> u64 \<Rightarrow> ('w, 'p, unit) bridge_api" where
  "unlock_finish M wallet_name passphrase counted s =
     (case unlock_check M (fst counted) wallet_name passphrase s of
        (Inl e, s') \<Rightarrow> and_then (release_failed_unlock M wallet_name (snd counted)) (\<lambda>_. fail e) s'
      | (Inr _, s') \<Rightarrow> confirm_still_counted M wallet_name (snd counted) s')"

lemma unlock_wallet_sections:
  "unlock_wallet env M path w pw =
    and_then (unlock_begin M path w) (\<lambda>counted. and_then (hold_gate env w) (\<lambda>_. unlock_finish M w pw counted))"
  by (simp add: unlock_wallet_def unlock_finish_def [abs_def] case_prod_unfold)

lemma hom_unlock_finish [hom_intros]:
  assumes M: "minotari_hom hw hp hc ha M M'"
  shows "hom (abs_bridge hw hp) (\<lambda>x. x) (unlock_finish M w pw counted)
    (unlock_finish M' w pw (map_prod hp id counted))"
proof -
  have check: "hom (abs_bridge hw hp) (\<lambda>x. x) (unlock_check M (fst counted) w pw) (unlock_check M' (hp (fst counted)) w pw)"
    unfolding unlock_check_def by (rule hom_intros M)+
  have failed: "hom (abs_bridge hw hp) (\<lambda>x :: unit. x) (and_then (release_failed_unlock M w (snd counted)) (\<lambda>_. fail e))
      (and_then (release_failed_unlock M' w (snd counted)) (\<lambda>_. fail e))" for e
    by (rule hom_intros M)+
  show ?thesis
    using homD [OF check] homD [OF failed] homD [OF hom_confirm(1) [OF M]]
    by (intro homI) (simp add: unlock_finish_def split: prod.split sum.split)
qed

lemma hom_unlock_wallet [hom_intros]:
  assumes "minotari_hom hw hp hc ha M M'" "env_hom hw hp env env'"
  shows "hom (abs_bridge hw hp) (\<lambda>x. x) (unlock_wallet env M path w pw) (unlock_wallet env' M' path w pw)"
  unfolding unlock_wallet_sections hold_gate_def by (rule hom_intros assms)+

section \<open>Using a session\<close>

lemma hom_with_session [hom_intros]:
  assumes "minotari_hom hw hp hc ha M M'" "hom (abs_bridge hw hp) f read read'"
  shows "hom (abs_bridge hw hp) f (with_session M conn w read) (with_session M' (hc conn) w read')"
proof -
  have lifted: "hom (abs_bridge hw hp) f (lift_res r) (lift_res (map_sum id f r))" for r
    by (rule homI) (simp add: proc_simps)
  have checked: "hom (abs_bridge hw hp) f
      (and_then (is_unlocked M conn w) (\<lambda>unlocked. if \<not> unlocked then err Locked else lift_res r))
      (and_then (is_unlocked M' (hc conn) w) (\<lambda>unlocked. if \<not> unlocked then err Locked else lift_res (map_sum id f r)))" for r
    by (rule hom_intros lifted assms(1))+
  show ?thesis
    using homD [OF assms(2)] homD [OF checked]
    by (intro homI) (simp add: with_session_def split: prod.split)
qed

lemma hom_unlocked_account [hom_intros]:
  assumes M: "minotari_hom hw hp hc ha M M'"
  shows "hom (abs_bridge hw hp) ha (unlocked_account M conn w) (unlocked_account M' (hc conn) w)"
proof -
  have row: "hom (abs_bridge hw hp) (map_option ha)
      (\<lambda>s. (map_err (\<lambda>e. Wallet_Err (database (db_text e))) (get_account_by_name M conn w (world s)), s))
      (\<lambda>s. (map_err (\<lambda>e. Wallet_Err (database (db_text e))) (get_account_by_name M' (hc conn) w (world s)), s))"
    by (rule homI) (simp add: minotari_homD [OF M] map_sum_map_err)
  have rest: "hom (abs_bridge hw hp) ha
      (and_then (is_unlocked M conn w) (\<lambda>unlocked. if \<not> unlocked then err Locked else ret account))
      (and_then (is_unlocked M' (hc conn) w) (\<lambda>unlocked. if \<not> unlocked then err Locked else ret (ha account)))" for account
    by (rule hom_intros M hom_ret refl)+
  show ?thesis
    unfolding unlocked_account_def by (rule rest row hom_ok_or hom_and_then)+
qed

lemma hom_checkpoint_database [hom_intros]:
  assumes M: "minotari_hom hw hp hc ha M M'"
  shows "hom (abs_bridge hw hp) (\<lambda>x. x) (checkpoint_database M) (checkpoint_database M')"
  unfolding checkpoint_database_def
  by (rule hom_intros hom_on_world_same M minotari_homD(10) [OF M])+

lemma hom_same_result:
  "hom h (\<lambda>x. x) m m' \<Longrightarrow> m' (h s) = map_prod id h (m s)"
  using homD [of h "\<lambda>x. x" m m' s] by (simp add: prod_eq_iff)

section \<open>Result\<close>

text \<open>
  Whatever abstracts minotari's interface abstracts the crate's sessions. Let
  functions on what minotari keeps, on its pools, connections and account rows commute with its
  calls; then \<open>unlock_wallet\<close>, \<open>lock_wallet\<close>, \<open>force_lock_wallet\<close> and \<open>checkpoint_database\<close>, with
  any other tasks running at their awaits, return the same on the abstract minotari as on the
  concrete one, errors included, and leave related states.
\<close>

theorem sessions_follow_the_contract:
  assumes "minotari_hom hw hp hc ha M M'" and "env_hom hw hp env env'"
  shows "unlock_wallet env' M' path w pw (abs_bridge hw hp s) =
      map_prod id (abs_bridge hw hp) (unlock_wallet env M path w pw s) \<and>
    lock_wallet env' M' w (abs_bridge hw hp s) = map_prod id (abs_bridge hw hp) (lock_wallet env M w s) \<and>
    force_lock_wallet env' M' w (abs_bridge hw hp s) =
      map_prod id (abs_bridge hw hp) (force_lock_wallet env M w s) \<and>
    checkpoint_database M' (abs_bridge hw hp s) = map_prod id (abs_bridge hw hp) (checkpoint_database M s)"
  by (intro conjI hom_same_result hom_unlock_wallet hom_lock_wallet hom_force_lock_wallet
      hom_checkpoint_database) (rule assms)+

text \<open>A minotari that keeps its sessions in a list, abstracted by one that keeps a set.\<close>

definition listed_minotari :: "(rstring list, unit, unit, unit) minotari" where
  "listed_minotari =
     \<lparr>init_db = (\<lambda>_ wd. (Inr (), wd)),
      pool_get = (\<lambda>_ _. Inr ()),
      session_is_unlocked = (\<lambda>_ w wd. Inr (list_ex (\<lambda>v. v = w) wd)),
      session_unlock = (\<lambda>_ w pw wd.
        if pw = lit ''pw'' then (Inr (), w # wd)
        else (Inl \<lparr>db_kind = DbDecryptionFailed, db_text = lit ''bad''\<rparr>, wd)),
      session_lock = (\<lambda>w wd. filter (\<lambda>v. v \<noteq> w) wd),
      get_account_by_name = (\<lambda>_ _ _. Inr (Some ())),
      verify_passphrase = (\<lambda>_ pw.
        if pw = lit ''pw'' then Inr ()
        else Inl \<lparr>db_kind = DbDecryptionFailed, db_text = lit ''bad''\<rparr>),
      find_expired_pending_transactions = (\<lambda>_ _. Inr []),
      expire_and_unlock_pending_transaction = (\<lambda>_ _ wd. (Inr False, wd)),
      wal_checkpoint_truncate = (\<lambda>_ wd. (Inr 0, wd))\<rparr>"

lemma listed_minotari_hom:
  "minotari_hom set (\<lambda>u. u) (\<lambda>u. u) (\<lambda>u. u) listed_minotari example_minotari"
  by (auto simp: minotari_hom_def listed_minotari_def example_minotari_def list_ex_iff)

theorem sessions_follow_the_contract_witness:
  "unlock_wallet alone example_minotari (lit ''db'') (lit ''w'') (lit ''pw'')
      (abs_bridge set (\<lambda>u. u) (init_bridge [lit ''v'', lit ''v''])) =
    map_prod id (abs_bridge set (\<lambda>u. u))
      (unlock_wallet alone listed_minotari (lit ''db'') (lit ''w'') (lit ''pw'') (init_bridge [lit ''v'', lit ''v'']))"
  using sessions_follow_the_contract [OF listed_minotari_hom env_hom_alone] by blast

end
