(* ===== verification/Tests_Sessions.thy ===== *)
theory Tests_Sessions
  imports Session_Contract "HOL-Library.Code_Target_Nat"
begin

text \<open>
  The unit tests of the wallet sessions (\<open>mod tests\<close> of \<open>src/api/db.rs\<close>), each translated
  statement by statement to a procedure over the model, with the test's name. They pass on a
  small reference minotari, where they are evaluated, and so, by the simulation of
  \<open>Session_Contract\<close>, on every minotari that reference abstracts.
\<close>

section \<open>What a test does\<close>

text \<open>
  A test ends at the first failed assertion or \<open>unwrap\<close>. The result an \<open>unwrap\<close> takes an error
  from is the step itself; \<open>unwrap_err\<close> takes the error; \<open>check\<close> is \<open>assert!\<close>.
\<close>

definition unwrap_err :: "('s, api_error, 'r) proc \<Rightarrow> ('s, api_error, api_error) proc" where
  "unwrap_err m s =
     (case m s of
        (Inl e, s') \<Rightarrow> (Inr e, s')
      | (Inr _, s') \<Rightarrow> (Inl (Anyhow (lit ''unwrap_err of an Ok value'')), s'))"

definition check :: "bool \<Rightarrow> ('s, api_error, unit) proc" where
  "check b = (if b then ret () else fail (Anyhow (lit ''assertion failed'')))"

definition check_err :: "('s, api_error, 'r) proc \<Rightarrow> rstring \<Rightarrow> ('s, api_error, unit) proc" where
  "check_err m text = and_then (unwrap_err m) (\<lambda>e. check (to_string e = text))"

fun run_steps :: "('s, api_error, unit) proc list \<Rightarrow> ('s, api_error, unit) proc" where
  "run_steps [] = ret ()"
| "run_steps (m # ms) = and_then m (\<lambda>_. run_steps ms)"

text \<open>A step whose value the test does not use.\<close>

definition ignore :: "('s, api_error, 'r) proc \<Rightarrow> ('s, api_error, unit) proc" where
  "ignore m = and_then m (\<lambda>_. ret ())"

definition returns :: "('s, api_error, 'r) proc \<Rightarrow> 'r \<Rightarrow> ('s, api_error, unit) proc" where
  "returns m x = and_then m (\<lambda>y. check (y = x))"

lemma hom_unwrap_err [hom_intros]:
  assumes "hom h f m m'"
  shows "hom h (\<lambda>x. x) (unwrap_err m) (unwrap_err m')"
  by (rule homI) (simp add: unwrap_err_def homD [OF assms] split: prod.split sum.split)

lemma hom_check [hom_intros]: "hom h (\<lambda>x. x) (check b) (check b)"
  unfolding check_def by (rule hom_intros)+

lemma hom_check_err [hom_intros]:
  assumes "hom h f m m'"
  shows "hom h (\<lambda>x. x) (check_err m text) (check_err m' text)"
  unfolding check_err_def by (rule hom_intros assms)+

lemma hom_run_steps [hom_intros]:
  "list_all2 (hom h (\<lambda>x. x)) ms ms' \<Longrightarrow> hom h (\<lambda>x. x) (run_steps ms) (run_steps ms')"
proof (induction rule: list_all2_induct)
  case Nil
  show ?case unfolding run_steps.simps by (rule hom_ret_same)
next
  case (Cons m ms m' ms')
  then show ?case unfolding run_steps.simps by (intro hom_and_then)
qed

lemma hom_ignore [hom_intros]: "hom h f m m' \<Longrightarrow> hom h (\<lambda>x. x) (ignore m) (ignore m')"
  unfolding ignore_def by (rule hom_intros | assumption)+

lemma hom_returns [hom_intros]: "hom h (\<lambda>x. x) m m' \<Longrightarrow> hom h (\<lambda>x. x) (returns m x) (returns m' x)"
  unfolding returns_def by (rule hom_intros | assumption)+

lemma hom_Cons [hom_intros]:
  "hom h (\<lambda>x. x) m m' \<Longrightarrow> list_all2 (hom h (\<lambda>x. x)) ms ms' \<Longrightarrow> list_all2 (hom h (\<lambda>x. x)) (m # ms) (m' # ms')"
  "list_all2 (hom h (\<lambda>x. x)) [] []"
  by (rule list.rel_intros(2) list.rel_intros(1) | assumption)+

section \<open>Test support of the crate\<close>

text \<open>
  What the tests use of minotari and SQLite beside what the crate does: creating an account in a
  database, \<open>session::lock_all\<close>, the address of an account row read with a passphrase, a write
  through a connection and the length of a database's write-ahead log.
\<close>

record ('w, 'p, 'c, 'a) test_minotari = "('w, 'p, 'c, 'a) minotari" +
  create_account :: "'c \<Rightarrow> rstring \<Rightarrow> rstring \<Rightarrow> 'w \<Rightarrow> (rstring + unit) \<times> 'w"
  session_lock_all :: "'w \<Rightarrow> 'w"
  row_address :: "'a \<Rightarrow> rstring \<Rightarrow> 'w \<Rightarrow> rstring + rstring"
  conn_execute :: "'c \<Rightarrow> 'w \<Rightarrow> (rstring + unit) \<times> 'w"
  wal_len :: "rstring \<Rightarrow> 'w \<Rightarrow> u64"

definition cancel_all_scans :: "('w, 'p, unit) bridge_api" where
  "cancel_all_scans =
     and_then write_scan_state (\<lambda>_.
     modify (\<lambda>s. let s = upd_scan (\<lambda>st. st\<lparr>starting := fmempty\<rparr>) s in
       s\<lparr>cells := ctl_token ` fset (fmran (running (SCAN_STATE s))) \<union> cells s\<rparr>))"

definition disconnect_database :: "('w, 'p, 'c, 'a, 'm) test_minotari_scheme \<Rightarrow> ('w, 'p, unit) bridge_api" where
  "disconnect_database M =
     and_then cancel_all_scans (\<lambda>_.
     and_then write_db_state (\<lambda>_.
     and_then (modify (upd_db (\<lambda>d. close_pool (d\<lparr>db_sessions := fmempty\<rparr>)))) (\<lambda>_.
     modify (\<lambda>s. s\<lparr>world := session_lock_all M (world s)\<rparr>))))"

definition forget_database_path :: "('w, 'p, unit) bridge_api" where
  "forget_database_path =
     modify (\<lambda>s. if db_poisoned s then s else upd_db (\<lambda>d. d\<lparr>db_path := None\<rparr>) s)"

definition force_remove_entry :: "rstring \<Rightarrow> ('w, 'p, u64 option) bridge_api" where
  "force_remove_entry wallet_name s =
     (if db_poisoned s then ret None s
      else ret (session_generation wallet_name (DB_STATE s))
        (upd_db (\<lambda>d. d\<lparr>db_sessions := fmdrop wallet_name (db_sessions d)\<rparr>) s))"

definition confirm_still_counted_for_test ::
  "('w, 'p) environment \<Rightarrow> ('w, 'p, 'c, 'a, 'm) minotari_scheme \<Rightarrow> rstring \<Rightarrow> u64 \<Rightarrow> ('w, 'p, unit) bridge_api" where
  "confirm_still_counted_for_test env M wallet_name generation =
     and_then (hold_gate env wallet_name) (\<lambda>_. confirm_still_counted M wallet_name generation)"

definition PASSPHRASE :: rstring where
  "PASSPHRASE = lit ''pass''"

definition db_file_in :: "rstring \<Rightarrow> rstring" where
  "db_file_in dir = dir @ lit ''/wallet.db''"

text \<open>\<open>init_db\<close> and \<open>pool.get\<close> in the tests, with the error the test's \<open>unwrap\<close> would show.\<close>

definition test_init_db :: "('w, 'p, 'c, 'a, 'm) minotari_scheme \<Rightarrow> rstring \<Rightarrow> ('w, 'p, 'p) bridge_api" where
  "test_init_db M path = map_err_proc Upstream (on_world (init_db M path))"

definition new_database ::
  "('w, 'p, 'c, 'a, 'm) test_minotari_scheme \<Rightarrow> rstring \<Rightarrow> rstring list \<Rightarrow> ('w, 'p, unit) bridge_api" where
  "new_database M dir wallets =
     and_then (test_init_db M (db_file_in dir)) (\<lambda>pool.
     and_then (get_conn M pool) (\<lambda>conn.
     run_steps (map (\<lambda>name. map_err_proc Upstream (on_world (create_account M conn name PASSPHRASE))) wallets)))"

definition pool_open :: "('w, 'p, bool) bridge_api" where
  "pool_open = and_then read_db_state (\<lambda>d. ret (db_open d \<noteq> None))"

definition unlocked :: "('w, 'p, 'c, 'a, 'm) minotari_scheme \<Rightarrow> rstring \<Rightarrow> ('w, 'p, bool) bridge_api" where
  "unlocked M name = and_then (get_db_connection M) (\<lambda>conn. is_unlocked M conn name)"

definition count :: "rstring \<Rightarrow> ('w, 'p, u32 option) bridge_api" where
  "count w = and_then read_db_state (\<lambda>d. ret (map_option sess_count (fmlookup (db_sessions d) w)))"

definition no_sessions :: "('w, 'p, bool) bridge_api" where
  "no_sessions = and_then read_db_state (\<lambda>d. ret (db_sessions d = fmempty))"

definition generation :: "rstring \<Rightarrow> ('w, 'p, u64 option) bridge_api" where
  "generation w = and_then read_db_state (\<lambda>d. ret (session_generation w d))"

section \<open>Lifecycle\<close>

definition NOT_INITIALIZED :: rstring where
  "NOT_INITIALIZED = lit ''Database is not initialized''"

definition accessors_report_not_initialized_before_init ::
  "('w, 'p, 'c, 'a, 'm) test_minotari_scheme \<Rightarrow> ('w, 'p, unit) bridge_api" where
  "accessors_report_not_initialized_before_init M = run_steps
     [disconnect_database M, forget_database_path,
      check_err (get_db_connection M) NOT_INITIALIZED,
      check_err get_db_path NOT_INITIALIZED,
      check_err (get_db_pool M) NOT_INITIALIZED,
      check_err (checkpoint_database M) NOT_INITIALIZED]"

definition disconnect_is_idempotent_and_closes_the_pool ::
  "('w, 'p, 'c, 'a, 'm) test_minotari_scheme \<Rightarrow> ('w, 'p, unit) bridge_api" where
  "disconnect_is_idempotent_and_closes_the_pool M = run_steps
     [disconnect_database M, disconnect_database M, returns pool_open False]"

definition two_unlocks_need_two_locks ::
  "('w, 'p, 'c, 'a, 'm) test_minotari_scheme \<Rightarrow> rstring \<Rightarrow> ('w, 'p, unit) bridge_api" where
  "two_unlocks_need_two_locks M dir = (let w = lit ''db-twice''; path = db_file_in dir in run_steps
     [disconnect_database M, new_database M dir [w],
      unlock_wallet alone M path w PASSPHRASE, unlock_wallet alone M path w PASSPHRASE,
      returns (lock_wallet alone M w) False, returns pool_open True, returns (unlocked M w) True,
      returns (lock_wallet alone M w) True, returns pool_open False, returns (unlocked M w) False,
      returns (lock_wallet alone M w) False])"

definition a_wrong_passphrase_is_refused_while_unlocked ::
  "('w, 'p, 'c, 'a, 'm) test_minotari_scheme \<Rightarrow> rstring \<Rightarrow> ('w, 'p, unit) bridge_api" where
  "a_wrong_passphrase_is_refused_while_unlocked M dir = (let w = lit ''db-verify''; path = db_file_in dir in run_steps
     [disconnect_database M, new_database M dir [w],
      unlock_wallet alone M path w PASSPHRASE,
      check_err (unlock_wallet alone M path w (lit ''wrong'')) (lit ''Invalid Passphrase''),
      returns (count w) (Some 1), returns (unlocked M w) True,
      unlock_wallet alone M path w PASSPHRASE, returns (count w) (Some 2),
      force_lock_wallet alone M w])"

section \<open>Races\<close>

text \<open>The sections of a force lock: the entry goes, then the session and the scans.\<close>

definition force_lock_state_step :: "rstring \<Rightarrow> ('w, 'p, unit) bridge_api" where
  "force_lock_state_step w = and_then write_db_state (\<lambda>_. modify (upd_db (remove_session w)))"

definition force_lock_rest ::
  "('w, 'p) environment \<Rightarrow> ('w, 'p, 'c, 'a, 'm) minotari_scheme \<Rightarrow> rstring \<Rightarrow> ('w, 'p, unit) bridge_api" where
  "force_lock_rest env M w =
     and_then (lock_session_unless_held_async env M w) (\<lambda>_. stop_wallet_scans env w)"

lemma force_lock_sections:
  "force_lock_wallet env M w = and_then (force_lock_state_step w) (\<lambda>_. force_lock_rest env M w)"
  by (simp add: force_lock_wallet_def lock_wallet_everywhere_def force_lock_state_step_def
      force_lock_rest_def and_then_assoc)

definition take_count :: "rstring \<Rightarrow> ('w, 'p, u64) bridge_api" where
  "take_count w = and_then write_db_state (\<lambda>_ s.
     case acquire_session w (DB_STATE s) of (g, d) \<Rightarrow> ret g (s\<lparr>DB_STATE := d\<rparr>))"

text \<open>
  The unlock has counted and waits for the gate, the force lock has removed the count and waits
  too; \<open>unlock_first\<close> says who gets the gate. The sections are those \<open>unlock_wallet_sections\<close> and
  \<open>force_lock_sections\<close> compose the two calls of.
\<close>

definition a_force_lock_during_an_unlock_wins ::
  "('w, 'p, 'c, 'a, 'm) test_minotari_scheme \<Rightarrow> bool \<Rightarrow> rstring \<Rightarrow> ('w, 'p, unit) bridge_api" where
  "a_force_lock_during_an_unlock_wins M unlock_first dir =
     (let w = lit ''db-force-race''; path = db_file_in dir in run_steps
     [disconnect_database M, new_database M dir [w],
      and_then (unlock_begin M path w) (\<lambda>counted. run_steps
        [returns (count w) (Some 1), force_lock_state_step w, returns (count w) None, returns pool_open False,
         (if unlock_first
          then run_steps [check_err (unlock_finish M w PASSPHRASE counted) (lit ''Wallet is locked''),
                          force_lock_rest alone M w]
          else run_steps [force_lock_rest alone M w,
                          check_err (unlock_finish M w PASSPHRASE counted) (lit ''Wallet is locked'')]),
         returns (count w) None, returns pool_open False,
         and_then (test_init_db M path) (\<lambda>pool. and_then (get_conn M pool) (\<lambda>conn.
           returns (is_unlocked M conn w) False))])])"

definition a_force_lock_loser_leaves_a_newer_holders_session ::
  "('w, 'p, 'c, 'a, 'm) test_minotari_scheme \<Rightarrow> rstring \<Rightarrow> ('w, 'p, unit) bridge_api" where
  "a_force_lock_loser_leaves_a_newer_holders_session M dir =
     (let w = lit ''db-not-fifo''; path = db_file_in dir in run_steps
     [disconnect_database M, new_database M dir [w],
      and_then (take_count w) (\<lambda>b. run_steps
        [ignore (force_remove_entry w),
         unlock_wallet alone M path w PASSPHRASE,
         and_then (generation w) (\<lambda>g. check (g \<noteq> Some b)),
         check_err (confirm_still_counted_for_test alone M w b) (lit ''Wallet is locked''),
         returns (count w) (Some 1), returns (unlocked M w) True, returns pool_open True]),
      returns (lock_wallet alone M w) True, returns pool_open False])"

definition force_lock_releases_every_holder ::
  "('w, 'p, 'c, 'a, 'm) test_minotari_scheme \<Rightarrow> rstring \<Rightarrow> ('w, 'p, unit) bridge_api" where
  "force_lock_releases_every_holder M dir =
     (let w = lit ''db-force''; v = lit ''db-force-other''; path = db_file_in dir in run_steps
     [disconnect_database M, new_database M dir [w, v],
      unlock_wallet alone M path w PASSPHRASE, unlock_wallet alone M path w PASSPHRASE,
      unlock_wallet alone M path v PASSPHRASE,
      force_lock_wallet alone M w,
      returns (count w) None, returns (unlocked M w) False, returns pool_open True, returns (unlocked M v) True,
      force_lock_wallet alone M v, returns pool_open False,
      force_lock_wallet alone M w])"

text \<open>The account of this test is made with the empty passphrase.\<close>

definition a_key_read_after_the_session_is_gone_is_locked ::
  "('w, 'p, 'c, 'a, 'm) test_minotari_scheme \<Rightarrow> rstring \<Rightarrow> ('w, 'p, unit) bridge_api" where
  "a_key_read_after_the_session_is_gone_is_locked M dir =
     (let w = lit ''db-empty''; path = db_file_in dir in
      and_then (disconnect_database M) (\<lambda>_.
      and_then (test_init_db M path) (\<lambda>pool.
      and_then (get_conn M pool) (\<lambda>conn.
      and_then (map_err_proc Upstream (on_world (create_account M conn w []))) (\<lambda>_.
      and_then (\<lambda>s. (map_err (\<lambda>e. Upstream (db_text e)) (get_account_by_name M conn w (world s)), s)) (\<lambda>row.
      and_then (lift_res (ok_or (Anyhow (lit ''unwrap of None'')) row)) (\<lambda>account.
        let read = (\<lambda>s. (map_err Upstream (row_address M account [] (world s)), s)) in
        run_steps
          [ignore read,
           check_err (with_session M conn w read) (lit ''Wallet is locked''),
           unlock_wallet alone M path w [],
           ignore (with_session M conn w read),
           ignore (lock_wallet alone M w)])))))))"

definition unlock_after_the_last_lock_reopens_the_pool ::
  "('w, 'p, 'c, 'a, 'm) test_minotari_scheme \<Rightarrow> rstring \<Rightarrow> ('w, 'p, unit) bridge_api" where
  "unlock_after_the_last_lock_reopens_the_pool M dir =
     (let a = lit ''db-reopen-a''; b = lit ''db-reopen-b''; path = db_file_in dir in run_steps
     [disconnect_database M, new_database M dir [a, b],
      unlock_wallet alone M path a PASSPHRASE, unlock_wallet alone M path b PASSPHRASE,
      ignore (lock_wallet alone M a),
      returns pool_open True, returns (unlocked M a) False, returns (unlocked M b) True,
      ignore (lock_wallet alone M b), returns pool_open False,
      unlock_wallet alone M path a PASSPHRASE, returns pool_open True, returns (unlocked M a) True,
      ignore (lock_wallet alone M a), ignore (lock_wallet alone M a)])"

definition a_failed_unlock_holds_nothing ::
  "('w, 'p, 'c, 'a, 'm) test_minotari_scheme \<Rightarrow> rstring \<Rightarrow> ('w, 'p, unit) bridge_api" where
  "a_failed_unlock_holds_nothing M dir = (let path = db_file_in dir in run_steps
     [disconnect_database M, new_database M dir [lit ''db-wrong''],
      check_err (unlock_wallet alone M path (lit ''db-wrong'') (lit ''nope'')) (lit ''Invalid Passphrase''),
      check_err (unlock_wallet alone M path (lit ''db-missing'') PASSPHRASE)
        (lit ''No accounts found for this wallet''),
      returns pool_open False,
      returns no_sessions True])"

definition interrupted_unlock_is_locked :: "rstring \<Rightarrow> bool" where
  "interrupted_unlock_is_locked t \<longleftrightarrow>
     to_string (map_unlock_error \<lparr>db_kind = DbNotUnlocked, db_text = t\<rparr>) = lit ''Wallet is locked'' \<and>
     to_string (map_unlock_error \<lparr>db_kind = DbInvalidPassphrase, db_text = t\<rparr>) = lit ''Invalid Passphrase'' \<and>
     to_string (map_unlock_error \<lparr>db_kind = DbInvalidInput, db_text = t\<rparr>) =
       lit ''No accounts found for this wallet''"

definition some_generation :: "rstring \<Rightarrow> ('w, 'p, u64) bridge_api" where
  "some_generation w = and_then (generation w) (\<lambda>g. lift_res (ok_or (Anyhow (lit ''unwrap of None'')) g))"

definition a_failed_unlock_does_not_release_a_newer_holder ::
  "('w, 'p, 'c, 'a, 'm) test_minotari_scheme \<Rightarrow> rstring \<Rightarrow> ('w, 'p, unit) bridge_api" where
  "a_failed_unlock_does_not_release_a_newer_holder M dir =
     (let w = lit ''db-race''; path = db_file_in dir in run_steps
     [disconnect_database M, new_database M dir [w],
      unlock_wallet alone M path w PASSPHRASE,
      and_then (some_generation w) (\<lambda>engine1. run_steps
        [ignore (lock_wallet alone M w), returns pool_open False,
         unlock_wallet alone M path w PASSPHRASE,
         and_then (some_generation w) (\<lambda>engine2. run_steps
           [check (engine1 \<noteq> engine2),
            release_failed_unlock M w engine1,
            returns pool_open True, returns (unlocked M w) True, returns (count w) (Some 1),
            unlock_wallet alone M path w PASSPHRASE,
            returns (generation w) (Some engine2),
            release_failed_unlock M w engine2,
            returns (count w) (Some 1), returns (unlocked M w) True])]),
      ignore (lock_wallet alone M w), returns pool_open False])"

definition a_different_path_while_unlocked_is_refused ::
  "('w, 'p, 'c, 'a, 'm) test_minotari_scheme \<Rightarrow> rstring \<Rightarrow> rstring \<Rightarrow> ('w, 'p, unit) bridge_api" where
  "a_different_path_while_unlocked_is_refused M dir other_dir =
     (let w = lit ''db-path''; v = lit ''db-path-other''; path = db_file_in dir; other = db_file_in other_dir in run_steps
     [disconnect_database M, new_database M dir [w], new_database M other_dir [v],
      unlock_wallet alone M path w PASSPHRASE,
      and_then (unwrap_err (unlock_wallet alone M other v PASSPHRASE)) (\<lambda>e.
        check (str_contains (to_string e) (lit ''Another database is open''))),
      ignore (unwrap_err (set_database_path other)),
      set_database_path path,
      ignore (lock_wallet alone M w)])"

definition checkpoint_truncates_the_wal_with_or_without_a_session ::
  "('w, 'p, 'c, 'a, 'm) test_minotari_scheme \<Rightarrow> rstring \<Rightarrow> ('w, 'p, unit) bridge_api" where
  "checkpoint_truncates_the_wal_with_or_without_a_session M dir =
     (let w = lit ''db-checkpoint''; path = db_file_in dir;
          wal = (\<lambda>P. and_then (gets (\<lambda>s. P (wal_len M path (world s)))) check) in run_steps
     [disconnect_database M, new_database M dir [w],
      set_database_path path,
      and_then (get_db_connection M) (\<lambda>conn. run_steps
        [map_err_proc Upstream (on_world (conn_execute M conn)),
         wal (\<lambda>n. n > 0), checkpoint_database M, wal (\<lambda>n. n = 0),
         unlock_wallet alone M path w PASSPHRASE,
         map_err_proc Upstream (on_world (conn_execute M conn)),
         wal (\<lambda>n. n > 0), checkpoint_database M, wal (\<lambda>n. n = 0)]),
      ignore (lock_wallet alone M w)])"

section \<open>A reference minotari\<close>

text \<open>
  Databases are files with accounts, each a name and a passphrase; the key sessions are a set of
  names. An unlock checks the passphrase unless there is a session already; reading a row's
  address works with its passphrase or its session; a write leaves one frame in the log of its
  database until a checkpoint. \<open>ref_nonce\<close> is where random numbers come from. A connection is its database's path, and the texts of minotari's
  two errors are arguments.
\<close>

record ref_world =
  ref_accounts :: "(rstring \<times> rstring \<times> rstring) list"
  ref_sessions :: "rstring set"
  ref_wal :: "rstring list"
  ref_nonce :: nat

fun find_pass :: "rstring \<Rightarrow> rstring \<Rightarrow> (rstring \<times> rstring \<times> rstring) list \<Rightarrow> rstring option" where
  "find_pass path w [] = None"
| "find_pass path w ((p, v, pw) # rows) = (if p = path \<and> v = w then Some pw else find_pass path w rows)"

definition reference_minotari ::
  "rstring \<Rightarrow> rstring \<Rightarrow> (ref_world, rstring, rstring, rstring \<times> rstring) test_minotari" where
  "reference_minotari bad missing =
     \<lparr>init_db = (\<lambda>path wd. (Inr path, wd)),
      pool_get = (\<lambda>p _. Inr p),
      session_is_unlocked = (\<lambda>_ w wd. Inr (w \<in> ref_sessions wd)),
      session_unlock = (\<lambda>c w pw wd.
        case find_pass c w (ref_accounts wd) of
          None \<Rightarrow> (Inl \<lparr>db_kind = DbInvalidInput, db_text = missing\<rparr>, wd)
        | Some pass \<Rightarrow>
            if w \<in> ref_sessions wd \<or> pw = pass then (Inr (), wd\<lparr>ref_sessions := insert w (ref_sessions wd)\<rparr>)
            else (Inl \<lparr>db_kind = DbDecryptionFailed, db_text = bad\<rparr>, wd)),
      session_lock = (\<lambda>w wd. wd\<lparr>ref_sessions := ref_sessions wd - {w}\<rparr>),
      get_account_by_name = (\<lambda>c w wd. Inr (map_option (Pair w) (find_pass c w (ref_accounts wd)))),
      verify_passphrase = (\<lambda>row pw. if pw = snd row then Inr ()
        else Inl \<lparr>db_kind = DbDecryptionFailed, db_text = bad\<rparr>),
      find_expired_pending_transactions = (\<lambda>_ _. Inr []),
      expire_and_unlock_pending_transaction = (\<lambda>_ _ wd. (Inr False, wd)),
      wal_checkpoint_truncate = (\<lambda>c wd. (Inr 0, wd\<lparr>ref_wal := filter (\<lambda>p. p \<noteq> c) (ref_wal wd)\<rparr>)),
      create_account = (\<lambda>c w pw wd. (Inr (), wd\<lparr>ref_accounts := (c, w, pw) # ref_accounts wd\<rparr>)),
      session_lock_all = (\<lambda>wd. wd\<lparr>ref_sessions := {}\<rparr>),
      row_address = (\<lambda>row pw wd. if pw = snd row \<or> fst row \<in> ref_sessions wd then Inr (fst row) else Inl bad),
      conn_execute = (\<lambda>c wd. (Inr (), wd\<lparr>ref_wal := c # ref_wal wd\<rparr>)),
      wal_len = (\<lambda>path wd. if path \<in> set (ref_wal wd) then 1 else 0)\<rparr>"

definition passes :: "('w, 'p, unit) bridge_api \<Rightarrow> ('w, 'p) bridge \<Rightarrow> bool" where
  "passes test s \<longleftrightarrow> fst (test s) = Inr ()"

definition fresh_process :: "(ref_world, rstring) bridge" where
  "fresh_process = init_bridge \<lparr>ref_accounts = [], ref_sessions = {}, ref_wal = [], ref_nonce = 0\<rparr>"

lemma reference_passes_1:
  "passes (accessors_report_not_initialized_before_init (reference_minotari bad missing)) fresh_process"
  "passes (disconnect_is_idempotent_and_closes_the_pool (reference_minotari bad missing)) fresh_process"
  "passes (two_unlocks_need_two_locks (reference_minotari bad missing) (lit ''/tmp/a'')) fresh_process"
  "passes (a_wrong_passphrase_is_refused_while_unlocked (reference_minotari bad missing) (lit ''/tmp/a'')) fresh_process"
  by code_simp+

lemma reference_passes_2:
  "passes (a_force_lock_during_an_unlock_wins (reference_minotari bad missing) True (lit ''/tmp/a'')) fresh_process"
  "passes (a_force_lock_during_an_unlock_wins (reference_minotari bad missing) False (lit ''/tmp/a'')) fresh_process"
  "passes (a_force_lock_loser_leaves_a_newer_holders_session (reference_minotari bad missing) (lit ''/tmp/a'')) fresh_process"
  "passes (force_lock_releases_every_holder (reference_minotari bad missing) (lit ''/tmp/a'')) fresh_process"
  "passes (a_key_read_after_the_session_is_gone_is_locked (reference_minotari bad missing) (lit ''/tmp/a'')) fresh_process"
  by code_simp+

lemma reference_passes_3:
  "passes (unlock_after_the_last_lock_reopens_the_pool (reference_minotari bad missing) (lit ''/tmp/a'')) fresh_process"
  "passes (a_failed_unlock_holds_nothing (reference_minotari bad missing) (lit ''/tmp/a'')) fresh_process"
  "passes (a_failed_unlock_does_not_release_a_newer_holder (reference_minotari bad missing) (lit ''/tmp/a'')) fresh_process"
  "passes (a_different_path_while_unlocked_is_refused (reference_minotari bad missing) (lit ''/tmp/a'') (lit ''/tmp/b'')) fresh_process"
  "passes (checkpoint_truncates_the_wal_with_or_without_a_session (reference_minotari bad missing) (lit ''/tmp/a'')) fresh_process"
  "interrupted_unlock_is_locked t"
  by code_simp+

section \<open>Any minotari the reference abstracts\<close>

definition test_hom ::
  "('w \<Rightarrow> 'v) \<Rightarrow> ('p \<Rightarrow> 'q) \<Rightarrow> ('c \<Rightarrow> 'd) \<Rightarrow> ('a \<Rightarrow> 'b) \<Rightarrow>
     ('w, 'p, 'c, 'a, 'm) test_minotari_scheme \<Rightarrow> ('v, 'q, 'd, 'b, 'n) test_minotari_scheme \<Rightarrow> bool" where
  "test_hom hw hp hc ha M M' \<longleftrightarrow>
     minotari_hom hw hp hc ha M M' \<and>
     (\<forall>c w pw wd. create_account M' (hc c) w pw (hw wd) = map_prod id hw (create_account M c w pw wd)) \<and>
     (\<forall>wd. session_lock_all M' (hw wd) = hw (session_lock_all M wd)) \<and>
     (\<forall>a pw wd. row_address M' (ha a) pw (hw wd) = row_address M a pw wd) \<and>
     (\<forall>c wd. conn_execute M' (hc c) (hw wd) = map_prod id hw (conn_execute M c wd)) \<and>
     (\<forall>path wd. wal_len M' path (hw wd) = wal_len M path wd)"

lemma test_homD:
  assumes "test_hom hw hp hc ha M M'"
  shows "minotari_hom hw hp hc ha M M'"
    "create_account M' (hc c) w pw (hw wd) = map_prod id hw (create_account M c w pw wd)"
    "session_lock_all M' (hw wd) = hw (session_lock_all M wd)"
    "row_address M' (ha a) pw (hw wd) = row_address M a pw wd"
    "conn_execute M' (hc c) (hw wd) = map_prod id hw (conn_execute M c wd)"
    "wal_len M' path (hw wd) = wal_len M path wd"
  using assms by (simp_all add: test_hom_def)

lemma hom_test_globals [hom_intros]:
  "hom (abs_bridge hw hp) (\<lambda>x. x) cancel_all_scans cancel_all_scans"
  "hom (abs_bridge hw hp) (\<lambda>x. x) forget_database_path forget_database_path"
  "hom (abs_bridge hw hp) (\<lambda>x. x) (force_remove_entry w) (force_remove_entry w)"
  "hom (abs_bridge hw hp) (\<lambda>x. x) (take_count w) (take_count w)"
  "hom (abs_bridge hw hp) (\<lambda>x. x) pool_open pool_open"
  "hom (abs_bridge hw hp) (\<lambda>x. x) no_sessions no_sessions"
  "hom (abs_bridge hw hp) (\<lambda>x. x) (count w) (count w)"
  "hom (abs_bridge hw hp) (\<lambda>x. x) (generation w) (generation w)"
  "hom (abs_bridge hw hp) (\<lambda>x. x) (force_lock_state_step w) (force_lock_state_step w)"
proof -
  show "hom (abs_bridge hw hp) (\<lambda>x. x) cancel_all_scans cancel_all_scans"
    by (rule homI) (simp add: cancel_all_scans_def proc_simps Let_def abs_bridge_cells abs_bridge_updates)
  show "hom (abs_bridge hw hp) (\<lambda>x. x) forget_database_path forget_database_path"
    "hom (abs_bridge hw hp) (\<lambda>x. x) (force_remove_entry w) (force_remove_entry w)"
    by (rule homI; simp add: forget_database_path_def force_remove_entry_def proc_simps
        session_generation_def upd_db_def abs_bridge_def abs_db_def)+
  show "hom (abs_bridge hw hp) (\<lambda>x. x) (take_count w) (take_count w)"
    by (rule homI) (simp add: take_count_def acquire_session_abs proc_simps abs_bridge_updates split: prod.split)
  show "hom (abs_bridge hw hp) (\<lambda>x. x) pool_open pool_open"
    "hom (abs_bridge hw hp) (\<lambda>x. x) no_sessions no_sessions"
    "hom (abs_bridge hw hp) (\<lambda>x. x) (count w) (count w)"
    "hom (abs_bridge hw hp) (\<lambda>x. x) (generation w) (generation w)"
    by (rule homI; simp add: pool_open_def no_sessions_def count_def generation_def session_generation_def proc_simps)+
  show "hom (abs_bridge hw hp) (\<lambda>x. x) (force_lock_state_step w) (force_lock_state_step w)"
    unfolding force_lock_state_step_def by (rule hom_intros hom_upd_db remove_session_abs)+
qed

lemma hom_some_generation [hom_intros]:
  "hom (abs_bridge hw hp) (\<lambda>x. x) (some_generation w) (some_generation w)"
  unfolding some_generation_def by (rule hom_intros)+

lemma hom_test_steps [hom_intros]:
  assumes M: "minotari_hom hw hp hc ha M M'"
  shows "hom (abs_bridge hw hp) hp (test_init_db M path) (test_init_db M' path)"
    "hom (abs_bridge hw hp) (\<lambda>x. x) (unlocked M w) (unlocked M' w)"
    "hom (abs_bridge hw hp) (\<lambda>x. x) (force_lock_rest alone M w) (force_lock_rest alone M' w)"
    "hom (abs_bridge hw hp) (\<lambda>x. x) (confirm_still_counted_for_test alone M w g)
      (confirm_still_counted_for_test alone M' w g)"
  unfolding test_init_db_def unlocked_def force_lock_rest_def lock_session_unless_held_async_def
    lock_session_unless_held_def hold_gate_def confirm_still_counted_for_test_def
  by (rule hom_intros hom_on_world env_hom_alone minotari_homD(1) [OF M] M)+

lemma hom_test_database [hom_intros]:
  assumes T: "test_hom hw hp hc ha M M'"
  shows "hom (abs_bridge hw hp) (\<lambda>x. x) (disconnect_database M) (disconnect_database M')"
    "hom (abs_bridge hw hp) (\<lambda>x. x) (map_err_proc Upstream (on_world (create_account M conn w pw)))
      (map_err_proc Upstream (on_world (create_account M' (hc conn) w pw)))"
    "hom (abs_bridge hw hp) (\<lambda>x. x) (map_err_proc Upstream (on_world (conn_execute M conn)))
      (map_err_proc Upstream (on_world (conn_execute M' (hc conn))))"
    "hom (abs_bridge hw hp) (\<lambda>x. x) (new_database M dir ws) (new_database M' dir ws)"
proof -
  show "hom (abs_bridge hw hp) (\<lambda>x. x) (disconnect_database M) (disconnect_database M')"
    unfolding disconnect_database_def
    by (rule hom_intros hom_upd_db hom_modify
        | simp add: close_pool_def abs_db_def test_homD(3) [OF T] abs_bridge_updates)+
  show create: "hom (abs_bridge hw hp) (\<lambda>x. x) (map_err_proc Upstream (on_world (create_account M conn w pw)))
      (map_err_proc Upstream (on_world (create_account M' (hc conn) w pw)))" for conn w pw
    by (rule hom_intros hom_on_world_same test_homD [OF T])+
  show "hom (abs_bridge hw hp) (\<lambda>x. x) (map_err_proc Upstream (on_world (conn_execute M conn)))
      (map_err_proc Upstream (on_world (conn_execute M' (hc conn))))"
    by (rule hom_intros hom_on_world_same test_homD [OF T])+
  have creates: "list_all2 (hom (abs_bridge hw hp) (\<lambda>x. x))
      (map (\<lambda>w. map_err_proc Upstream (on_world (create_account M conn w PASSPHRASE))) ws)
      (map (\<lambda>w. map_err_proc Upstream (on_world (create_account M' (hc conn) w PASSPHRASE))) ws)" for conn
  proof (induction ws)
    case (Cons w ws)
    show ?case unfolding list.map by (rule hom_Cons create Cons.IH)+
  qed simp
  show "hom (abs_bridge hw hp) (\<lambda>x. x) (new_database M dir ws) (new_database M' dir ws)"
    unfolding new_database_def by (rule creates hom_intros test_homD(1) [OF T])+
qed

text \<open>Every test, with directories of its own where it makes databases.\<close>

definition db_tests ::
  "('w, 'p, 'c, 'a, 'm) test_minotari_scheme \<Rightarrow> ('w, 'p, unit) bridge_api list" where
  "db_tests M = (let a = lit ''/tmp/a'' in
     [accessors_report_not_initialized_before_init M,
      disconnect_is_idempotent_and_closes_the_pool M,
      two_unlocks_need_two_locks M a,
      a_wrong_passphrase_is_refused_while_unlocked M a,
      a_force_lock_during_an_unlock_wins M True a,
      a_force_lock_during_an_unlock_wins M False a,
      a_force_lock_loser_leaves_a_newer_holders_session M a,
      force_lock_releases_every_holder M a,
      a_key_read_after_the_session_is_gone_is_locked M a,
      unlock_after_the_last_lock_reopens_the_pool M a,
      a_failed_unlock_holds_nothing M a,
      a_failed_unlock_does_not_release_a_newer_holder M a,
      a_different_path_while_unlocked_is_refused M a (lit ''/tmp/b''),
      checkpoint_truncates_the_wal_with_or_without_a_session M a])"

lemma reference_passes:
  "list_all (\<lambda>test. passes test fresh_process) (db_tests (reference_minotari bad missing))"
  unfolding db_tests_def Let_def list.pred_inject(2)
  by (intro conjI list.pred_inject(1) reference_passes_1 reference_passes_2 reference_passes_3)

lemmas db_test_defs =
  accessors_report_not_initialized_before_init_def disconnect_is_idempotent_and_closes_the_pool_def
  two_unlocks_need_two_locks_def a_wrong_passphrase_is_refused_while_unlocked_def
  a_force_lock_loser_leaves_a_newer_holders_session_def
  force_lock_releases_every_holder_def unlock_after_the_last_lock_reopens_the_pool_def
  a_failed_unlock_holds_nothing_def a_failed_unlock_does_not_release_a_newer_holder_def
  a_different_path_while_unlocked_is_refused_def

lemma hom_force_race_test [hom_intros]:
  assumes T: "test_hom hw hp hc ha M M'"
  shows "hom (abs_bridge hw hp) (\<lambda>x. x) (a_force_lock_during_an_unlock_wins M unlock_first dir)
    (a_force_lock_during_an_unlock_wins M' unlock_first dir)"
  unfolding a_force_lock_during_an_unlock_wins_def Let_def
  by (rule hom_intros env_hom_alone T test_homD(1) [OF T])+

lemma hom_key_read_test [hom_intros]:
  assumes T: "test_hom hw hp hc ha M M'"
  shows "hom (abs_bridge hw hp) (\<lambda>x. x) (a_key_read_after_the_session_is_gone_is_locked M dir)
    (a_key_read_after_the_session_is_gone_is_locked M' dir)"
proof -
  note M = test_homD(1) [OF T]
  have row: "hom (abs_bridge hw hp) (map_option ha)
      (\<lambda>s. (map_err (\<lambda>e. Upstream (db_text e)) (get_account_by_name M conn w (world s)), s))
      (\<lambda>s. (map_err (\<lambda>e. Upstream (db_text e)) (get_account_by_name M' (hc conn) w (world s)), s))" for conn w
    by (rule homI) (simp add: minotari_homD [OF M] map_sum_map_err)
  have read: "hom (abs_bridge hw hp) (\<lambda>x. x) (\<lambda>s. (map_err Upstream (row_address M account [] (world s)), s))
      (\<lambda>s. (map_err Upstream (row_address M' (ha account) [] (world s)), s))" for account
    by (rule homI) (simp add: test_homD(4) [OF T])
  show ?thesis
    unfolding a_key_read_after_the_session_is_gone_is_locked_def Let_def
    by (rule row read hom_intros env_hom_alone T M)+
qed

lemma hom_checkpoint_test [hom_intros]:
  assumes T: "test_hom hw hp hc ha M M'"
  shows "hom (abs_bridge hw hp) (\<lambda>x. x) (checkpoint_truncates_the_wal_with_or_without_a_session M dir)
    (checkpoint_truncates_the_wal_with_or_without_a_session M' dir)"
proof -
  have wal: "hom (abs_bridge hw hp) (\<lambda>x. x) (and_then (gets (\<lambda>s. P (wal_len M path (world s)))) check)
      (and_then (gets (\<lambda>s. P (wal_len M' path (world s)))) check)" for P path
    by (rule homI) (simp add: proc_simps test_homD(6) [OF T] check_def)
  show ?thesis
    unfolding checkpoint_truncates_the_wal_with_or_without_a_session_def Let_def
    by (rule wal hom_intros env_hom_alone T test_homD(1) [OF T])+
qed

lemma hom_db_tests:
  assumes T: "test_hom hw hp hc ha M M'"
  shows "list_all2 (hom (abs_bridge hw hp) (\<lambda>x. x)) (db_tests M) (db_tests M')"
  unfolding db_tests_def db_test_defs Let_def
  by (rule hom_intros env_hom_alone T test_homD(1) [OF T])+

lemma passes_hom: "hom h (\<lambda>x. x) m m' \<Longrightarrow> fst (m' (h s)) = fst (m s)"
  using hom_same_result [of h m m' s] by simp


text \<open>
  A minotari with more in its world than the reference keeps (the number of calls it has
  answered), pools that are numbered and account rows that carry an id.
\<close>

definition counting_minotari ::
  "(nat \<times> ref_world, nat \<times> rstring, rstring, nat \<times> rstring \<times> rstring) test_minotari" where
  "counting_minotari =
     (let R = reference_minotari (lit ''bad'') (lit ''missing'') in
     \<lparr>init_db = (\<lambda>path (n, wd). (map_sum id (Pair n) (fst (init_db R path wd)), (n + 1, snd (init_db R path wd)))),
      pool_get = (\<lambda>p (n, wd). pool_get R (snd p) wd),
      session_is_unlocked = (\<lambda>c w (n, wd). session_is_unlocked R c w wd),
      session_unlock = (\<lambda>c w pw (n, wd). map_prod id (Pair (n + 1)) (session_unlock R c w pw wd)),
      session_lock = (\<lambda>w (n, wd). (n + 1, session_lock R w wd)),
      get_account_by_name = (\<lambda>c w (n, wd). map_sum id (map_option (Pair 7)) (get_account_by_name R c w wd)),
      verify_passphrase = (\<lambda>row pw. verify_passphrase R (snd row) pw),
      find_expired_pending_transactions = (\<lambda>c (n, wd). find_expired_pending_transactions R c wd),
      expire_and_unlock_pending_transaction = (\<lambda>c i (n, wd).
        map_prod id (Pair n) (expire_and_unlock_pending_transaction R c i wd)),
      wal_checkpoint_truncate = (\<lambda>c (n, wd). map_prod id (Pair n) (wal_checkpoint_truncate R c wd)),
      create_account = (\<lambda>c w pw (n, wd). map_prod id (Pair (n + 1)) (create_account R c w pw wd)),
      session_lock_all = (\<lambda>(n, wd). (n, session_lock_all R wd)),
      row_address = (\<lambda>row pw (n, wd). row_address R (snd row) pw wd),
      conn_execute = (\<lambda>c (n, wd). map_prod id (Pair n) (conn_execute R c wd)),
      wal_len = (\<lambda>path (n, wd). wal_len R path wd)\<rparr>)"

lemma counting_minotari_hom:
  "test_hom snd snd (\<lambda>c. c) snd counting_minotari (reference_minotari (lit ''bad'') (lit ''missing''))"
  by (simp add: test_hom_def minotari_hom_def counting_minotari_def Let_def prod_eq_iff
      sum.map_comp option.map_comp comp_def sum.map_ident option.map_ident split_beta id_def)


end
