(* ===== verification/Tests_Wallets.thy ===== *)
theory Tests_Wallets
  imports Tests_Sessions Wallet_Api Signing "HOL-Library.List_Lexorder"
begin

text \<open>
  The tests that change a wallet or sign with its session (\<open>mod tests\<close> of \<open>src/api/wallet.rs\<close>, and
  \<open>sign_message_uses_the_session\<close> of \<open>src/api/signing.rs\<close>), in the way of \<open>Tests_Sessions\<close>: they
  pass on the reference minotari, and the changes themselves follow any minotari it abstracts.
\<close>

section \<open>Simulation of the changes\<close>

lemma hom_with_wallet_locked [hom_intros]:
  assumes M: "minotari_hom hw hp hc ha M M'" and env: "env_hom hw hp env env'"
    and change: "\<And>conn. hom (abs_bridge hw hp) (\<lambda>x. x) (change conn) (change' (hc conn))"
  shows "hom (abs_bridge hw hp) (\<lambda>x. x) (with_wallet_locked env M w change) (with_wallet_locked env' M' w change')"
proof -
  have locked: "hom (abs_bridge hw hp) (\<lambda>x. x)
      (and_then (lock_wallet_everywhere env M w) (\<lambda>_. lift_res changed))
      (and_then (lock_wallet_everywhere env' M' w) (\<lambda>_. lift_res changed))" for changed :: "api_error + unit"
    by (rule hom_intros M env)+
  have blocked: "hom (abs_bridge hw hp) (\<lambda>x. x) (blocking env (change conn)) (blocking env' (change' (hc conn)))" for conn
    by (rule hom_intros change env)+
  have body: "hom (abs_bridge hw hp) (\<lambda>x. x)
      (\<lambda>s. case blocking env (change conn) s of (changed, s') \<Rightarrow>
         and_then (lock_wallet_everywhere env M w) (\<lambda>_. lift_res changed) s')
      (\<lambda>s. case blocking env' (change' (hc conn)) s of (changed, s') \<Rightarrow>
         and_then (lock_wallet_everywhere env' M' w) (\<lambda>_. lift_res changed) s')" for conn
    using hom_same_result [OF blocked] homD [OF locked]
    by (intro homI) (simp split: prod.split)
  show ?thesis
    unfolding with_wallet_locked_def by (rule body hom_intros M env)+
qed

text \<open>An abstraction of the functions the changes call of minotari's wallet library.\<close>

definition changes_hom where
  "changes_hom hw hc hr W W' L L' \<longleftrightarrow>
     (\<forall>c w wd. delete_wallet_with_conn W' (hc c) w (hw wd) = map_prod id hw (delete_wallet_with_conn W c w wd)) \<and>
     (\<forall>c w v wd. rename_wallet_with_conn W' (hc c) w v (hw wd) =
        map_prod id hw (rename_wallet_with_conn W c w v wd)) \<and>
     (\<forall>c n wd. get_accounts L' (hc c) n (hw wd) = map_sum id (map hr) (get_accounts L c n wd)) \<and>
     (\<forall>r. friendly_name L' (hr r) = friendly_name L r)"

lemma hom_changes [hom_intros]:
  assumes M: "minotari_hom hw hp hc ha M M'" and env: "env_hom hw hp env env'"
    and W: "changes_hom hw hc ha W W' L L'"
  shows "hom (abs_bridge hw hp) (\<lambda>x. x) (delete_wallet env W M w) (delete_wallet env' W' M' w)"
    "hom (abs_bridge hw hp) (\<lambda>x. x) (rename_wallet env W M w v) (rename_wallet env' W' M' w v)"
    "hom (abs_bridge hw hp) (\<lambda>x. x) (list_wallets L M) (list_wallets L' M')"
proof -
  have calls: "delete_wallet_with_conn W' (hc c) w (hw wd) = map_prod id hw (delete_wallet_with_conn W c w wd)"
    "rename_wallet_with_conn W' (hc c) w v (hw wd) = map_prod id hw (rename_wallet_with_conn W c w v wd)"
    for c w v wd using W by (simp_all add: changes_hom_def)
  show "hom (abs_bridge hw hp) (\<lambda>x. x) (delete_wallet env W M w) (delete_wallet env' W' M' w)"
    "hom (abs_bridge hw hp) (\<lambda>x. x) (rename_wallet env W M w v) (rename_wallet env' W' M' w v)"
    unfolding delete_wallet_def rename_wallet_def
    by (rule hom_intros hom_on_world_same calls M env)+
  have rows: "hom (abs_bridge hw hp) (map ha)
      (map_err_proc g (read_world (get_accounts L conn None)))
      (map_err_proc g (read_world (get_accounts L' (hc conn) None)))" for conn g
    using W by (intro hom_map_err_proc homI)
      (simp add: read_world_def changes_hom_def map_sum_map_err)
  have named: "hom (abs_bridge hw hp) (\<lambda>x. x) (ret (map (friendly_name L) accounts))
      (ret (map (friendly_name L') (map ha accounts)))" for accounts
    using W by (intro hom_ret) (simp add: changes_hom_def)
  show "hom (abs_bridge hw hp) (\<lambda>x. x) (list_wallets L M) (list_wallets L' M')"
    unfolding list_wallets_def by (rule rows named hom_intros M)+
qed

lemma hom_sign_message [hom_intros]:
  assumes M: "minotari_hom hw hp hc ha M M'"
    and sign: "\<And>row msg wd. sign' (ha row) msg (hw wd) = map_prod id hw (sign row msg wd)"
  shows "hom (abs_bridge hw hp) (\<lambda>x. x) (sign_message M sign w msg) (sign_message M' sign' w msg)"
  unfolding sign_message_def by (rule hom_intros hom_on_world_same sign M)+

section \<open>Renaming and deleting (\<open>src/api/wallet.rs\<close>)\<close>

text \<open>\<open>get_account_by_name\<close> and two \<open>unwrap\<close>s; \<open>keys\<close> is what the test compares of a row.\<close>

definition test_account :: "('w, 'p, 'c, 'a, 'm) minotari_scheme \<Rightarrow> 'c \<Rightarrow> rstring \<Rightarrow> ('w, 'p, 'a) bridge_api" where
  "test_account M conn w =
     and_then (\<lambda>s. (map_err (\<lambda>e. Upstream (db_text e)) (get_account_by_name M conn w (world s)), s))
       (\<lambda>row. lift_res (ok_or (Anyhow (lit ''unwrap of None'')) row))"

definition rename_to_the_same_name_changes_nothing ::
  "('a \<Rightarrow> rstring) \<Rightarrow> ('w, 'c, 'a, 'addr, 'seed, 'words, 'wt, 'km, 'pub, 'priv, 'l) wallet_lib_scheme \<Rightarrow>
     ('w, 'p, 'c, 'a, 'm) test_minotari_scheme \<Rightarrow> rstring \<Rightarrow> ('w, 'p, unit) bridge_api" where
  "rename_to_the_same_name_changes_nothing keys W M dir =
     (let w = lit ''rename-same'' in run_steps
     [new_database M dir [w],
      unlock_wallet alone M (db_file_in dir) w PASSPHRASE,
      and_then (get_db_connection M) (\<lambda>conn. and_then (test_account M conn w) (\<lambda>before. run_steps
        [check_err (rename_wallet alone W M w w) (lit ''The new wallet name is the same as the current one''),
         and_then (get_db_connection M) (\<lambda>conn. and_then (test_account M conn w) (\<lambda>after. run_steps
           [check (keys after = keys before), returns (is_unlocked M conn w) True]))])),
      ignore (lock_wallet alone M w)])"

definition rename_and_delete_work_with_or_without_a_session ::
  "('w, 'c, 'a, 'addr, 'seed, 'words, 'wt, 'km, 'pub, 'priv, 'l) wallet_lib_scheme \<Rightarrow>
     ('w, 'c, 'a, 'b) accounts_lib_scheme \<Rightarrow>
     ('w, 'p, 'c, 'a, 'm) test_minotari_scheme \<Rightarrow> rstring \<Rightarrow> ('w, 'p, unit) bridge_api" where
  "rename_and_delete_work_with_or_without_a_session W L M dir =
     (let a = lit ''rd-unlocked''; b = lit ''rd-locked''; c = lit ''rd-renamed''; path = db_file_in dir in run_steps
     [new_database M dir [a, b],
      unlock_wallet alone M path a PASSPHRASE,
      rename_wallet alone W M a c,
      and_then (get_db_connection M) (\<lambda>conn. returns (is_unlocked M conn c) False),
      set_database_path path,
      delete_wallet alone W M b,
      and_then (list_wallets L M) (\<lambda>wallets. check (sort wallets = [c]))])"

section \<open>Signing (\<open>src/api/signing.rs\<close>)\<close>

text \<open>
  The tests' \<open>address\<close> is that of a row, read with its passphrase.
\<close>

text \<open>\<open>str::split\<close> at the bar.\<close>

fun split_bar :: "rstring \<Rightarrow> rstring list" where
  "split_bar [] = [[]]"
| "split_bar (c # cs) =
     (if c = 124 then [] # split_bar cs
      else case split_bar cs of [] \<Rightarrow> [[c]] | h # t \<Rightarrow> (c # h) # t)"

definition sign_message_uses_the_session ::
  "('a \<Rightarrow> rstring \<Rightarrow> 'w \<Rightarrow> (SigningError + rstring) \<times> 'w) \<Rightarrow> ('addr, 'k) address_lib_scheme \<Rightarrow>
     ('addr \<Rightarrow> rstring \<Rightarrow> rstring \<Rightarrow> SigningError + bool) \<Rightarrow>
     ('w, 'p, 'c, 'a, 'm) test_minotari_scheme \<Rightarrow> rstring \<Rightarrow> ('w, 'p, unit) bridge_api" where
  "sign_message_uses_the_session sign A V M dir =
     (let a = lit ''sign-a''; b = lit ''sign-b''; hello = lit ''hello''; path = db_file_in dir;
          address = (\<lambda>conn w. and_then (test_account M conn w) (\<lambda>row s.
            (map_err Upstream (row_address M row PASSPHRASE (world s)), s)));
          verified = (\<lambda>msg sig addr. lift_res (verify_message A V msg sig addr)) in
      and_then (test_init_db M path) (\<lambda>pool.
      and_then (get_conn M pool) (\<lambda>conn.
      and_then (run_steps (map (\<lambda>w. map_err_proc Upstream (on_world (create_account M conn w PASSPHRASE))) [a, b])) (\<lambda>_.
      and_then (address conn a) (\<lambda>address_a.
      and_then (address conn b) (\<lambda>address_b. run_steps
        [set_database_path path,
         check_err (sign_message M sign a hello) (lit ''Wallet is locked''),
         unlock_wallet alone M path a PASSPHRASE,
         and_then (sign_message M sign a hello) (\<lambda>sig. run_steps
           [check (length (split_bar sig) = 2),
            check (list_all (\<lambda>half. utf8_size half = 64) (split_bar sig)),
            returns (verified hello sig address_a) True,
            returns (verified (lit ''HELLO'') sig address_a) False,
            returns (verified hello sig address_b) False,
            and_then (sign_message M sign a hello) (\<lambda>again. run_steps
              [check (sig \<noteq> again), returns (verified hello again address_a) True])]),
         ignore (lock_wallet alone M a),
         check_err (sign_message M sign a hello) (lit ''Wallet is locked'')]))))))"

section \<open>On the reference minotari\<close>

definition reference_wallet_lib ::
  "(ref_world, rstring, rstring \<times> rstring, 'addr, 'seed, 'words, 'wt, 'km, 'pub, 'priv, 'l) wallet_lib_scheme \<Rightarrow>
   (ref_world, rstring, rstring \<times> rstring, 'addr, 'seed, 'words, 'wt, 'km, 'pub, 'priv, 'l) wallet_lib_scheme" where
  "reference_wallet_lib W = W
     \<lparr>delete_wallet_with_conn := (\<lambda>c w wd.
        (Inr (), wd\<lparr>ref_accounts := filter (\<lambda>(p, v, _). \<not> (p = c \<and> v = w)) (ref_accounts wd)\<rparr>)),
      rename_wallet_with_conn := (\<lambda>c w v wd.
        (Inr (), wd\<lparr>ref_accounts := map (\<lambda>(p, u, pw). if p = c \<and> u = w then (p, v, pw) else (p, u, pw))
           (ref_accounts wd)\<rparr>))\<rparr>"

definition reference_accounts_lib ::
  "(ref_world, rstring, rstring \<times> rstring, 'b) accounts_lib_scheme \<Rightarrow>
   (ref_world, rstring, rstring \<times> rstring, 'b) accounts_lib_scheme" where
  "reference_accounts_lib L = L
     \<lparr>get_accounts := (\<lambda>c n wd. Inr (map snd (filter (\<lambda>(p, v, _). p = c \<and> (n = None \<or> n = Some v)) (ref_accounts wd)))),
      friendly_name := fst\<rparr>"

text \<open>
  A stand-in for signatures: the first half is the signer and the message, the second the nonce,
  both filled up with zeros.
\<close>

definition reference_sign ::
  "rstring \<times> rstring \<Rightarrow> rstring \<Rightarrow> ref_world \<Rightarrow> (SigningError + rstring) \<times> ref_world" where
  "reference_sign row msg wd =
     (Inr (take 64 (fst row @ [58] @ msg @ replicate 64 48) @ [124] @ pad_zero 64 (format_dec (ref_nonce wd))),
      wd\<lparr>ref_nonce := ref_nonce wd + 1\<rparr>)"

definition reference_verify :: "rstring \<Rightarrow> rstring \<Rightarrow> rstring \<Rightarrow> SigningError + bool" where
  "reference_verify address msg sig =
     Inr (starts_with sig (take 64 (address @ [58] @ msg @ replicate 64 48) @ [124]))"

definition reference_addresses :: "rstring address_lib" where
  "reference_addresses =
     \<lparr>from_base58 = Inr, addr_network = (\<lambda>_. Lib_MainNet), to_base58 = id, to_emoji_string = id,
      network_text = (\<lambda>_. [])\<rparr>"

lemma reference_rename_test_passes:
  "passes (rename_to_the_same_name_changes_nothing snd (reference_wallet_lib W)
     (reference_minotari bad missing) (lit ''/tmp/a'')) fresh_process"
proof (cases W)
  case fields
  show ?thesis unfolding fields by code_simp
qed

lemma reference_rename_delete_test_passes:
  "passes (rename_and_delete_work_with_or_without_a_session (reference_wallet_lib W) (reference_accounts_lib L)
     (reference_minotari bad missing) (lit ''/tmp/a'')) fresh_process"
proof (cases W)
  case W: fields
  show ?thesis
  proof (cases L)
    case L: fields
    show ?thesis unfolding W L by code_simp
  qed
qed

lemma reference_sign_test_passes:
  "passes (sign_message_uses_the_session reference_sign reference_addresses reference_verify
     (reference_minotari bad missing) (lit ''/tmp/a'')) fresh_process"
  by code_simp

section \<open>On any minotari the reference abstracts\<close>

lemma hom_test_account [hom_intros]:
  assumes M: "minotari_hom hw hp hc ha M M'"
  shows "hom (abs_bridge hw hp) ha (test_account M conn w) (test_account M' (hc conn) w)"
proof -
  have row: "hom (abs_bridge hw hp) (map_option ha)
      (\<lambda>s. (map_err (\<lambda>e. Upstream (db_text e)) (get_account_by_name M conn w (world s)), s))
      (\<lambda>s. (map_err (\<lambda>e. Upstream (db_text e)) (get_account_by_name M' (hc conn) w (world s)), s))"
    by (rule homI) (simp add: minotari_homD [OF M] map_sum_map_err)
  show ?thesis
    unfolding test_account_def by (rule row hom_intros)+
qed

lemma hom_wallet_tests:
  assumes T: "test_hom hw hp hc ha M M'" and W: "changes_hom hw hc ha W W' L L'"
    and keys: "\<And>row. keys' (ha row) = keys row"
  shows "hom (abs_bridge hw hp) (\<lambda>x. x) (rename_to_the_same_name_changes_nothing keys W M dir)
      (rename_to_the_same_name_changes_nothing keys' W' M' dir)"
    "hom (abs_bridge hw hp) (\<lambda>x. x) (rename_and_delete_work_with_or_without_a_session W L M dir)
      (rename_and_delete_work_with_or_without_a_session W' L' M' dir)"
proof -
  note M = test_homD(1) [OF T]
  show "hom (abs_bridge hw hp) (\<lambda>x. x) (rename_to_the_same_name_changes_nothing keys W M dir)
      (rename_to_the_same_name_changes_nothing keys' W' M' dir)"
    "hom (abs_bridge hw hp) (\<lambda>x. x) (rename_and_delete_work_with_or_without_a_session W L M dir)
      (rename_and_delete_work_with_or_without_a_session W' L' M' dir)"
    unfolding rename_to_the_same_name_changes_nothing_def
      rename_and_delete_work_with_or_without_a_session_def Let_def keys [symmetric]
    by (rule hom_intros env_hom_alone T M W)+
qed

text \<open>
  The tests that rename, delete and sign pass on every minotari, wallet library and signer that
  the reference ones abstract.
\<close>

lemma hom_sign_test:
  assumes T: "test_hom hw hp hc ha M M'"
    and sign: "\<And>row msg wd. sign' (ha row) msg (hw wd) = map_prod id hw (sign row msg wd)"
  shows "hom (abs_bridge hw hp) (\<lambda>x. x) (sign_message_uses_the_session sign A V M dir)
    (sign_message_uses_the_session sign' A V M' dir)"
proof -
  note M = test_homD(1) [OF T]
  have read: "hom (abs_bridge hw hp) (\<lambda>x. x)
      (\<lambda>s. (map_err Upstream (row_address M row PASSPHRASE (world s)), s))
      (\<lambda>s. (map_err Upstream (row_address M' (ha row) PASSPHRASE (world s)), s))" for row
    by (rule homI) (simp add: test_homD(4) [OF T])
  show ?thesis
    unfolding sign_message_uses_the_session_def Let_def list.map
    by (rule read hom_intros env_hom_alone T M sign)+
qed

lemma wallet_tests_pass:
  assumes T: "test_hom hw hp hc ha M (reference_minotari bad missing)"
    and W: "changes_hom hw hc ha W (reference_wallet_lib W') L (reference_accounts_lib L')"
    and keys: "\<And>row. snd (ha row) = keys row"
    and sign: "\<And>row msg wd. reference_sign (ha row) msg (hw wd) = map_prod id hw (sign row msg wd)"
    and s: "abs_bridge hw hp s = fresh_process"
  shows "passes (rename_to_the_same_name_changes_nothing keys W M (lit ''/tmp/a'')) s"
    "passes (rename_and_delete_work_with_or_without_a_session W L M (lit ''/tmp/a'')) s"
    "passes (sign_message_uses_the_session sign reference_addresses reference_verify M (lit ''/tmp/a'')) s"
proof -
  have "hom (abs_bridge hw hp) (\<lambda>x. x) (rename_to_the_same_name_changes_nothing keys W M (lit ''/tmp/a''))
      (rename_to_the_same_name_changes_nothing snd (reference_wallet_lib W') (reference_minotari bad missing) (lit ''/tmp/a''))"
    by (rule hom_wallet_tests [OF T W]) (rule keys)
  moreover have "hom (abs_bridge hw hp) (\<lambda>x. x) (rename_and_delete_work_with_or_without_a_session W L M (lit ''/tmp/a''))
      (rename_and_delete_work_with_or_without_a_session (reference_wallet_lib W') (reference_accounts_lib L')
        (reference_minotari bad missing) (lit ''/tmp/a''))"
    by (rule hom_wallet_tests [OF T W]) (rule keys)
  moreover have "hom (abs_bridge hw hp) (\<lambda>x. x)
      (sign_message_uses_the_session sign reference_addresses reference_verify M (lit ''/tmp/a''))
      (sign_message_uses_the_session reference_sign reference_addresses reference_verify
        (reference_minotari bad missing) (lit ''/tmp/a''))"
    by (rule hom_sign_test [where sign' = reference_sign, OF T]) (rule sign)
  ultimately show
    "passes (rename_to_the_same_name_changes_nothing keys W M (lit ''/tmp/a'')) s"
    "passes (rename_and_delete_work_with_or_without_a_session W L M (lit ''/tmp/a'')) s"
    "passes (sign_message_uses_the_session sign reference_addresses reference_verify M (lit ''/tmp/a'')) s"
    using reference_rename_test_passes [of W' bad missing] reference_sign_test_passes [of bad missing]
      reference_rename_delete_test_passes [of W' L' bad missing]
    by (simp_all add: passes_def passes_hom [symmetric] flip: s)
qed

end
