(* ===== verification/Tests_Scans.thy ===== *)
theory Tests_Scans
  imports Tests_Wallets Scanner
begin

text \<open>
  The unit tests of the scans (\<open>mod tests\<close> of \<open>src/api/scanner.rs\<close>). Their stand-in scans are
  controllers with a task each, which clears its slot and fires \<open>stopped\<close> once its token is
  cancelled: the tasks run at the awaits. The tests that start scans do so on the reference
  minotari, with a scanner that cannot reach its node.
\<close>

section \<open>Stand-in scans\<close>

text \<open>A stand-in is a wallet, an id and the run that names its cells.\<close>

type_synonym stand_in_task = "rstring \<times> u64 \<times> nat"

definition stand_in :: "u64 \<Rightarrow> ScanPriority \<Rightarrow> nat \<Rightarrow> ScanController" where
  "stand_in sid priority run =
     \<lparr>ctl_id = sid, ctl_priority = priority, ctl_token = Token run,
      ctl_superseded = Superseded_Flag run, ctl_stopped = Stopped_Token run\<rparr>"

definition stand_in_step :: "stand_in_task \<Rightarrow> ('w, 'p) bridge \<Rightarrow> ('w, 'p) bridge" where
  "stand_in_step t s =
     (case t of (w, sid, run) \<Rightarrow>
        if is_set (Token run) s \<and> \<not> is_set (Stopped_Token run) s
        then set_cell (Stopped_Token run) (clear_scan_if_current w sid s) else s)"

definition stand_ins :: "stand_in_task list \<Rightarrow> ('w, 'p) environment" where
  "stand_ins tasks = \<lparr>env_run = (\<lambda>_. fold stand_in_step tasks), join_error = (\<lambda>_. None)\<rparr>"

definition install :: "rstring \<Rightarrow> ScanController \<Rightarrow> ('w, 'p, unit) bridge_api" where
  "install w controller = and_then (take_slot w controller) (\<lambda>previous. check (previous = None))"

definition running_id :: "rstring \<Rightarrow> ('w, 'p, u64 option) bridge_api" where
  "running_id w = gets (\<lambda>s. map_option ctl_id (fmlookup (running (SCAN_STATE s)) w))"

definition test_handle :: "rstring \<Rightarrow> u64 \<Rightarrow> ScanHandle" where
  "test_handle w sid = \<lparr>handle_wallet = w, handle_id = sid\<rparr>"

text \<open>\<open>assert!\<close> on the state, and waiting for a stand-in to stop.\<close>

definition holds :: "(('w, 'p) bridge \<Rightarrow> bool) \<Rightarrow> ('w, 'p, unit) bridge_api" where
  "holds P = and_then (gets P) check"

definition until_stopped :: "('w, 'p) environment \<Rightarrow> nat \<Rightarrow> ('w, 'p, unit) bridge_api" where
  "until_stopped env run =
     and_then (await env (Await_Cell (Stopped_Token run))) (\<lambda>_. holds (is_set (Stopped_Token run)))"

section \<open>Slots\<close>

definition foreground_supersedes_background_and_background_is_refused_during_foreground ::
  "('w, 'p, unit) bridge_api" where
  "foreground_supersedes_background_and_background_is_refused_during_foreground =
     (let w = lit ''slot-prio''; env = stand_ins [(w, 1, 0), (w, 2, 1), (w, 3, 2)] in run_steps
     [install w (stand_in 1 Background 0),
      and_then (take_slot w (stand_in 2 Foreground 1)) (\<lambda>replaced. check (map_option ctl_id replaced = Some 1)),
      holds (is_set (Token 0)),
      holds (is_set (Superseded_Flag 0)),
      holds (\<lambda>s. stopped_event (is_set (Superseded_Flag 0) s) = Superseded),
      until_stopped env 0,
      returns (running_id w) (Some 2),
      check_err (take_slot w (stand_in 3 Background 2)) (lit ''A foreground scan of this wallet is already running''),
      holds (\<lambda>s. \<not> is_set (Token 1) s),
      returns (running_id w) (Some 2),
      modify (set_cell (Token 2)),
      stop_scan env (test_handle w 2),
      holds (is_set (Stopped_Token 1)),
      returns (running_id w) None])"

text \<open>This test has a \<open>ScanState\<close> of its own, made anew half-way.\<close>

definition a_stopped_entry_never_blocks_a_background_start :: "('w, 'p, unit) bridge_api" where
  "a_stopped_entry_never_blocks_a_background_start =
     (let w = lit ''w''; fresh = modify (upd_scan (\<lambda>_. init_ScanState)) in run_steps
     [fresh,
      modify (set_cell (Stopped_Token 0)),
      install w (stand_in 1 Foreground 0),
      and_then (take_slot w (stand_in 2 Background 1)) (\<lambda>replaced. check (map_option ctl_id replaced = Some 1)),
      fresh,
      install w (stand_in 3 Foreground 2),
      ignore (unwrap_err (take_slot w (stand_in 4 Background 3)))])"

definition same_priority_replaces_the_old_scan :: "('w, 'p, unit) bridge_api" where
  "same_priority_replaces_the_old_scan =
     (let w = lit ''slot-same''; env = stand_ins [(w, 10, 0), (w, 11, 1)] in run_steps
     [install w (stand_in 10 Background 0),
      and_then (take_slot w (stand_in 11 Background 1)) (\<lambda>replaced. check (map_option ctl_id replaced = Some 10)),
      holds (is_set (Superseded_Flag 0)),
      modify (set_cell (Token 1)),
      until_stopped env 1])"

definition a_stale_handle_does_not_stop_the_current_scan :: "('w, 'p, unit) bridge_api" where
  "a_stale_handle_does_not_stop_the_current_scan =
     (let w = lit ''slot-stale''; env = stand_ins [(w, 21, 0)] in run_steps
     [install w (stand_in 21 Foreground 0),
      stop_scan env (test_handle w 20),
      holds (\<lambda>s. \<not> is_set (Token 0) s),
      returns (running_id w) (Some 21),
      stop_scan env (test_handle w 21),
      holds (is_set (Stopped_Token 0)),
      stop_scan env (test_handle w 21)])"

definition two_wallets_scan_side_by_side_and_stopping_one_leaves_the_other :: "('w, 'p, unit) bridge_api" where
  "two_wallets_scan_side_by_side_and_stopping_one_leaves_the_other =
     (let a = lit ''slot-a''; b = lit ''slot-b''; env = stand_ins [(a, 30, 0), (b, 31, 1), (a, 32, 2)] in run_steps
     [install a (stand_in 30 Foreground 0),
      install b (stand_in 31 Foreground 1),
      stop_scan env (test_handle a 30),
      holds (is_set (Stopped_Token 0)),
      holds (\<lambda>s. \<not> is_set (Token 1) s),
      returns (running_id b) (Some 31),
      install a (stand_in 32 Foreground 2),
      stop_wallet_scans env a,
      holds (is_set (Stopped_Token 2)),
      holds (\<lambda>s. \<not> is_set (Token 1) s),
      stop_wallet_scans env b,
      holds (is_set (Stopped_Token 1))])"

lemma slot_tests_pass:
  "passes foreground_supersedes_background_and_background_is_refused_during_foreground (init_bridge wd)"
  "passes a_stopped_entry_never_blocks_a_background_start (init_bridge wd)"
  "passes same_priority_replaces_the_old_scan (init_bridge wd)"
  "passes a_stale_handle_does_not_stop_the_current_scan (init_bridge wd)"
  "passes two_wallets_scan_side_by_side_and_stopping_one_leaves_the_other (init_bridge wd)"
  by code_simp+

section \<open>The start path\<close>

text \<open>
  What a test sees of a scan: the events its callback recorded, and the result. The callback
  records and accepts every event (\<open>recorder\<close>).
\<close>

type_synonym scan_seen = "ScanEventDto list \<times> (api_error + unit)"

definition recorder :: sink where
  "recorder calls event = True"

definition seen :: "(('w, 'p) bridge \<Rightarrow> scan_seen \<times> ('w, 'p) bridge) \<Rightarrow> ('w, 'p, scan_seen) bridge_api" where
  "seen m s = (case m s of (r, s') \<Rightarrow> (Inr r, s'))"

definition ended_with :: "rstring \<Rightarrow> scan_seen \<Rightarrow> bool" where
  "ended_with text r = (case snd r of Inl e \<Rightarrow> to_string e = text | Inr _ \<Rightarrow> False)"

definition only_terminal :: "(ScanEventDto \<Rightarrow> bool) \<Rightarrow> scan_seen \<Rightarrow> bool" where
  "only_terminal P r = (case fst r of [event] \<Rightarrow> is_terminal event \<and> P event | _ \<Rightarrow> False)"

definition is_error_event :: "ScanEventDto \<Rightarrow> bool" where
  "is_error_event event = (case event of Error _ \<Rightarrow> True | _ \<Rightarrow> False)"

definition test_config :: "rstring \<Rightarrow> ScanPriority \<Rightarrow> ScanConfiguration" where
  "test_config w priority =
     \<lparr>cfg_wallet_name = w, cfg_base_url = lit ''http://127.0.0.1:1'', cfg_batch_size = 10,
      cfg_continuous = False, cfg_poll_interval_seconds = 1, cfg_required_confirmations = 3,
      cfg_priority = priority, cfg_processing_threads = None, cfg_event_buffer = None,
      cfg_deadline_seconds = None, cfg_max_blocks = None\<rparr>"

text \<open>
  A test is given \<open>start_scan_with_handler\<close> and \<open>rescan_with_handler\<close> on the libraries it runs with.
\<close>

type_synonym ('w, 'p) start_fn =
  "('w, 'p) environment \<Rightarrow> ScanHandle \<Rightarrow> ScanConfiguration \<Rightarrow> sink \<Rightarrow> ('w, 'p) bridge \<Rightarrow> scan_seen \<times> ('w, 'p) bridge"

type_synonym ('w, 'p) rescan_fn =
  "('w, 'p) environment \<Rightarrow> ScanHandle \<Rightarrow> u64 \<Rightarrow> ScanConfiguration \<Rightarrow> sink \<Rightarrow> ('w, 'p) bridge \<Rightarrow>
     scan_seen \<times> ('w, 'p) bridge"

definition locked_wallets_and_reused_handles_end_with_one_error ::
  "('w, 'p) start_fn \<Rightarrow> ('w, 'p, 'c, 'a, 'm) test_minotari_scheme \<Rightarrow> rstring \<Rightarrow> ('w, 'p, unit) bridge_api" where
  "locked_wallets_and_reused_handles_end_with_one_error start M dir =
     (let w = lit ''start-locked''; config = test_config w Foreground in run_steps
     [new_database M dir [w],
      set_database_path (db_file_in dir),
      and_then (create_scan_handle w) (\<lambda>h. run_steps
        [and_then (seen (start alone h config recorder)) (\<lambda>r. run_steps
           [check (ended_with (lit ''Wallet is locked'') r),
            check (only_terminal (\<lambda>event. event = Error (lit ''Wallet is locked'')) r)]),
         and_then (seen (start alone h config recorder)) (\<lambda>r. run_steps
           [check (ended_with (lit ''Wallet Error: This scan handle was already used'') r),
            check (only_terminal is_error_event r)])]),
      and_then (create_scan_handle (lit ''someone-else'')) (\<lambda>other.
        and_then (seen (start alone other config recorder)) (\<lambda>r.
          check (case snd r of Inl e \<Rightarrow> str_contains (to_string e) (lit ''another wallet'') | Inr _ \<Rightarrow> False)))])"

definition a_handle_stopped_before_its_scan_starts_ends_cancelled ::
  "('w, 'p) start_fn \<Rightarrow> ('w, 'p, unit) bridge_api" where
  "a_handle_stopped_before_its_scan_starts_ends_cancelled start =
     (let w = lit ''start-early-stop'' in
      and_then (create_scan_handle w) (\<lambda>h. run_steps
        [stop_scan alone h,
         and_then (seen (start alone h (test_config w Foreground) recorder)) (\<lambda>r. run_steps
           [check (is_ok (snd r)), check (only_terminal (\<lambda>event. event = Cancelled) r)])]))"

text \<open>The stand-ins' runs are numbered from 100 up, out of the way of the scans the test starts.\<close>

definition an_out_of_range_rescan_leaves_the_current_scan_alone ::
  "('w, 'p) rescan_fn \<Rightarrow> ('w, 'p, 'c, 'a, 'm) test_minotari_scheme \<Rightarrow> rstring \<Rightarrow> ('w, 'p, unit) bridge_api" where
  "an_out_of_range_rescan_leaves_the_current_scan_alone rescan_at M dir =
     (let w = lit ''rescan-range''; sid = - 1 - 10; env = stand_ins [(w, sid, 100)] in run_steps
     [new_database M dir [w],
      unlock_wallet alone M (db_file_in dir) w PASSPHRASE,
      install w (stand_in sid Background 100),
      and_then (create_scan_handle w) (\<lambda>h.
        and_then (seen (rescan_at env h (- 1) (test_config w Foreground) recorder)) (\<lambda>r. run_steps
           [check (ended_with (lit ''Database Error: Rescan height 18446744073709551615 is out of range'') r),
            check (only_terminal is_error_event r)])),
      holds (\<lambda>s. \<not> is_set (Token 100) s),
      holds (\<lambda>s. \<not> is_set (Superseded_Flag 100) s),
      returns (running_id w) (Some sid),
      stop_wallet_scans env w,
      ignore (lock_wallet alone M w)])"

text \<open>
  The long test. Its \<open>rescan\<close> closure makes a handle and runs the rescan; while that waits for the
  wallet's maintenance, the test checks that it waits without a slot and then ends the
  maintenance, having stopped the wallet's scans first in one case. Here that is the environment
  at the wait; an assertion that fails there poisons the scan state, and the test with it.
\<close>

definition waits_then ::
  "(('w, 'p) bridge \<Rightarrow> ('w, 'p) bridge) \<Rightarrow> rstring \<Rightarrow> ('w, 'p) environment \<Rightarrow> ('w, 'p) environment" where
  "waits_then meanwhile w env =
     env\<lparr>env_run := (\<lambda>point s.
       if point = Await_Maintenance w then
         (if w \<in> MAINT_HELD s \<and> fmlookup (running (SCAN_STATE s)) w = None
          then end_maintenance w (meanwhile s) else s\<lparr>scan_poisoned := True\<rparr>)
       else env_run env point s)\<rparr>"

definition test_rescan ::
  "('w, 'p) rescan_fn \<Rightarrow> ('w, 'p) environment \<Rightarrow> rstring \<Rightarrow> ScanPriority \<Rightarrow> ('w, 'p, scan_seen) bridge_api" where
  "test_rescan rescan_at env w priority =
     and_then (create_scan_handle w) (\<lambda>h. seen (rescan_at env h 0 (test_config w priority) recorder))"

definition start_path_slot_rules_and_maintenance ::
  "('w, 'p) rescan_fn \<Rightarrow> ('w, 'p, 'c, 'a, 'm) test_minotari_scheme \<Rightarrow> rstring \<Rightarrow> ('w, 'p, unit) bridge_api" where
  "start_path_slot_rules_and_maintenance rescan_at M dir =
     (let w = lit ''start-unlocked''; other = lit ''start-other-wallet'';
          env = stand_ins [(w, - 1 - 1, 100), (w, - 1 - 2, 101)] in run_steps
     [new_database M dir [w],
      unlock_wallet alone M (db_file_in dir) w PASSPHRASE,
      install w (stand_in (- 1 - 1) Background 100),
      and_then (test_rescan rescan_at env w Foreground) (\<lambda>r. run_steps
        [check (\<not> is_ok (snd r)),
         holds (is_set (Stopped_Token 100)),
         holds (\<lambda>s. stopped_event (is_set (Superseded_Flag 100) s) = Superseded),
         check (only_terminal is_error_event r),
         returns (running_id w) None]),
      install w (stand_in (- 1 - 2) Foreground 101),
      and_then (test_rescan rescan_at env w Background) (\<lambda>r. run_steps
        [check (ended_with (lit ''A foreground scan of this wallet is already running'') r),
         check (only_terminal is_error_event r),
         holds (\<lambda>s. \<not> is_set (Token 101) s)]),
      stop_wallet_scans env w,
      ignore (begin_maintenance env w),
      and_then (test_rescan rescan_at (waits_then (\<lambda>s. s) w env) w Foreground) (\<lambda>r. check (\<not> is_ok (snd r))),
      ignore (begin_maintenance env w),
      and_then (test_rescan rescan_at (waits_then (\<lambda>s. snd (stop_wallet_scans env w s)) w env) w Foreground)
        (\<lambda>r. run_steps [check (is_ok (snd r)), check (only_terminal (\<lambda>event. event = Cancelled) r)]),
      returns (running_id w) None,
      ignore (begin_maintenance env other),
      and_then (test_rescan rescan_at env w Foreground) (\<lambda>r. check (\<not> is_ok (snd r))),
      modify (end_maintenance other),
      ignore (lock_wallet alone M w)])"

definition a_failed_unlock_reaching_zero_cancels_the_wallets_scans ::
  "('w, 'p, 'c, 'a, 'm) test_minotari_scheme \<Rightarrow> rstring \<Rightarrow> ('w, 'p, unit) bridge_api" where
  "a_failed_unlock_reaching_zero_cancels_the_wallets_scans M dir =
     (let w = lit ''unlock-fail-cancels''; v = lit ''unlock-fail-other'';
          env = stand_ins [(w, - 1 - 20, 0), (v, - 1 - 21, 1)] in run_steps
     [new_database M dir [w, v],
      install w (stand_in (- 1 - 20) Foreground 0),
      install v (stand_in (- 1 - 21) Foreground 1),
      check_err (unlock_wallet env M (db_file_in dir) w (lit ''wrong'')) (lit ''Invalid Passphrase''),
      holds (is_set (Token 0)),
      holds (\<lambda>s. \<not> is_set (Superseded_Flag 0) s),
      holds (\<lambda>s. \<not> is_set (Token 1) s),
      until_stopped env 0,
      stop_wallet_scans env v])"

definition a_force_locked_unlock_cancels_a_scan_started_in_the_gap ::
  "('w, 'p, 'c, 'a, 'm) test_minotari_scheme \<Rightarrow> rstring \<Rightarrow> ('w, 'p, unit) bridge_api" where
  "a_force_locked_unlock_cancels_a_scan_started_in_the_gap M dir =
     (let w = lit ''force-gap-scan''; env = stand_ins [(w, - 1 - 30, 0)] in run_steps
     [new_database M dir [w],
      unlock_wallet env M (db_file_in dir) w PASSPHRASE,
      and_then (force_remove_entry w) (\<lambda>g.
      and_then (lift_res (ok_or (Anyhow (lit ''unwrap of None'')) g)) (\<lambda>g. run_steps
        [install w (stand_in (- 1 - 30) Foreground 0),
         check_err (confirm_still_counted_for_test env M w g) (lit ''Wallet is locked'')])),
      holds (is_set (Token 0)),
      holds (\<lambda>s. \<not> is_set (Superseded_Flag 0) s),
      returns (unlocked M w) False,
      until_stopped env 0,
      disconnect_database M])"

text \<open>
  A scanner whose node is unreachable: it fails with no event, having rolled back when the scan
  is a rescan. A write transaction is the database's path.
\<close>

definition reference_scanner ::
  "(ref_world, rstring, rstring \<times> rstring, (unit, unit, unit, unit) ProcessingEvent, unit, rstring) scanner_lib" where
  "reference_scanner =
     \<lparr>run_with_events = (\<lambda>_ wd. (([], Inl (lit ''unreachable'')), wd)),
      deadline_in = (\<lambda>_. None), available_parallelism = Some 8,
      tx_begin_immediate = (\<lambda>c _. Inr c),
      tx_get_account_by_name = (\<lambda>_ w. Inr (Some (w, PASSPHRASE))),
      tx_rollback_from_height = (\<lambda>t _ _. Inr t),
      tx_commit = (\<lambda>_ wd. (Inr (), wd))\<rparr>"

definition reference_rows :: "(ref_world, rstring, rstring \<times> rstring) accounts_lib" where
  "reference_rows = reference_accounts_lib
     \<lparr>get_accounts = (\<lambda>_ _ _. Inr []), account_id = (\<lambda>_. 1), friendly_name = fst\<rparr>"

abbreviation ref_start where
  "ref_start bad missing tx \<equiv> (\<lambda>env. start_scan_with_handler env reference_scanner reference_rows
     (reference_minotari bad missing) tx to_string)"

abbreviation ref_rescan where
  "ref_rescan bad missing tx \<equiv> (\<lambda>env. rescan_with_handler env reference_scanner reference_rows
     (reference_minotari bad missing) tx to_string)"

lemma locked_start_test_passes:
  "passes (locked_wallets_and_reused_handles_end_with_one_error (ref_start bad missing tx)
     (reference_minotari bad missing) (lit ''/tmp/a'')) fresh_process"
  by code_simp

lemma early_stop_test_passes:
  "passes (a_handle_stopped_before_its_scan_starts_ends_cancelled (ref_start bad missing tx)) fresh_process"
  by code_simp

text \<open>Evaluating the digits of \<open>u64::MAX\<close> by division is slow; this is what they are.\<close>

lemma format_dec_eval [code]:
  "format_dec n = (if n = 18446744073709551615 then lit ''18446744073709551615'' else format_base 10 n)"
  by (simp add: format_dec_def format_base.simps digit_char_def lit_def)

lemma check_rescan_height_eval [code]:
  "check_rescan_height from_height =
     (if 9223372036854775808 \<le> from_height
      then Inl (Wallet_Err (database (lit ''Rescan height '' @ format_dec (unat from_height) @
        lit '' is out of range'')))
      else Inr ())"
  by (simp add: check_rescan_height_def word_le_nat_alt)

lemma rescan_range_test_passes:
  "passes (an_out_of_range_rescan_leaves_the_current_scan_alone (ref_rescan bad missing tx)
     (reference_minotari bad missing) (lit ''/tmp/a'')) fresh_process"
  by code_simp

lemma start_path_test_passes:
  "passes (start_path_slot_rules_and_maintenance (ref_rescan bad missing tx)
     (reference_minotari bad missing) (lit ''/tmp/a'')) fresh_process"
  by code_simp

lemma lock_cancels_tests_pass:
  "passes (a_failed_unlock_reaching_zero_cancels_the_wallets_scans (reference_minotari bad missing) (lit ''/tmp/a''))
     fresh_process"
  "passes (a_force_locked_unlock_cancels_a_scan_started_in_the_gap (reference_minotari bad missing) (lit ''/tmp/a''))
     fresh_process"
  by code_simp+

section \<open>Threads and failures\<close>

definition processing_threads_are_capped_at_the_available_parallelism :: "usize \<Rightarrow> bool" where
  "processing_threads_are_capped_at_the_available_parallelism mx \<longleftrightarrow>
     capped_threads (Some mx) 0 = 1 \<and> capped_threads (Some mx) 1 = 1 \<and> capped_threads (Some mx) (- 1) = mx"

text \<open>The available parallelism is a number of processors: at least one, and fewer than \<open>2 ^ 32\<close>.\<close>

lemma threads_test_passes:
  assumes "1 \<le> mx" "mx \<le> 0xFFFFFFFF"
  shows "processing_threads_are_capped_at_the_available_parallelism mx"
proof -
  have "ucast (- 1 :: u32) = (0xFFFFFFFF :: usize)" by code_simp
  with assms show ?thesis
    by (simp add: processing_threads_are_capped_at_the_available_parallelism_def capped_threads_def
        min_def max_def Let_def)
qed

definition scan_failure_keeps_the_error_chain :: "(api_error \<Rightarrow> rstring) \<Rightarrow> bool" where
  "scan_failure_keeps_the_error_chain debug \<longleftrightarrow>
     (let (message, error) = scan_failure debug (Anyhow (lit ''bad'' @ [0x202E] @ lit ''node''));
          chained = Context (lit ''outer'') (Anyhow (lit ''inner''));
          (message', error') = scan_failure debug chained in
      message = lit ''badnode'' \<and> debug error = lit ''badnode'' \<and>
      message' = lit ''outer'' \<and> str_contains (debug error') (lit ''Caused by''))"

text \<open>
  What anyhow prints of an error with \<open>{:?}\<close>: its message, and the message of its one cause when
  it has one, under a heading. The lemma needs no more of \<open>debug\<close> than these two cases.
\<close>

lemma str_contains_append: "str_contains (s @ p @ t) p"
proof (induction s)
  case Nil
  have "starts_with (p @ t) p" by (simp add: starts_with_iff)
  then show ?case by (cases "p @ t") simp_all
next
  case (Cons c s)
  then show ?case by simp
qed

lemma failure_test_passes:
  assumes message: "\<And>m. debug (Anyhow m) = m"
    and cause: "debug (Context (lit ''outer'') (Anyhow (lit ''inner''))) =
      lit ''outer'' @ [10, 10] @ lit ''Caused by:'' @ [10] @ lit ''    inner''"
  shows "scan_failure_keeps_the_error_chain debug"
proof -
  have "strip_format_chars (lit ''outer'' @ [10, 10] @ lit ''Caused by:'' @ [10] @ lit ''    inner'') =
      (lit ''outer'' @ [10, 10]) @ lit ''Caused by'' @ (lit '':'' @ [10] @ lit ''    inner'')"
    by code_simp
  then have "str_contains (strip_format_chars (lit ''outer'' @ [10, 10] @ lit ''Caused by:'' @ [10] @ lit ''    inner''))
      (lit ''Caused by'')"
    using str_contains_append by metis
  moreover have "strip_format_chars (lit ''bad'' @ [0x202E] @ lit ''node'') = lit ''badnode''"
    "strip_format_chars (lit ''outer'') = lit ''outer''"
    by code_simp+
  ultimately show ?thesis
    by (simp add: scan_failure_keeps_the_error_chain_def scan_failure_def message cause Let_def
        del: append.simps)
qed

section \<open>The forwarder\<close>

definition progress_event :: "('i, 'h, 't, 'addr) ProcessingEvent" where
  "progress_event = ScanStatus (SE_Progress 1 100 250 10)"

definition completed_event :: "('i, 'h, 't, 'addr) ProcessingEvent" where
  "completed_event = ScanStatus (SE_Completed 1 110 110)"

definition reorg_event :: "('i, 'h, 't, 'addr) ProcessingEvent" where
  "reorg_event = PE_ReorgDetected
     \<lparr>re_account_id = 1, re_reorg_from_height = 95, re_new_height = 97, re_blocks_rolled_back = 6,
      re_cancelled_transaction_ids = [lit ''tx-1'', lit ''tx-2''], re_reorganized = []\<rparr>"

text \<open>\<open>FakeSink\<close> records what it is given and accepts it, unless it is made to fail.\<close>

definition FakeSink :: "bool \<Rightarrow> sink" where
  "FakeSink fails received event = (\<not> fails)"

definition forwarder_delivers_in_order_and_returns_the_terminal :: "('i, 'h, 't, 'addr) tx_map \<Rightarrow> bool" where
  "forwarder_delivers_in_order_and_returns_the_terminal tx \<longleftrightarrow>
     (let f = run_forwarder tx (FakeSink False)
            [progress_event, reorg_event, PE_BlockProcessed 105, completed_event]
      in (case fw_terminal f of Some (Completed _ final_height _) \<Rightarrow> final_height = 110 | _ \<Rightarrow> False) \<and>
        \<not> fw_cancelled f \<and> length (fw_calls f) = 2 \<and>
        (case fw_calls f ! 0 of Progress _ current_height tip_height _ \<Rightarrow> current_height = 100 \<and> tip_height = 250
         | _ \<Rightarrow> False) \<and>
        (case fw_calls f ! 1 of
           ReorgDetected reorg \<Rightarrow>
             rd_reorg_from_height reorg = 95 \<and>
             rd_cancelled_transaction_ids reorg = [lit ''tx-1'', lit ''tx-2'']
         | _ \<Rightarrow> False))"

definition forwarder_cancels_on_sink_closed_and_keeps_draining :: "('i, 'h, 't, 'addr) tx_map \<Rightarrow> bool" where
  "forwarder_cancels_on_sink_closed_and_keeps_draining tx \<longleftrightarrow>
     (let f = run_forwarder tx (FakeSink True)
            [progress_event, progress_event, ScanStatus (SE_Cancelled 1)]
      in fw_cancelled f \<and> fw_terminal f = Some Cancelled \<and> length (fw_calls f) = 1)"

definition terminal_and_fast_sync_events_map_as_documented :: "('i, 'h, 't, 'addr) tx_map \<Rightarrow> bool" where
  "terminal_and_fast_sync_events_map_as_documented tx \<longleftrightarrow>
     map_processing_event tx (ScanStatus (SE_FastSyncPhaseStarted 1)) = None \<and>
     map_processing_event tx (ScanStatus (SE_FastSyncPhaseCompleted 1)) = None \<and>
     (case map_processing_event tx (ScanStatus (SE_BudgetExhausted 1 5 9)) of
        Some (BudgetExhausted _ last_scanned_height tip_height) \<Rightarrow> last_scanned_height = 5 \<and> tip_height = 9
      | _ \<Rightarrow> False) \<and>
     \<not> is_terminal (Waiting_Event 1 1) \<and> is_terminal Superseded"

lemma forwarder_tests_pass:
  "forwarder_delivers_in_order_and_returns_the_terminal tx"
  "forwarder_cancels_on_sink_closed_and_keeps_draining tx"
  "terminal_and_fast_sync_events_map_as_documented tx"
  by (simp_all add: forwarder_delivers_in_order_and_returns_the_terminal_def
      forwarder_cancels_on_sink_closed_and_keeps_draining_def
      terminal_and_fast_sync_events_map_as_documented_def run_forwarder_def forward_event_def
      progress_event_def reorg_event_def completed_event_def FakeSink_def reorg_detected_from_def Let_def)

end
