(* ===== verification/Tests_Send.thy ===== *)
theory Tests_Send
  imports Tests_Wallets Tests_Keys Send
begin

text \<open>
  The unit tests of a send (\<open>mod tests\<close> of \<open>src/api/send_transaction.rs\<close>): the strings of its
  refusals, the closed sink, and, on a reference wallet with outputs and reservations, the key
  session it needs, its gate before the broadcast and the release of what it reserved.
\<close>

section \<open>The inputs\<close>

definition details_with :: "rstring \<Rightarrow> u64 \<Rightarrow> u64 option \<Rightarrow> MultiSendTransactionDetails" where
  "details_with recipient amt window =
     \<lparr>sd_network = Some MainNet, sd_base_url = None, sd_wallet_name = lit ''test-wallet'',
      sd_recipients = [\<lparr>sr_address = recipient, sr_amount = amt, sr_payment_id = None\<rparr>],
      sd_send_all = False, sd_confirmation_window = window\<rparr>"

text \<open>A refusal, with what the test asserts of its text.\<close>

definition refused_with :: "(rstring \<Rightarrow> bool) \<Rightarrow> api_error + 'r \<Rightarrow> bool" where
  "refused_with P r = (case r of Inl e \<Rightarrow> P (to_string e) | Inr _ \<Rightarrow> False)"

definition BAD_ADDRESS :: rstring where
  "BAD_ADDRESS = lit ''not-a-valid-base58-address''"

definition rejects_zero_amount_with_frozen_boundary_string ::
  "('addr, 'l) address_lib_scheme \<Rightarrow> (Lib_Network \<Rightarrow> rstring) \<Rightarrow> bool" where
  "rejects_zero_amount_with_frozen_boundary_string A recipient \<longleftrightarrow>
     refused_with (\<lambda>t. t = lit ''Wallet Error: Amount must be greater than zero'')
       (validate_inputs A (details_with (recipient Lib_MainNet) 0 None))"

definition rejects_malformed_recipient_address_with_frozen_boundary_prefix ::
  "('addr, 'l) address_lib_scheme \<Rightarrow> bool" where
  "rejects_malformed_recipient_address_with_frozen_boundary_prefix A \<longleftrightarrow>
     refused_with (\<lambda>t. starts_with t (lit ''Invalid Recipient Address: ''))
       (validate_inputs A (details_with BAD_ADDRESS 1000 None))"

definition rejects_wrong_network_recipient_with_frozen_boundary_prefix ::
  "('addr, 'l) address_lib_scheme \<Rightarrow> (Lib_Network \<Rightarrow> rstring) \<Rightarrow> bool" where
  "rejects_wrong_network_recipient_with_frozen_boundary_prefix A recipient \<longleftrightarrow>
     (let refused = validate_inputs A (details_with (recipient Lib_Esmeralda) 1000 None) in
      refused_with (\<lambda>t. starts_with t (lit ''Invalid Recipient Address: '')) refused \<and>
      refused_with (\<lambda>t. t = lit ''Invalid Recipient Address: '' @
        lit ''address network (esmeralda) does not match the configured network (mainnet)'') refused)"

definition adapter_resolves_network_and_passes_through_valid_inputs ::
  "('addr, 'l) address_lib_scheme \<Rightarrow> (Lib_Network \<Rightarrow> rstring) \<Rightarrow> bool" where
  "adapter_resolves_network_and_passes_through_valid_inputs A recipient \<longleftrightarrow>
     (case validate_inputs A (details_with (recipient Lib_MainNet) 1000 None) of
        Inl _ \<Rightarrow> False
      | Inr validated \<Rightarrow>
          length (vi_recipients validated) = 1 \<and> rc_amount (vi_recipients validated ! 0) = 1000 \<and>
          vi_network validated = Lib_MainNet \<and> vi_confirmations validated = DEFAULT_CONFIRMATION_WINDOW)"

definition adapter_honours_explicit_confirmation_window ::
  "('addr, 'l) address_lib_scheme \<Rightarrow> (Lib_Network \<Rightarrow> rstring) \<Rightarrow> bool" where
  "adapter_honours_explicit_confirmation_window A recipient \<longleftrightarrow>
     (case validate_inputs A (details_with (recipient Lib_MainNet) 1000 (Some 12)) of
        Inl _ \<Rightarrow> False
      | Inr validated \<Rightarrow> vi_confirmations validated = 12)"

definition multi_send_validates_every_recipient ::
  "('addr, 'l) address_lib_scheme \<Rightarrow> (Lib_Network \<Rightarrow> rstring) \<Rightarrow> bool" where
  "multi_send_validates_every_recipient A recipient \<longleftrightarrow>
     (let good = recipient Lib_MainNet;
          second = \<lparr>sr_address = good, sr_amount = 2000, sr_payment_id = Some (lit ''second'')\<rparr>;
          d = details_with good 1000 None;
          with_second = (\<lambda>r. d\<lparr>sd_recipients := sd_recipients d @ [r]\<rparr>) in
      (case validate_inputs A (with_second second) of
         Inl _ \<Rightarrow> False
       | Inr validated \<Rightarrow>
           length (vi_recipients validated) = 2 \<and> rc_amount (vi_recipients validated ! 1) = 2000 \<and>
           rc_payment_id (vi_recipients validated ! 1) = Some (lit ''second'')) \<and>
      refused_with (\<lambda>t. starts_with t (lit ''Invalid Recipient Address: ''))
        (validate_inputs A (with_second (second\<lparr>sr_address := BAD_ADDRESS\<rparr>))))"

definition send_all_ignores_amount_but_needs_exactly_one_recipient ::
  "('addr, 'l) address_lib_scheme \<Rightarrow> (Lib_Network \<Rightarrow> rstring) \<Rightarrow> bool" where
  "send_all_ignores_amount_but_needs_exactly_one_recipient A recipient \<longleftrightarrow>
     (let good = recipient Lib_MainNet; one = (details_with good 0 None)\<lparr>sd_send_all := True\<rparr>;
          two = one\<lparr>sd_recipients := sd_recipients one @
            [\<lparr>sr_address = good, sr_amount = 0, sr_payment_id = None\<rparr>]\<rparr> in
      is_ok (validate_inputs A one) \<and>
      refused_with (\<lambda>t. t = lit ''Wallet Error: A send-all pays exactly one recipient'') (validate_inputs A two) \<and>
      refused_with (\<lambda>t. t = lit ''Wallet Error: At least one recipient is required'')
        (validate_inputs A (two\<lparr>sd_recipients := [], sd_send_all := False\<rparr>)))"

lemma validate_inputs_tests_pass:
  assumes "parses_on A recipient Lib_MainNet" "parses_on A recipient Lib_Esmeralda"
    and "from_base58 A BAD_ADDRESS = Inl e"
    and "network_text A Lib_MainNet = lit ''mainnet''" "network_text A Lib_Esmeralda = lit ''esmeralda''"
  shows "rejects_zero_amount_with_frozen_boundary_string A recipient"
    "rejects_malformed_recipient_address_with_frozen_boundary_prefix A"
    "rejects_wrong_network_recipient_with_frozen_boundary_prefix A recipient"
    "adapter_resolves_network_and_passes_through_valid_inputs A recipient"
    "adapter_honours_explicit_confirmation_window A recipient"
    "multi_send_validates_every_recipient A recipient"
    "send_all_ignores_amount_but_needs_exactly_one_recipient A recipient"
proof -
  have frozen: "\<exists>r. lit ''Invalid Recipient Address: address network (esmeralda) does not match the configured network (mainnet)'' =
      lit ''Invalid Recipient Address: '' @ r"
    by (rule exI [of _ "lit ''address network (esmeralda) does not match the configured network (mainnet)''"])
      (simp flip: lit_append)
  show "rejects_zero_amount_with_frozen_boundary_string A recipient"
    "rejects_malformed_recipient_address_with_frozen_boundary_prefix A"
    "rejects_wrong_network_recipient_with_frozen_boundary_prefix A recipient"
    "adapter_resolves_network_and_passes_through_valid_inputs A recipient"
    "adapter_honours_explicit_confirmation_window A recipient"
    "multi_send_validates_every_recipient A recipient"
    "send_all_ignores_amount_but_needs_exactly_one_recipient A recipient"
  using assms
  by (auto simp: parses_on_def refused_with_def details_with_def validate_inputs_def
      validate_recipient_def validate_recipient_count_def Let_def parse_network_def
      rejects_zero_amount_with_frozen_boundary_string_def
      rejects_malformed_recipient_address_with_frozen_boundary_prefix_def
      rejects_wrong_network_recipient_with_frozen_boundary_prefix_def
      adapter_resolves_network_and_passes_through_valid_inputs_def
      adapter_honours_explicit_confirmation_window_def multi_send_validates_every_recipient_def
      send_all_ignores_amount_but_needs_exactly_one_recipient_def
      starts_with_iff lit_append [symmetric] frozen split: sum.splits)
qed

section \<open>A closed sink\<close>

text \<open>The sink records each event's stage and always fails; the callback drops the failure.\<close>

definition sink_add ::
  "TransactionStage list \<Rightarrow> SendTransactionEvent \<Rightarrow> (api_error + unit) \<times> TransactionStage list" where
  "sink_add delivered event = (Inl (Wallet_Err (Scan (lit ''sink closed''))), delivered @ [stage event])"

definition status_callback :: "SendTransactionEvent \<Rightarrow> TransactionStage list \<Rightarrow> TransactionStage list" where
  "status_callback event delivered = snd (sink_add delivered event)"

definition send_continues_reporting_when_sink_is_closed :: bool where
  "send_continues_reporting_when_sink_is_closed \<longleftrightarrow>
     (let got = fold (\<lambda>st. status_callback \<lparr>stage = st, details = []\<rparr>)
            [Initializing, ValidatingInput, Broadcasting, Broadcasted] [] in
      length got = 4 \<and> got ! 0 = Initializing \<and> got ! 3 = Broadcasted)"

lemma closed_sink_test_passes: "send_continues_reporting_when_sink_is_closed"
  by code_simp


section \<open>Wallets with an output\<close>

text \<open>
  What these tests use of minotari beside the test support of the sessions: the rows that make
  an output spendable, the reservation seen from the output and from the pending row, and the
  SQL statements the tests run themselves.
\<close>

record ('w, 'p, 'c, 'a) send_test_minotari = "('w, 'p, 'c, 'a) test_minotari" +
  insert_scanned_tip_block :: "'c \<Rightarrow> i64 \<Rightarrow> u64 \<Rightarrow> 'w \<Rightarrow> (rstring + unit) \<times> 'w"
  insert_output :: "'c \<Rightarrow> i64 \<Rightarrow> u64 \<Rightarrow> u64 \<Rightarrow> 'w \<Rightarrow> (rstring + i64) \<times> 'w"
  mark_output_confirmed :: "'c \<Rightarrow> i64 \<Rightarrow> u64 \<Rightarrow> 'w \<Rightarrow> (rstring + unit) \<times> 'w"
  select_status :: "'c \<Rightarrow> i64 \<Rightarrow> 'w \<Rightarrow> rstring + rstring"
  get_output_lock_request_id :: "'c \<Rightarrow> i64 \<Rightarrow> 'w \<Rightarrow> rstring + rstring option"
  select_idempotency_key :: "'c \<Rightarrow> rstring \<Rightarrow> 'w \<Rightarrow> rstring + rstring"
  backdate_expiry :: "'c \<Rightarrow> rstring option \<Rightarrow> 'w \<Rightarrow> (rstring + unit) \<times> 'w"
  update_friendly_name :: "'c \<Rightarrow> i64 \<Rightarrow> rstring \<Rightarrow> 'w \<Rightarrow> (rstring + unit) \<times> 'w"
  drop_accounts :: "'c \<Rightarrow> 'w \<Rightarrow> (rstring + unit) \<times> 'w"

definition unwrap_db :: "('w \<Rightarrow> (rstring + 'r) \<times> 'w) \<Rightarrow> ('w, 'p, 'r) bridge_api" where
  "unwrap_db f = map_err_proc Upstream (on_world f)"

definition query :: "('w \<Rightarrow> rstring + 'r) \<Rightarrow> ('w, 'p, 'r) bridge_api" where
  "query f s = (map_err Upstream (f (world s)), s)"

definition WALLET :: rstring where
  "WALLET = lit ''test''"

definition funded_account ::
  "('w, 'c, 'a, 'l) accounts_lib_scheme \<Rightarrow> ('w, 'p, 'c, 'a, 'm) send_test_minotari_scheme \<Rightarrow>
     rstring \<Rightarrow> rstring \<Rightarrow> ('w, 'p, 'p \<times> i64) bridge_api" where
  "funded_account L M passphrase dir =
     and_then (test_init_db M (db_file_in dir)) (\<lambda>pool.
     and_then (get_conn M pool) (\<lambda>conn.
     and_then (unwrap_db (create_account M conn WALLET passphrase)) (\<lambda>_.
     and_then (test_account M conn WALLET) (\<lambda>account.
     and_then (unwrap_db (insert_scanned_tip_block M conn (account_id L account) 200)) (\<lambda>_.
     and_then (unwrap_db (insert_output M conn (account_id L account) 1000000 100)) (\<lambda>output_id.
     and_then (unwrap_db (mark_output_confirmed M conn output_id 100)) (\<lambda>_.
     ret (pool, output_id))))))))"

definition reserve_one_output ::
  "('w, 'c, 'a, 'l) accounts_lib_scheme \<Rightarrow> ('w, 'p, 'c, 'a, 'm) send_test_minotari_scheme \<Rightarrow>
     ('w, 'p, 'c, 'a, 'i, 'h, 't, rstring, 'wt, 'km, 'x, 'u, 'su, 'cf, 'cp, 'cc, 'sg, 'z) send_lib_scheme \<Rightarrow>
     rstring \<Rightarrow> ('w, 'p, 'p \<times> i64 \<times> rstring) bridge_api" where
  "reserve_one_output L M S dir =
     and_then (funded_account L M (lit ''pass'') dir) (\<lambda>(pool, output_id).
     and_then (get_conn M pool) (\<lambda>conn.
     and_then (test_account M conn WALLET) (\<lambda>account.
     and_then (query (row_address M account (lit ''pass''))) (\<lambda>address.
     and_then (query (sender_new S pool WALLET (lit ''pass'') Lib_LocalNet 3)) (\<lambda>sender.
     and_then (build_unsigned_transaction S sender
         [\<lparr>rc_address = address, rc_amount = 1000, rc_payment_id = None\<rparr>] False) (\<lambda>(pending_id, _, _).
     ret (pool, output_id, pending_id)))))))"

definition output_status ::
  "('w, 'p, 'c, 'a, 'm) send_test_minotari_scheme \<Rightarrow> 'c \<Rightarrow> i64 \<Rightarrow> ('w, 'p, rstring) bridge_api" where
  "output_status M conn output_id = query (select_status M conn output_id)"

definition the_send_gate_fails_closed ::
  "('w, 'c, 'a, 'l) accounts_lib_scheme \<Rightarrow> ('w, 'p, 'c, 'a, 'm) send_test_minotari_scheme \<Rightarrow>
     rstring \<Rightarrow> rstring \<Rightarrow> ('w, 'p, unit) bridge_api" where
  "the_send_gate_fails_closed L M dir broken =
     and_then (funded_account L M (lit ''pass'') dir) (\<lambda>(pool, _). run_steps
       [returns (gets (unlocked_in M pool WALLET)) False,
        unlock_wallet alone M (db_file_in dir) WALLET (lit ''pass''),
        returns (gets (unlocked_in M pool WALLET)) True,
        returns (gets (unlocked_in M pool (lit ''missing''))) False,
        and_then (test_init_db M (db_file_in broken)) (\<lambda>broken_pool.
          and_then (get_conn M broken_pool) (\<lambda>conn. run_steps
            [unwrap_db (drop_accounts M conn),
             returns (gets (unlocked_in M broken_pool WALLET)) False])),
        ignore (lock_wallet alone M WALLET)])"

definition same_account_refuses_a_renamed_or_replaced_wallet ::
  "('w, 'c, 'a, 'l) accounts_lib_scheme \<Rightarrow> ('w, 'p, 'c, 'a, 'm) send_test_minotari_scheme \<Rightarrow>
     rstring \<Rightarrow> ('w, 'p, unit) bridge_api" where
  "same_account_refuses_a_renamed_or_replaced_wallet L M dir =
     and_then (funded_account L M (lit ''pass'') dir) (\<lambda>(pool, _).
     and_then (get_conn M pool) (\<lambda>conn.
     and_then (test_account M conn WALLET) (\<lambda>account. run_steps
       [same_account L conn WALLET (account_id L account),
        unwrap_db (update_friendly_name M conn (account_id L account) (lit ''gone'')),
        check_err (same_account L conn WALLET (account_id L account))
          (lit ''No accounts found for this wallet''),
        unwrap_db (create_account M conn WALLET (lit ''pass'')),
        check_err (same_account L conn WALLET (account_id L account))
          (lit ''Wallet Error: The wallet was renamed or replaced; try again'')])))"

text \<open>One round of the test's loop, which makes it with an empty and with a non-empty passphrase.\<close>

definition a_lock_before_the_build_is_locked_and_reserves_nothing ::
  "('w, 'c, 'a, 'l) accounts_lib_scheme \<Rightarrow> ('w, 'p, 'c, 'a, 'm) send_test_minotari_scheme \<Rightarrow>
     ('w, 'p, 'c, 'a, 'i, 'h, 't, rstring, 'wt, 'km, 'x, 'u, 'su, 'cf, 'cp, 'cc, 'sg, 'z) send_lib_scheme \<Rightarrow>
     rstring \<Rightarrow> rstring \<Rightarrow> ('w, 'p, unit) bridge_api" where
  "a_lock_before_the_build_is_locked_and_reserves_nothing L M S dir passphrase =
     and_then (funded_account L M passphrase dir) (\<lambda>(pool, output_id).
     and_then (set_database_path (db_file_in dir)) (\<lambda>_.
     and_then (unlock_wallet alone M (db_file_in dir) WALLET passphrase) (\<lambda>_.
     and_then (ignore (stored_key_manager M S WALLET)) (\<lambda>_.
     and_then (create_transaction_sender M S WALLET Lib_LocalNet 3) (\<lambda>sender.
     and_then (get_conn M pool) (\<lambda>conn.
     and_then (test_account M conn WALLET) (\<lambda>account.
     and_then (query (row_address M account passphrase)) (\<lambda>address. run_steps
       [returns (lock_wallet alone M WALLET) True,
        check_err (build_while_unlocked M S sender WALLET
            [\<lparr>rc_address = address, rc_amount = 1000, rc_payment_id = None\<rparr>] False)
          (lit ''Wallet is locked''),
        and_then (get_conn M pool) (\<lambda>conn. returns (output_status M conn output_id) (lit ''UNSPENT''))]))))))))"

definition sending_needs_an_unlocked_session_and_no_seed_words ::
  "('w, 'c, 'a, 'l) accounts_lib_scheme \<Rightarrow> ('w, 'p, 'c, 'a, 'm) send_test_minotari_scheme \<Rightarrow>
     ('w, 'p, 'c, 'a, 'i, 'h, 't, rstring, 'wt, 'km, 'x, 'u, 'su, 'cf, 'cp, 'cc, 'sg, 'z) send_lib_scheme \<Rightarrow>
     rstring \<Rightarrow> ('w, 'p, unit) bridge_api" where
  "sending_needs_an_unlocked_session_and_no_seed_words L M S dir =
     and_then (reserve_one_output L M S dir) (\<lambda>_. run_steps
       [set_database_path (db_file_in dir),
        check_err (stored_key_manager M S WALLET) (lit ''Wallet is locked''),
        unlock_wallet alone M (db_file_in dir) WALLET (lit ''pass''),
        ignore (stored_key_manager M S WALLET),
        and_then (create_transaction_sender M S WALLET Lib_LocalNet 3) (\<lambda>sender.
        and_then (get_db_connection M) (\<lambda>conn.
        and_then (unlocked_account M conn WALLET) (\<lambda>account.
        and_then (query (row_address M account [])) (\<lambda>address. run_steps
          [unwrap_db (backdate_expiry M conn None),
           modify (release_expired_reservations M conn),
           ignore (build_unsigned_transaction S sender
             [\<lparr>rc_address = address, rc_amount = 1000, rc_payment_id = None\<rparr>] False)])))),
        ignore (lock_wallet alone M WALLET)])"

definition reservation_is_released_by_pending_row_id_not_idempotency_key ::
  "('w, 'c, 'a, 'l) accounts_lib_scheme \<Rightarrow> ('w, 'p, 'c, 'a, 'm) send_test_minotari_scheme \<Rightarrow>
     ('w, 'p, 'c, 'a, 'i, 'h, 't, rstring, 'wt, 'km, 'x, 'u, 'su, 'cf, 'cp, 'cc, 'sg, 'z) send_lib_scheme \<Rightarrow>
     rstring \<Rightarrow> ('w, 'p, unit) bridge_api" where
  "reservation_is_released_by_pending_row_id_not_idempotency_key L M S dir =
     and_then (reserve_one_output L M S dir) (\<lambda>(pool, output_id, pending_id).
     and_then (get_conn M pool) (\<lambda>conn.
     and_then (query (select_idempotency_key M conn pending_id)) (\<lambda>key. run_steps
       [returns (output_status M conn output_id) (lit ''LOCKED''),
        returns (query (get_output_lock_request_id M conn output_id)) (Some pending_id),
        check (key \<noteq> pending_id),
        returns (unwrap_db (expire_and_unlock_pending_transaction M conn key)) False,
        returns (output_status M conn output_id) (lit ''LOCKED''),
        returns (unwrap_db (expire_and_unlock_pending_transaction M conn pending_id)) True,
        returns (output_status M conn output_id) (lit ''UNSPENT''),
        returns (query (get_output_lock_request_id M conn output_id)) None])))"

definition expired_reservations_are_released_on_database_init ::
  "('w, 'c, 'a, 'l) accounts_lib_scheme \<Rightarrow> ('w, 'p, 'c, 'a, 'm) send_test_minotari_scheme \<Rightarrow>
     ('w, 'p, 'c, 'a, 'i, 'h, 't, rstring, 'wt, 'km, 'x, 'u, 'su, 'cf, 'cp, 'cc, 'sg, 'z) send_lib_scheme \<Rightarrow>
     rstring \<Rightarrow> ('w, 'p, unit) bridge_api" where
  "expired_reservations_are_released_on_database_init L M S dir =
     and_then (reserve_one_output L M S dir) (\<lambda>(pool, output_id, pending_id).
     and_then (get_conn M pool) (\<lambda>conn. run_steps
       [modify (release_expired_reservations M conn),
        returns (output_status M conn output_id) (lit ''LOCKED''),
        unwrap_db (backdate_expiry M conn (Some pending_id)),
        modify (release_expired_reservations M conn),
        returns (output_status M conn output_id) (lit ''UNSPENT'')]))"

section \<open>A reference wallet with reservations\<close>

text \<open>
  Accounts have a database, an id, a name and a passphrase; outputs a database, an id and the
  pending row that locks them; pending rows a database, an id, the idempotency key and whether
  they expired. A sender is its pool, wallet, passphrase and pending row. A start needs the keys:
  the account's passphrase or its session.
\<close>

record send_world =
  sw_accounts :: "(rstring \<times> i64 \<times> rstring \<times> rstring) list"
  sw_sessions :: "rstring set"
  sw_outputs :: "(rstring \<times> i64 \<times> rstring option) list"
  sw_pending :: "(rstring \<times> rstring \<times> rstring \<times> bool) list"
  sw_broken :: "rstring list"
  sw_nonce :: nat

type_synonym ref_account = "i64 \<times> rstring \<times> rstring"

definition accounts_named :: "rstring \<Rightarrow> rstring \<Rightarrow> send_world \<Rightarrow> ref_account list" where
  "accounts_named c w wd = map snd (filter (\<lambda>(p, _, v, _). p = c \<and> v = w) (sw_accounts wd))"

definition fresh_id :: "string \<Rightarrow> send_world \<Rightarrow> rstring \<times> send_world" where
  "fresh_id prefix wd = (lit prefix @ format_dec (sw_nonce wd), wd\<lparr>sw_nonce := sw_nonce wd + 1\<rparr>)"

definition has_keys :: "rstring \<Rightarrow> ref_account \<Rightarrow> send_world \<Rightarrow> bool" where
  "has_keys pw row wd \<longleftrightarrow> (case row of (_, w, pass) \<Rightarrow> pw = pass \<or> w \<in> sw_sessions wd)"

definition free_output :: "rstring \<Rightarrow> rstring \<Rightarrow> send_world \<Rightarrow> bool \<times> send_world" where
  "free_output c row wd =
     (list_ex (\<lambda>(p, r, _). p = c \<and> r = row) (sw_pending wd),
      wd\<lparr>sw_pending := filter (\<lambda>(p, r, _). \<not> (p = c \<and> r = row)) (sw_pending wd),
         sw_outputs := map (\<lambda>(p, i, l). (p, i, if p = c \<and> l = Some row then None else l)) (sw_outputs wd)\<rparr>)"

definition lock_of :: "rstring \<Rightarrow> i64 \<Rightarrow> send_world \<Rightarrow> rstring + rstring option" where
  "lock_of c i wd =
     (case filter (\<lambda>(p, j, _). p = c \<and> j = i) (sw_outputs wd) of
        [] \<Rightarrow> Inl (lit ''no output'') | (_, _, l) # _ \<Rightarrow> Inr l)"

definition reserving_minotari :: "(send_world, rstring, rstring, ref_account) send_test_minotari" where
  "reserving_minotari =
     \<lparr>init_db = (\<lambda>path wd. (Inr path, wd)),
      pool_get = (\<lambda>p _. Inr p),
      session_is_unlocked = (\<lambda>c w wd. if c \<in> set (sw_broken wd)
        then Inl \<lparr>db_kind = DbOther, db_text = lit ''no such table: accounts''\<rparr>
        else Inr (w \<in> sw_sessions wd)),
      session_unlock = (\<lambda>c w pw wd. case accounts_named c w wd of
          [] \<Rightarrow> (Inl \<lparr>db_kind = DbInvalidInput, db_text = []\<rparr>, wd)
        | row # _ \<Rightarrow> if has_keys pw row wd then (Inr (), wd\<lparr>sw_sessions := insert w (sw_sessions wd)\<rparr>)
            else (Inl \<lparr>db_kind = DbDecryptionFailed, db_text = []\<rparr>, wd)),
      session_lock = (\<lambda>w wd. wd\<lparr>sw_sessions := sw_sessions wd - {w}\<rparr>),
      get_account_by_name = (\<lambda>c w wd. Inr (case accounts_named c w wd of [] \<Rightarrow> None | row # _ \<Rightarrow> Some row)),
      verify_passphrase = (\<lambda>(_, _, pass) pw. if pw = pass then Inr ()
        else Inl \<lparr>db_kind = DbDecryptionFailed, db_text = []\<rparr>),
      find_expired_pending_transactions = (\<lambda>c wd.
        Inr (map (\<lambda>(_, r, _). r) (filter (\<lambda>(p, _, _, expired). p = c \<and> expired) (sw_pending wd)))),
      expire_and_unlock_pending_transaction = (\<lambda>c row wd. case free_output c row wd of (b, wd) \<Rightarrow> (Inr b, wd)),
      wal_checkpoint_truncate = (\<lambda>_ wd. (Inr 0, wd)),
      create_account = (\<lambda>c w pw wd.
        (Inr (), wd\<lparr>sw_accounts := (c, of_nat (sw_nonce wd), w, pw) # sw_accounts wd, sw_nonce := sw_nonce wd + 1\<rparr>)),
      session_lock_all = (\<lambda>wd. wd\<lparr>sw_sessions := {}\<rparr>),
      row_address = (\<lambda>row pw wd. if has_keys pw row wd then Inr (fst (snd row)) else Inl (lit ''no keys'')),
      conn_execute = (\<lambda>_ wd. (Inr (), wd)),
      wal_len = (\<lambda>_ _. 0),
      insert_scanned_tip_block = (\<lambda>_ _ _ wd. (Inr (), wd)),
      insert_output = (\<lambda>c _ _ _ wd. (Inr (of_nat (sw_nonce wd)),
        wd\<lparr>sw_outputs := (c, of_nat (sw_nonce wd), None) # sw_outputs wd, sw_nonce := sw_nonce wd + 1\<rparr>)),
      mark_output_confirmed = (\<lambda>_ _ _ wd. (Inr (), wd)),
      select_status = (\<lambda>c i wd. res_then (lock_of c i wd) (\<lambda>l.
        Inr (case l of None \<Rightarrow> lit ''UNSPENT'' | Some _ \<Rightarrow> lit ''LOCKED''))),
      get_output_lock_request_id = lock_of,
      select_idempotency_key = (\<lambda>c row wd.
        case filter (\<lambda>(p, r, _). p = c \<and> r = row) (sw_pending wd) of
          [] \<Rightarrow> Inl (lit ''no row'') | (_, _, key, _) # _ \<Rightarrow> Inr key),
      backdate_expiry = (\<lambda>c row wd. (Inr (), wd\<lparr>sw_pending := map (\<lambda>(p, r, key, expired).
        (p, r, key, expired \<or> p = c \<and> (row = None \<or> row = Some r))) (sw_pending wd)\<rparr>)),
      update_friendly_name = (\<lambda>c i w wd. (Inr (), wd\<lparr>sw_accounts := map (\<lambda>(p, j, v, pw).
        (p, j, if p = c \<and> j = i then w else v, pw)) (sw_accounts wd)\<rparr>)),
      drop_accounts = (\<lambda>c wd. (Inr (), wd\<lparr>sw_broken := c # sw_broken wd\<rparr>))\<rparr>"

definition reserving_rows :: "(send_world, rstring, ref_account) accounts_lib" where
  "reserving_rows =
     \<lparr>get_accounts = (\<lambda>c w wd. Inr (case w of None \<Rightarrow> [] | Some w \<Rightarrow> accounts_named c w wd)),
      account_id = fst, friendly_name = (\<lambda>(_, w, _). w)\<rparr>"

type_synonym ref_sender = "rstring \<times> rstring \<times> rstring \<times> rstring"

definition reserve :: "ref_sender \<Rightarrow> rstring \<Rightarrow> send_world \<Rightarrow> (rstring + unit \<times> ref_sender) \<times> send_world" where
  "reserve x key wd =
     (case x of (c, w, pw, _) \<Rightarrow>
        case (accounts_named c w wd, filter (\<lambda>(p, _, l). p = c \<and> l = None) (sw_outputs wd)) of
          (row # _, (_, i, _) # _) \<Rightarrow>
            if has_keys pw row wd then
              (case fresh_id ''row-'' wd of (pid, wd) \<Rightarrow>
                (Inr ((), (c, w, pw, pid)),
                 wd\<lparr>sw_pending := (c, pid, key, False) # sw_pending wd,
                    sw_outputs := map (\<lambda>(p, j, l). (p, j, if p = c \<and> j = i then Some pid else l)) (sw_outputs wd)\<rparr>))
            else (Inl (lit ''aead::Error''), wd)
        | _ \<Rightarrow> (Inl (lit ''Not enough funds''), wd))"

definition reserving_sender ::
  "(send_world, rstring, rstring, ref_account, unit, unit, unit, rstring, unit, unit, ref_sender,
    unit, unit, unit, unit, unit, unit) send_lib" where
  "reserving_sender =
     \<lparr>decrypt_wallet_type = (\<lambda>row pw wd. if has_keys pw row wd then Inr () else Inl (lit ''aead::Error'')),
      is_view_wallet = (\<lambda>_. False),
      session_key_manager = Inr,
      sender_new = (\<lambda>p w pw _ _ _. Inr (p, w, pw, [])),
      set_fee_per_gram = (\<lambda>_ x. x),
      sender_pool = fst,
      pending_id = (\<lambda>(_, _, _, pid). pid),
      new_uuid = fresh_id ''key-'',
      start_new_send_all_transaction = (\<lambda>x key _ _ _. reserve x key),
      start_new_transaction_multi = (\<lambda>x key _ _. reserve x key),
      payload_summary = id, present_payload_summary = Inr, confirm_summary = (\<lambda>_. Inr),
      consensus_constants = (\<lambda>_. ()), sign_locked_transaction = (\<lambda>_ _ _. Inr),
      finalize_transaction_and_broadcast = (\<lambda>_ _ _ wd. (Inl (lit ''unreachable''), wd)),
      lib_abandon_send = (\<lambda>_ _ _ _ _ wd. (Inl NotStalled, wd))\<rparr>"

definition send_process :: "(send_world, rstring) bridge" where
  "send_process = init_bridge
     \<lparr>sw_accounts = [], sw_sessions = {}, sw_outputs = [], sw_pending = [], sw_broken = [], sw_nonce = 0\<rparr>"

lemma send_tests_pass:
  "passes (the_send_gate_fails_closed reserving_rows reserving_minotari (lit ''/tmp/a'') (lit ''/tmp/b'')) send_process"
  "passes (same_account_refuses_a_renamed_or_replaced_wallet reserving_rows reserving_minotari (lit ''/tmp/a''))
     send_process"
  "passes (a_lock_before_the_build_is_locked_and_reserves_nothing reserving_rows reserving_minotari
     reserving_sender (lit ''/tmp/a'') []) send_process"
  "passes (a_lock_before_the_build_is_locked_and_reserves_nothing reserving_rows reserving_minotari
     reserving_sender (lit ''/tmp/a'') (lit ''pass'')) send_process"
  by code_simp+

lemma reservation_tests_pass:
  "passes (sending_needs_an_unlocked_session_and_no_seed_words reserving_rows reserving_minotari
     reserving_sender (lit ''/tmp/a'')) send_process"
  "passes (reservation_is_released_by_pending_row_id_not_idempotency_key reserving_rows reserving_minotari
     reserving_sender (lit ''/tmp/a'')) send_process"
  "passes (expired_reservations_are_released_on_database_init reserving_rows reserving_minotari
     reserving_sender (lit ''/tmp/a'')) send_process"
  by code_simp+

end
