(* ===== verification/Spec2Isabelle.thy ===== *)
theory Spec2Isabelle
  imports Session_Interleaving Session_Progress Scan_Interleaving Scan_Keys Scanner Send Wallet_Api Fee Signing
    Height Base_Node Logger Wire Wire_Types Dart_Objects Bridge_Runtime Fixture Live_Check
    Tests_Values Tests_Keys Tests_Logging Tests_Sessions Tests_Wallets Tests_Scans Tests_Send
begin

text \<open>
  The Tari wallet bridge: a Rust crate that a Flutter app calls through flutter\_rust\_bridge and
  that drives minotari, a wallet library. The crate keeps little of its own: which database is
  open, how many holders each wallet's key session has, which scan of a wallet runs, which
  wallets are under maintenance, and the logger. What makes it hard is that every call may run
  on any of several threads, or from a second Dart engine in the same process, and that a wallet
  can be locked, renamed or deleted while an unlock, a scan or a send of it is under way. This
  development models the crate function by function and proves what those rules promise.

  \<^bold>\<open>The parts and their theories.\<close>

  \<^item> \<open>Prelude\<close>, \<open>Config\<close> (\<open>src/api/config.rs\<close>), \<open>Bridge_Runtime\<close> (\<open>src/api/bridge_runtime.rs\<close>): machine
    integers, strings as lists of Unicode scalar values, results with early return (\<open>proc\<close>,
    \<open>and_then\<close> is \<open>?\<close>), number formats, a locale for invariants that hold for a bounded number of
    steps; the constants; the handler with its pools.
  \<^item> \<open>Wallet_Error\<close> (\<open>src/api/error.rs\<close>): the error enum and the texts Dart sees.
  \<^item> \<open>Globals\<close>: the process-global state, one record field per \<open>static\<close> of \<open>src/api/db.rs\<close> and
    \<open>src/api/scanner.rs\<close>, minotari as a record of functions on a world \<open>'w\<close>, and what other tasks
    may do at an await (the environment).
  \<^item> \<open>Db\<close>, \<open>Session_Counts\<close>, \<open>Session_Laws\<close>, \<open>Session_Interleaving\<close>, \<open>Session_Progress\<close>
    (\<open>src/api/db.rs\<close>): the pool, the open counts with their generations, \<open>unlock_wallet\<close>,
    \<open>lock_wallet\<close>, \<open>force_lock_wallet\<close>; the counts as a counter per wallet; the calls run alone; any
    number of tasks interleaved at every guard; the measure by which their calls end.
  \<^item> \<open>Scan_State\<close>, \<open>Scanner\<close>, \<open>Scan_Interleaving\<close>, \<open>Scan_Keys\<close> (\<open>src/api/scanner.rs\<close>): handles and slots,
    a scan with its events and its forwarder, any number of scans and maintenance operations
    interleaved, and the same with the calls of \<open>src/api/db.rs\<close> that open and close sessions.
  \<^item> \<open>Send\<close> (\<open>src/api/send_transaction.rs\<close>): validation, reservation, signing, the session gate, the
    broadcast, the release of the reservation on every failure, and giving up a stalled send.
  \<^item> \<open>Wallet_Api\<close> (\<open>src/api/wallet.rs\<close>, \<open>src/api/address.rs\<close>, \<open>src/domain/address.rs\<close>, \<open>src/domain/keys.rs\<close>),
    \<open>Transactions\<close> (\<open>src/api/transactions.rs\<close>, \<open>src/api/balance.rs\<close>), \<open>Fee\<close>, \<open>Signing\<close>, \<open>Height\<close>, \<open>Base_Node\<close>,
    \<open>Network\<close>, \<open>Utils\<close> (the files of \<open>src/api\<close> with these names), \<open>Text\<close>, \<open>Validation\<close> (\<open>src/domain\<close>).
  \<^item> \<open>Log_Levels\<close>, \<open>Log_Text\<close>, \<open>Logger\<close> (\<open>src/api/logger.rs\<close>): the level filter; redaction, escapes and
    truncation; installing the logger, the writer that contains panics, the panic hook.
  \<^item> \<open>Codec\<close>, \<open>Codec_Text\<close>, \<open>Codec_Types\<close>, \<open>Wire\<close>, \<open>Wire_Types\<close>, \<open>Dart_Objects\<close>
    (\<open>src/frb_generated.rs\<close>): the bytes values cross the bridge as; each call of Dart with its
    arguments, the function it runs, its reply, its id; the arguments are well formed; the second
    form of every value, as a Dart object (\<open>IntoDart\<close>).
  \<^item> \<open>Fixture\<close>, \<open>Live_Check\<close> (\<open>verify/src/fixture.rs\<close>, \<open>verify/src/main.rs\<close>): the golden wallet database
    and recorded node answers, the commands of the checker, and the live scenario, a client of
    the functions above.
  \<^item> \<open>Session_Contract\<close>: simulations; whatever abstracts minotari abstracts the calls of \<open>Db\<close>.
  \<^item> \<open>Tests_Values\<close>, \<open>Tests_Keys\<close>, \<open>Tests_Logging\<close>, \<open>Tests_Sessions\<close>, \<open>Tests_Wallets\<close>,
    \<open>Tests_Scans\<close>, \<open>Tests_Send\<close>: the unit tests at the end of the source files, statement by
    statement, and that they pass: the expected values are the crate's own.

  \<^bold>\<open>How they interact.\<close> A call arrives as bytes (\<open>Wire\<close>), is decoded (\<open>Codec_Types\<close>) and runs a
  function of the API. \<open>Wallet_Api\<close>, \<open>Send\<close> and \<open>Signing\<close> reach the database through \<open>Db\<close>, and check
  the key session there before they use a key. Locking the last holder cancels the wallet's
  scans (\<open>Db\<close> calls \<open>Scan_State\<close>); renames, deletes, passphrase changes and abandoned sends hold the
  wallet's maintenance lock, which keeps scans out of its slot. The last section of this theory
  puts these together as Dart sees them.

  \<^bold>\<open>State and steps.\<close> A function that touches the globals maps a state to its result and the state
  after; it is made of sections, each the code under one guard, so that the interleaving models
  step through the same sections. An await is a call of the environment, which may run any
  other sections; \<open>alone\<close> is the environment in which nothing else runs. A poisoned lock is a flag
  of the state and the error the code makes of it. Results that say "run alone" are about one
  call; those about interleavings hold for any number of tasks.

  \<^bold>\<open>What the lemmas show.\<close>

  \<^item> Sessions: an unlock that returns \<open>Ok\<close> left the wallet counted and open, in any interleaving; a
    failing one adds nothing; the pool is open exactly while a wallet is counted; when no task is
    in progress an uncounted wallet has no session; a force lock beats an unlock under way; the
    sections of the interleaving, run one after the other, are \<open>unlock_wallet\<close>; the sections of
    finitely many calls come to an end in every order.
  \<^item> Scans: at most one scan of a wallet runs, none while it is under maintenance, and none waits
    for a slot for ever; none goes on, uncancelled, once its wallet is locked; a handle starts one scan; each stream ends with exactly one terminal
    event; the forwarder delivers what a reference delivery does.
  \<^item> Sends: the stages come in order; a failure after the reservation releases it; nothing is
    broadcast without an open session; a stalled send is given up only after the passphrase.
  \<^item> Text and numbers: the log holds no URL credentials and no character that could forge a line,
    amounts read back, a recipient is accepted exactly when the rules say so.
  \<^item> The bridge: every value comes out as it went in, a string is read exactly when its bytes are
    UTF-8, a call through the bridge is the call of the function, on well-formed arguments
    whatever bytes arrive, and the two forms of a value are readings of one tree.
  \<^item> The unit tests: those of values hold of the model outright or from the laws of tari they
    use; those of sessions, wallets, scans and sends are evaluated on small reference libraries,
    and the tests of \<open>db.rs\<close>, with those that rename, delete and sign, pass on every library that
    a reference one abstracts, because the calls commute with the abstraction.
  \<^item> The end-to-end checks: the fixture holds its golden history, and a live check that passes has
    seen every step of its scenario succeed.

  \<^bold>\<open>Interfaces.\<close> Locales state the contracts: \<open>bounded_invariant\<close> (an invariant kept by a bounded
  number of steps), \<open>counted_registry\<close> (a counter per key), \<open>codec\<close> (decoding what was encoded) with
  its extension \<open>strict_codec\<close> (and only well-formed values), and \<open>dart_codec\<close> (the object and the
  bytes of a value are one tree). Each is interpreted on the model's own definitions, and the
  properties rest on those facts.

  \<^bold>\<open>Bounds.\<close> A \<open>usize\<close> has 64 bits. Counts of holders saturate at \<open>2 ^ 32 - 1\<close> (\<open>open_counts_refine\<close>
  stays below it). Generations and handle ids are 64-bit counters that wrap: the results about
  them hold for the first \<open>2 ^ 64\<close> steps. Vectors and strings on the wire are shorter than
  \<open>2 ^ 31\<close>, as their length crosses as an \<open>i32\<close>. No definition needs fuel: every loop of the crate is
  structural or comes with a termination proof.

  \<^bold>\<open>What is assumed.\<close> minotari, tari, SQLite, fern, file-rotate and the runtime of the bridge are
  not code of this repository: their functions are arguments. What a result needs of them is a
  hypothesis: \<open>session_laws\<close> (a session is open from its unlock to its lock, and the other calls
  leave it alone), \<open>write_once\<close> (the network of the process is set once), laws of seed words and
  addresses for restoring a wallet, \<open>history_laws\<close> (a row inserted is the last of the stored
  history). Each is shown to hold for a concrete instance, in which the
  results are applied. The reference libraries of the tests (\<open>reference_minotari\<close>,
  \<open>reserving_minotari\<close> and their like) are such instances too: stand-ins, not models of minotari.

  \<^bold>\<open>Not modelled.\<close> Module lists (\<open>lib.rs\<close>, \<open>mod.rs\<close>); the lock the tests share and the threads they
  start, whose order each test's model fixes; the reference counts of opaque handles and the encoder of a stream sink, which the generated file
  leaves unimplemented; a panic outside the log writer, the decoders and the fixtures, and memory
  (the zeroing of secrets); the Dart side, which is generated code.
\<close>

section \<open>A locked wallet, seen from Dart\<close>

text \<open>Signing on a wallet without a session fails.\<close>

lemma locked_sign_fails:
  assumes "session_laws M has" "\<not> has (world s) w"
  shows "\<exists>e t. sign_message M lib_sign w message s = (Inl e, t)"
proof (cases "sign_message M lib_sign w message s")
  case (Pair r t)
  show ?thesis
  proof (cases r)
    case (Inr signature)
    with Pair obtain conn s1 account s2 where
      run: "get_db_connection M s = (Inr conn, s1)" "unlocked_account M conn w s1 = (Inr account, s2)"
      unfolding sign_message_def by (auto elim!: and_then_OkE)
    with unlocked_account_Ok [OF assms(1) run(2)] get_db_connection_has [OF assms(1) run(1)] assms(2)
    show ?thesis by simp
  qed (use Pair in auto)
qed

text \<open>A send for a wallet without a session ends before the inputs are chosen.\<close>

lemma sender_keeps_sessions:
  assumes "session_laws M has" "create_transaction_sender M S w net window s = (Inr sender, t)"
  shows "has (world t) = has (world s)"
proof -
  have "get_db_pool M s = (Inr pool, t)"
    if "map_err_proc (\<lambda>e. Wallet_Err (database (to_string e))) (get_db_pool M) s = (Inr pool, s1)" "s1 = t" for pool s1
    using that by (simp only: map_err_proc_Ok)
  with assms(2) obtain pool where "get_db_pool M s = (Inr pool, t)"
    unfolding create_transaction_sender_def
    by (elim and_then_OkE) (auto simp: err_def fail_def ret_def split: sum.splits)
  then show ?thesis
    using laws_other_calls(1) [OF assms(1)]
    by (auto simp: get_db_pool_def init_pool_def on_world_def
        proc_simps split: option.splits sum.splits prod.splits if_splits) (metis snd_conv)+
qed

lemma key_manager_needs_session:
  assumes "session_laws M has" "stored_key_manager M S w s = (Inr km, t)"
  shows "has (world s) w"
proof -
  from assms(2) obtain conn s1 account s2 where
    run: "get_db_connection M s = (Inr conn, s1)" "unlocked_account M conn w s1 = (Inr account, s2)"
    unfolding stored_key_manager_def by (auto elim!: and_then_OkE)
  with unlocked_account_Ok [OF assms(1) run(2)] get_db_connection_has [OF assms(1) run(1)]
  show ?thesis by simp
qed

lemma locked_send_fails:
  assumes "session_laws M has" "\<not> has (world s) (sd_wallet_name d)"
    and keeps: "\<And>net wd. has (snd (set_network_if_choice_valid N net wd)) = has wd"
    and run: "send_transaction_with_handler env A N L M S d s = ((evs, r), t)"
  shows "(\<exists>e. r = Inl e) \<and> length (stages evs) \<le> 3"
proof -
  have net: "has (world s2) = has (world s1)" if "apply_network N n s1 = (Inr x, s2)" for n x s1 s2
    using that keeps
    by (auto simp: apply_network_def map_err_proc_Ok on_world_def split: prod.splits) (metis snd_conv)+
  have no_key: "\<not> stored_key_manager M S (sd_wallet_name d) s3 = (Inr km, s4)"
    if "apply_network N n s = (Inr x, s2)"
      "create_transaction_sender M S (sd_wallet_name d) n window s2 = (Inr sender, s3)" for n x s2 window sender s3 km s4
    using net [OF that(1)] sender_keeps_sessions [OF assms(1) that(2)] key_manager_needs_session [OF assms(1)]
      assms(2) by metis
  show ?thesis
    using run unfolding send_transaction_with_handler_def
    by (elim send_reportE send_silentE) (auto simp: proc_simps no_key)
qed

text \<open>
  C7 (safety): a wallet that was locked for everyone stays shut. Dart's call of
  \<open>force_lock_wallet\<close> succeeds and cancels the wallet's scans; after it, a message is not signed,
  a send fails before its inputs are chosen (at most three progress events), and a scan gets one
  event and takes no slot, all as replies on the wire. It rests on minotari's key sessions
  behaving as \<open>session_laws\<close> says, and on the process's network not touching them.
\<close>

theorem locked_wallet_stays_shut:
  assumes "session_laws M has" "\<forall>net wd. has (snd (set_network_if_choice_valid N net wd)) = has wd"
    and "db_inv s" "\<not> db_poisoned s" "\<not> scan_poisoned s"
    and "valid_String w" "valid_String message" "valid_String channel"
    and "valid_MultiSendTransactionDetails d" "sd_wallet_name d = w"
    and "valid_ScanConfiguration config" "cfg_wallet_name config = w" "valid_ScanHandle handle"
  shows "\<exists>t. wire_force_lock_wallet alone M debug (encode_String w) s = (Success [], t) \<and>
    scans_cancelled w t \<and>
    (\<exists>e u. wire_sign_message M lib_sign debug (encode_String w @ encode_String message) t = (Failure e, u)) \<and>
    (\<exists>events e u. wire_send_transaction env A N L M S post debug
        (encode_String channel @ encode_MultiSendTransactionDetails d) t = ((events, Failure e), u) \<and>
      length events \<le> 3) \<and>
    (\<exists>events r u. wire_start_scan env Sc L M tx post debug
        (encode_String channel @ encode_ScanHandle handle @ encode_ScanConfiguration config) t = ((events, r), u) \<and>
      length events = 1 \<and> running (SCAN_STATE u) = running (SCAN_STATE t))"
proof -
  obtain t where t: "lock_wallet_everywhere alone M w s = (Inr (), t)" "\<not> has (world t) w" "scans_cancelled w t"
    using lock_everywhere_alone [OF assms(1,3,4,5), of w] by blast
  have lock: "wire_force_lock_wallet alone M debug (encode_String w) s = (Success [], t)"
    using assms(6) t(1)
    by (simp add: wire_force_lock_wallet_def wire_call_def decode_message_def codec_rt_end
        force_lock_wallet_def respond_def encode_unit_def)
  obtain e u where "sign_message M lib_sign w message t = (Inl e, u)"
    using locked_sign_fails [OF assms(1) t(2)] by blast
  then have sign: "wire_sign_message M lib_sign debug (encode_String w @ encode_String message) t =
      (Failure (encode_anyhow debug e), u)"
    using assms(6,7)
    by (simp add: wire_sign_message_def wire_call_def decode_message_def decode_pair_def codec_rt
        codec_rt_end respond_def)
  let ?sink = "\<lambda>before event. post channel (map encode_SendTransactionEvent before) (encode_SendTransactionEvent event)"
  obtain evs r1 u1 where run: "send_transaction ?sink env A N L M S d t = ((evs, r1), u1)" by (metis prod.collapse)
  then have "send_transaction_with_handler env A N L M S d t = ((evs, r1), u1)"
    by (simp add: send_transaction_def)
  from locked_send_fails [OF assms(1) _ _ this] obtain e1 where send: "r1 = Inl e1" "length evs \<le> 3"
    using t(2) assms(2,10) by (auto simp: stages_def)
  have sent: "wire_send_transaction env A N L M S post debug
      (encode_String channel @ encode_MultiSendTransactionDetails d) t =
      ((map encode_SendTransactionEvent evs, Failure (encode_anyhow debug e1)), u1)"
    using assms(8,9) run send(1)
    by (simp add: wire_send_transaction_def wire_stream_def decode_message_def decode_pair_def
        decode_SendSink_def decode_StreamSink_def codec_rt codec_rt_end respond_def)
  let ?scan_sink = "\<lambda>before event. post channel (map encode_ScanEventDto before) (encode_ScanEventDto event)"
  obtain events r2 u2 where scan: "start_scan env Sc L M tx debug ?scan_sink handle config t = ((events, r2), u2)"
    by (metis prod.collapse)
  have "scan_refused has config None t" using t(2) assms(12) by (simp add: scan_refused_def)
  with scan have refused: "length events = 1" "running (SCAN_STATE u2) = running (SCAN_STATE t)"
    using refused_scan_quiet [OF assms(1)] unfolding start_scan_def start_scan_with_handler_def by blast+
  have scanned: "wire_start_scan env Sc L M tx post debug
      (encode_String channel @ encode_ScanHandle handle @ encode_ScanConfiguration config) t =
      ((map encode_ScanEventDto events, respond encode_unit debug r2), u2)"
    using assms(8,11,13) scan
    by (simp add: wire_start_scan_def wire_stream_def decode_message_def decode_pair_def
        decode_ScanSink_def decode_StreamSink_def codec_rt codec_rt_end)
  show ?thesis
    using lock t(3) sign sent send(2) scanned refused by (intro exI [of _ t] conjI) auto
qed

theorem locked_wallet_stays_shut_witness:
  "\<exists>t. wire_force_lock_wallet alone example_minotari to_string (encode_String (lit ''w'')) example_unlocked =
      (Success [], t) \<and> scans_cancelled (lit ''w'') t \<and>
    (\<exists>e u. wire_sign_message example_minotari (\<lambda>_ m wd. (Inr m, wd)) to_string
       (encode_String (lit ''w'') @ encode_String (lit ''hi'')) t = (Failure e, u))"
proof -
  have strings: "valid_String (lit ''w'')" "valid_String (lit ''hi'')" "valid_String []"
    by (simp_all add: valid_String_def lit_def scalar_value_def len_utf8_def)
  have keeps: "\<forall>net wd. (\<lambda>w. w \<in> snd (set_network_if_choice_valid example_any_network net wd)) = (\<lambda>w. w \<in> wd)"
    by (simp add: example_any_network_def)
  have "valid_MultiSendTransactionDetails example_payment"
    using strings
    by (simp add: example_payment_def valid_MultiSendTransactionDetails_def valid_SendRecipient_def
        valid_String_def fits_i32_def lit_def scalar_value_def len_utf8_def)
  moreover have "sd_wallet_name example_payment = lit ''w''" by (simp add: example_payment_def)
  moreover have "valid_ScanConfiguration example_config" "cfg_wallet_name example_config = lit ''w''"
    using strings by (simp_all add: example_config_def valid_ScanConfiguration_def)
  moreover have "valid_ScanHandle \<lparr>handle_wallet = lit ''w'', handle_id = 0\<rparr>"
    using strings by (simp add: valid_ScanHandle_def)
  ultimately show ?thesis
    using locked_wallet_stays_shut [OF example_session_laws keeps example_unlocked_ok strings(1,2,3)]
    by blast
qed

end
